(* ===== verification/Prelude.thy ===== *)
theory Prelude
  imports Complex_Main "HOL-Library.Word" "HOL-Library.AList" "HOL-Library.Signed_Division"
begin

text \<open>
  The parts of the Go language and of its standard library that every component of the
  suite uses, with the lemmas the component theories share:

  \<^item> machine integers: \<open>uint8/16/32/64\<close> are words (wrap-around is that of the word type);
    \<open>int64\<close>, \<open>int\<close> and \<open>time.Duration\<close> are \<open>int\<close> with the two's complement
    wrap-around of 64 bits written out by \<open>i64\<close> where an operation can overflow, and
    division truncating towards zero (\<open>sdiv\<close>);
  \<^item> Go maps as association lists with distinct keys: the list order stands for the
    unspecified iteration order of \<open>range\<close>;
  \<^item> byte slices as \<open>byte list\<close>: slicing, \<open>copy\<close>, \<open>encoding/binary\<close>;
  \<^item> the decimal rendering \<open>%d\<close>, \<open>strconv.Atoi\<close>, \<open>strings.Split\<close>,
    \<open>strings.TrimSpace\<close> on ASCII strings.
\<close>

unbundle bit_operations_syntax

type_synonym byte = "8 word"
type_synonym u16 = "16 word"
type_synonym u32 = "32 word"
type_synonym u64 = "64 word"

text \<open>The collections the component proofs draw on: lengths of byte strings, laws of Go maps,
  bounds and wrap-around of the 64-bit integers.\<close>

named_theorems go_bytes
named_theorems go_maps
named_theorems go_ints


section \<open>64-bit signed integers\<close>

definition i64 :: "int \<Rightarrow> int" where
  "i64 x = signed_take_bit 63 x"

definition in_i64 :: "int \<Rightarrow> bool" where
  "in_i64 x \<longleftrightarrow> - (2 ^ 63) \<le> x \<and> x < 2 ^ 63"

lemma i64_id [go_ints]: "in_i64 x \<Longrightarrow> i64 x = x"
  unfolding in_i64_def i64_def by (rule signed_take_bit_int_eq_self) auto

lemma in_i64_i64 [simp, go_ints]: "in_i64 (i64 x)"
  unfolding in_i64_def i64_def
  using signed_take_bit_int_greater_eq_minus_exp [of 63 x] signed_take_bit_int_less_exp [of 63 x]
  by simp

lemma i64_small: "- 9223372036854775808 \<le> x \<Longrightarrow> x < 9223372036854775808 \<Longrightarrow> i64 x = x"
  by (rule i64_id) (simp add: in_i64_def)

lemma i64_add_left [simp]: "i64 (i64 a + b) = i64 (a + b)"
  unfolding i64_def
  by (metis signed_take_bit_add signed_take_bit_signed_take_bit min.idem)

lemma i64_add_right [simp]: "i64 (a + i64 b) = i64 (a + b)"
  using i64_add_left [of b a] by (simp add: add.commute)

text \<open>\<open>uint64(ts)\<close> and \<open>int64(u)\<close>: the two conversions between the 64-bit types.\<close>

definition u64_of_i64 :: "int \<Rightarrow> u64" where
  "u64_of_i64 x = word_of_int x"

definition i64_of_u64 :: "u64 \<Rightarrow> int" where
  "i64_of_u64 w = sint w"

lemma i64_of_u64_of_i64 [go_ints]: "in_i64 x \<Longrightarrow> i64_of_u64 (u64_of_i64 x) = x"
  unfolding i64_of_u64_def u64_of_i64_def in_i64_def
  by (simp add: sint_sbintrunc' signed_take_bit_int_eq_self)

lemma u64_of_i64_of_u64 [simp]: "u64_of_i64 (i64_of_u64 w) = w"
  unfolding i64_of_u64_def u64_of_i64_def by simp

lemma in_i64_i64_of_u64 [simp]: "in_i64 (i64_of_u64 w)"
  unfolding i64_of_u64_def in_i64_def using sint_greater_eq [of w] sint_less [of w] by simp

text \<open>Truncating division on non-negative operands is the mathematical one.\<close>

lemma sdiv_nonneg [go_ints]: "0 \<le> a \<Longrightarrow> 0 < b \<Longrightarrow> a sdiv b = a div b" for a b :: int
  by (cases "a = 0") (simp_all add: signed_divide_int_def)

lemma sdiv_nonneg_ge: "0 \<le> a \<Longrightarrow> 0 < b \<Longrightarrow> 0 \<le> a sdiv b" for a b :: int
  by (simp add: sdiv_nonneg pos_imp_zdiv_nonneg_iff)



section \<open>Go maps\<close>

text \<open>
  A map value is an association list whose keys are distinct (\<open>map_ok\<close>); a nil map reads
  as the empty list. \<open>m[k]\<close> is \<open>map_of m k\<close>, \<open>m[k] = v\<close> is \<open>AList.update k v m\<close>,
  \<open>delete(m, k)\<close> is \<open>AList.delete k m\<close>.
\<close>

type_synonym ('k, 'v) gomap = "('k \<times> 'v) list"

definition map_ok :: "('k, 'v) gomap \<Rightarrow> bool" where
  "map_ok m \<longleftrightarrow> distinct (map fst m)"

lemma map_ok_Nil [simp, go_maps]: "map_ok []"
  by (simp add: map_ok_def)

lemma map_ok_update [simp, go_maps]: "map_ok m \<Longrightarrow> map_ok (AList.update k v m)"
  by (simp add: map_ok_def distinct_update)

lemma map_ok_delete [simp, go_maps]: "map_ok m \<Longrightarrow> map_ok (AList.delete k m)"
  by (simp add: map_ok_def distinct_delete)

lemma map_of_update_same [simp, go_maps]: "map_of (AList.update k v m) k = Some v"
  by (simp add: update_conv')

lemma map_of_update_other [simp, go_maps]:
  "k \<noteq> k' \<Longrightarrow> map_of (AList.update k v m) k' = map_of m k'"
  by (simp add: update_conv')

lemma map_of_delete_same [simp, go_maps]: "map_of (AList.delete k m) k = None"
  by (simp add: delete_conv')

lemma keys_map_of: "k \<in> fst ` set m \<longleftrightarrow> map_of m k \<noteq> None"
  by (simp add: map_of_eq_None_iff)

lemma map_of_ok_iff: "map_ok m \<Longrightarrow> map_of m k = Some v \<longleftrightarrow> (k, v) \<in> set m"
  by (simp add: map_ok_def)

lemma length_update_old: "map_of m k \<noteq> None \<Longrightarrow> length (AList.update k v m) = length m"
  by (induction m) (auto split: if_splits)

lemma length_update_new: "map_of m k = None \<Longrightarrow> length (AList.update k v m) = Suc (length m)"
  by (induction m) (auto split: if_splits)

lemma update_new_append: "map_of m k = None \<Longrightarrow> AList.update k v m = m @ [(k, v)]"
  by (induction m) (auto split: if_splits)

lemma length_delete_old: "map_ok m \<Longrightarrow> map_of m k \<noteq> None \<Longrightarrow> length (AList.delete k m) < length m"
  by (induction m) (auto simp: map_ok_def split: if_splits intro: le_less_trans [OF length_delete_le])

lemma set_update_subset: "set (AList.update k v m) \<subseteq> insert (k, v) (set m)"
  by (induction m) auto

lemma set_delete_subset: "set (AList.delete k m) \<subseteq> set m"
  by (auto simp: AList.delete_eq)

text \<open>An invariant of every entry is kept by the two writes.\<close>

definition map_all :: "('k \<Rightarrow> 'v \<Rightarrow> bool) \<Rightarrow> ('k, 'v) gomap \<Rightarrow> bool" where
  "map_all P m \<longleftrightarrow> (\<forall>(k, v) \<in> set m. P k v)"

lemma map_all_Nil [simp, go_maps]: "map_all P []"
  by (simp add: map_all_def)

lemma map_all_update [go_maps]: "map_all P m \<Longrightarrow> P k v \<Longrightarrow> map_all P (AList.update k v m)"
  using set_update_subset [of k v m] unfolding map_all_def by auto

lemma map_all_delete [go_maps]: "map_all P m \<Longrightarrow> map_all P (AList.delete k m)"
  using set_delete_subset [of k m] unfolding map_all_def by auto

lemma map_all_lookup: "map_all P m \<Longrightarrow> map_of m k = Some v \<Longrightarrow> P k v"
  unfolding map_all_def by (auto dest: map_of_SomeD)

text \<open>\<open>m[k]++\<close> on a map of counters: a missing key reads as 0.\<close>

definition map_incr :: "'k \<Rightarrow> ('k, int) gomap \<Rightarrow> ('k, int) gomap" where
  "map_incr k m = AList.update k ((case map_of m k of None \<Rightarrow> 0 | Some c \<Rightarrow> c) + 1) m"

definition map_get0 :: "('k, int) gomap \<Rightarrow> 'k \<Rightarrow> int" where
  "map_get0 m k = (case map_of m k of None \<Rightarrow> 0 | Some c \<Rightarrow> c)"

lemma map_ok_incr [simp, go_maps]: "map_ok m \<Longrightarrow> map_ok (map_incr k m)"
  by (simp add: map_incr_def)

lemma map_get0_incr [go_maps]:
  "map_get0 (map_incr k m) k' = map_get0 m k' + (if k' = k then 1 else 0)"
  by (auto simp: map_get0_def map_incr_def)

lemma map_get0_fold_incr [go_maps]:
  "map_get0 (fold (\<lambda>x. map_incr (f x)) xs m) k
     = map_get0 m k + int (length (filter (\<lambda>x. f x = k) xs))"
  by (induction xs arbitrary: m) (auto simp: map_get0_incr)

lemma map_ok_fold_incr [go_maps]: "map_ok m \<Longrightarrow> map_ok (fold (\<lambda>x. map_incr (f x)) xs m)"
  by (induction xs arbitrary: m) auto

lemma map_of_fold_incr:
  "map_of (fold (\<lambda>x. map_incr (f x)) xs m) k \<noteq> None \<longleftrightarrow> map_of m k \<noteq> None \<or> k \<in> f ` set xs"
  by (induction xs arbitrary: m) (auto simp: map_incr_def update_conv')


lemma find_set: "List.find P xs = Some x \<Longrightarrow> x \<in> set xs \<and> P x"
  by (auto simp: find_Some_iff)


section \<open>Conversions to words\<close>

lemma uint_of_int_id: "0 \<le> x \<Longrightarrow> x < 2 ^ LENGTH('a) \<Longrightarrow> uint (word_of_int x :: 'a::len word) = x"
  by (simp only: uint_word_of_int mod_pos_pos_trivial)

lemma le_word_of_int: "0 \<le> x \<Longrightarrow> x < 2 ^ LENGTH('a) \<Longrightarrow> word_of_int x \<le> v \<longleftrightarrow> x \<le> uint v"
  for v :: "'a::len word"
  by (simp only: word_le_def uint_of_int_id)

lemma word_of_int_le: "0 \<le> x \<Longrightarrow> x < 2 ^ LENGTH('a) \<Longrightarrow> v \<le> word_of_int x \<longleftrightarrow> uint v \<le> x"
  for v :: "'a::len word"
  by (simp only: word_le_def uint_of_int_id)

lemma word_of_int_eq: "0 \<le> x \<Longrightarrow> x < 2 ^ LENGTH('a) \<Longrightarrow> v = word_of_int x \<longleftrightarrow> uint v = x"
  for v :: "'a::len word"
  by (metis uint_of_int_id word_of_int_uint)

lemma uint_byte_bounds: "0 \<le> uint b" "uint b < 256" for b :: byte
  using uint_bounded [of b] by simp_all


section \<open>Byte slices\<close>

text \<open>\<open>data[a:b]\<close>, and \<open>copy(data[off:], src)\<close>, which copies as many bytes as fit.\<close>

definition slice :: "nat \<Rightarrow> nat \<Rightarrow> 'a list \<Rightarrow> 'a list" where
  "slice a b xs = take (b - a) (drop a xs)"

definition copy_at :: "nat \<Rightarrow> 'a list \<Rightarrow> 'a list \<Rightarrow> 'a list" where
  "copy_at off src dst = take off dst @ take (length dst - off) src @ drop (off + length src) dst"

lemma length_copy_at [simp, go_bytes]: "off \<le> length dst \<Longrightarrow> length (copy_at off src dst) = length dst"
  by (simp add: copy_at_def)

lemma length_slice [simp, go_bytes]: "b \<le> length xs \<Longrightarrow> length (slice a b xs) = b - a"
  by (simp add: slice_def)

text \<open>Writing at an offset that splits the buffer.\<close>

lemma copy_at_append:
  "length xs = off \<Longrightarrow> length src \<le> length ys \<Longrightarrow>
     copy_at off src (xs @ ys) = xs @ src @ drop (length src) ys"
  by (simp add: copy_at_def)

lemma copy_at_same:
  "off + length src \<le> length dst \<Longrightarrow> slice off (off + length src) (copy_at off src dst) = src"
  by (simp add: copy_at_def slice_def)

lemma copy_at_before:
  "b \<le> off \<Longrightarrow> off \<le> length dst \<Longrightarrow> slice a b (copy_at off src dst) = slice a b dst"
proof -
  assume b: "b \<le> off" and l: "off \<le> length dst"
  have "slice a b (copy_at off src dst) = drop a (take b (copy_at off src dst))"
    by (simp add: slice_def drop_take)
  also have "take b (copy_at off src dst) = take b dst"
    using b l by (simp add: copy_at_def min_absorb1)
  finally show ?thesis by (simp add: slice_def drop_take)
qed

lemma copy_at_after:
  "off + length src \<le> a \<Longrightarrow> off + length src \<le> length dst \<Longrightarrow>
     slice a b (copy_at off src dst) = slice a b dst"
proof -
  assume a: "off + length src \<le> a" and l: "off + length src \<le> length dst"
  have "copy_at off src dst = (take off dst @ src) @ drop (off + length src) dst"
    using l by (simp add: copy_at_def)
  then have "drop a (copy_at off src dst) = drop (a - (off + length src)) (drop (off + length src) dst)"
    using a l by (simp only: drop_append) simp
  also have "\<dots> = drop a dst" using a by simp
  finally show ?thesis by (simp add: slice_def)
qed


subsection \<open>encoding/binary\<close>

text \<open>\<open>binary.BigEndian.PutUintN\<close>: the \<open>n\<close> bytes of a word, most significant first;
  \<open>binary.BigEndian.UintN\<close>: the word they denote. The little-endian pair is the reverse.\<close>

definition be_bytes :: "nat \<Rightarrow> 'a::len word \<Rightarrow> byte list" where
  "be_bytes n w = map (\<lambda>i. ucast (drop_bit (8 * (n - 1 - i)) w)) [0..<n]"

definition be_word :: "byte list \<Rightarrow> 'a::len word" where
  "be_word bs = foldl (\<lambda>acc b. push_bit 8 acc OR ucast b) 0 bs"

definition le_bytes :: "nat \<Rightarrow> 'a::len word \<Rightarrow> byte list" where
  "le_bytes n w = rev (be_bytes n w)"

definition le_word :: "byte list \<Rightarrow> 'a::len word" where
  "le_word bs = be_word (rev bs)"

lemma length_be_bytes [simp, go_bytes]: "length (be_bytes n w) = n"
  by (simp add: be_bytes_def)

lemma length_le_bytes [simp, go_bytes]: "length (le_bytes n w) = n"
  by (simp add: le_bytes_def)

lemma be_word_snoc: "be_word (bs @ [b]) = push_bit 8 (be_word bs) OR ucast b"
  by (simp add: be_word_def)

lemma be_bytes_Suc: "be_bytes (Suc n) w = be_bytes n (drop_bit 8 w) @ [ucast w]"
  by (auto simp: be_bytes_def intro!: nth_equalityI simp: nth_append less_Suc_eq algebra_simps)

lemma bit_be_word:
  "bit (be_word bs :: 'a::len word) i \<longleftrightarrow>
     i < LENGTH('a) \<and> i < 8 * length bs \<and> bit (rev bs ! (i div 8)) (i mod 8)"
proof (induction bs arbitrary: i rule: rev_induct)
  case Nil
  then show ?case by (simp add: be_word_def)
next
  case (snoc b bs)
  show ?case
  proof (cases "i < 8")
    case True
    then show ?thesis
      by (auto simp: be_word_snoc bit_or_iff bit_push_bit_iff bit_ucast_iff)
  next
    case False
    then have "i div 8 = Suc ((i - 8) div 8)" and "i mod 8 = (i - 8) mod 8"
      by (simp_all add: le_div_geq le_mod_geq)
    moreover have "\<not> bit b i" using False by (auto dest: bit_imp_le_length)
    ultimately show ?thesis
      using False snoc.IH [of "i - 8"]
      by (auto simp: be_word_snoc bit_or_iff bit_push_bit_iff bit_ucast_iff)
  qed
qed

text \<open>The two round trips: every word comes back, and every byte string comes back.\<close>

lemma be_word_bytes: "LENGTH('a) \<le> 8 * n \<Longrightarrow> be_word (be_bytes n w) = (w :: 'a::len word)"
proof (rule bit_word_eqI)
  fix i assume n: "LENGTH('a) \<le> 8 * n" and i: "i < LENGTH('a)"
  then have d: "i div 8 < n" by auto
  have "rev (be_bytes n w) ! (i div 8) = ucast (drop_bit (8 * (i div 8)) w)"
    using d by (simp add: be_bytes_def rev_nth)
  then show "bit (be_word (be_bytes n w) :: 'a word) i = bit w i"
    using n i by (simp add: bit_be_word bit_ucast_iff bit_drop_bit_eq)
qed

lemma be_bytes_word:
  assumes "8 * length bs \<le> LENGTH('a)"
  shows "be_bytes (length bs) (be_word bs :: 'a::len word) = bs"
proof (rule nth_equalityI)
  fix j assume "j < length (be_bytes (length bs) (be_word bs :: 'a word))"
  then have j: "j < length bs" by simp
  show "be_bytes (length bs) (be_word bs :: 'a word) ! j = bs ! j"
  proof (rule bit_word_eqI)
    fix i assume i: "i < LENGTH(8)"
    let ?k = "length bs - 1 - j"
    have "(8 * ?k + i) div 8 = ?k" and "(8 * ?k + i) mod 8 = i" using i by simp_all
    moreover have "8 * ?k + i < 8 * length bs" using i j by simp
    moreover have "rev bs ! ?k = bs ! j" using j by (simp add: rev_nth)
    ultimately show "bit (be_bytes (length bs) (be_word bs :: 'a word) ! j) i = bit (bs ! j) i"
      using i j assms by (simp add: be_bytes_def bit_ucast_iff bit_drop_bit_eq bit_be_word)
  qed
qed simp

lemma be_word_bytes_16 [simp, go_bytes]: "be_word (be_bytes 2 (w :: u16)) = w"
  and be_word_bytes_32 [simp, go_bytes]: "be_word (be_bytes 4 (v :: u32)) = v"
  and be_word_bytes_64 [simp, go_bytes]: "be_word (be_bytes 8 (u :: u64)) = u"
  by (simp_all add: be_word_bytes)

lemma le_word_bytes_64 [simp, go_bytes]: "le_word (le_bytes 8 (u :: u64)) = u"
  by (simp add: le_word_def le_bytes_def)

end
