(* ===== verification/Go_Strings.thy ===== *)
theory Go_Strings
  imports Prelude
begin

text \<open>
  The string functions of Go's standard library that the suite calls, on ASCII strings:
  the decimal rendering of \<open>%d\<close>, \<open>strconv.Atoi\<close> and \<open>strconv.ParseUint\<close>,
  \<open>strings.TrimSpace\<close>, \<open>strings.Split\<close>, \<open>strings.Join\<close>, and the round trips between them.
\<close>

section \<open>Decimal numbers\<close>

definition digit_char :: "nat \<Rightarrow> char" where
  "digit_char d = char_of (48 + d)"

definition is_digit :: "char \<Rightarrow> bool" where
  "is_digit c \<longleftrightarrow> 48 \<le> (of_char c :: nat) \<and> (of_char c :: nat) \<le> 57"

definition digit_val :: "char \<Rightarrow> nat" where
  "digit_val c = of_char c - 48"

fun nat_dec :: "nat \<Rightarrow> string" where
  "nat_dec n = (if n < 10 then [digit_char n] else nat_dec (n div 10) @ [digit_char (n mod 10)])"

declare nat_dec.simps [simp del]

definition int_dec :: "int \<Rightarrow> string" where
  "int_dec i = (if i < 0 then CHR ''-'' # nat_dec (nat (- i)) else nat_dec (nat i))"

definition dec_val :: "string \<Rightarrow> nat" where
  "dec_val s = foldl (\<lambda>acc c. 10 * acc + digit_val c) 0 s"

lemma of_char_digit_char: "d < 10 \<Longrightarrow> (of_char (digit_char d) :: nat) = 48 + d"
  by (simp add: digit_char_def of_char_of)

lemma is_digit_digit_char [simp]: "d < 10 \<Longrightarrow> is_digit (digit_char d)"
  by (simp add: is_digit_def of_char_digit_char)

lemma digit_val_digit_char [simp]: "d < 10 \<Longrightarrow> digit_val (digit_char d) = d"
  by (simp add: digit_val_def of_char_digit_char)

lemma nat_dec_digits: "\<forall>c \<in> set (nat_dec n). is_digit c"
proof (induction n rule: nat_dec.induct)
  case (1 n)
  then show ?case by (subst nat_dec.simps) auto
qed

lemma nat_dec_nonempty [simp]: "nat_dec n \<noteq> []"
  by (subst nat_dec.simps) simp

lemma dec_val_nat_dec [simp]: "dec_val (nat_dec n) = n"
proof (induction n rule: nat_dec.induct)
  case (1 n)
  show ?case
  proof (cases "n < 10")
    case True
    then show ?thesis by (subst nat_dec.simps) (simp add: dec_val_def)
  next
    case False
    have "dec_val (nat_dec n) = 10 * dec_val (nat_dec (n div 10)) + n mod 10"
      using False by (subst nat_dec.simps) (simp add: dec_val_def)
    also have "\<dots> = 10 * (n div 10) + n mod 10" using "1" False by simp
    finally show ?thesis by simp
  qed
qed

lemma nat_dec_inject [simp]: "nat_dec a = nat_dec b \<longleftrightarrow> a = b"
  by (metis dec_val_nat_dec)

lemma nat_dec_not_in: "\<not> is_digit c \<Longrightarrow> c \<notin> set (nat_dec n)"
  using nat_dec_digits by blast

lemma not_digit_simps [simp]:
  "\<not> is_digit CHR '' ''" "\<not> is_digit CHR '',''" "\<not> is_digit CHR ''-''" "\<not> is_digit CHR ''+''"
  "\<not> is_digit CHR ''.''" "\<not> is_digit CHR ''#''" "\<not> is_digit CHR ''|''"
  by (simp_all add: is_digit_def)

text \<open>\<open>strconv.Atoi\<close>: an optional sign and at least one digit, a syntax error otherwise; a value
  outside \<open>int64\<close> is a range error. \<open>strconv.ParseUint(s, 10, 32)\<close> takes no sign.\<close>

datatype num_error = ErrSyntax | ErrRange

definition all_digits :: "string \<Rightarrow> bool" where
  "all_digits s \<longleftrightarrow> s \<noteq> [] \<and> (\<forall>c \<in> set s. is_digit c)"

definition Atoi :: "string \<Rightarrow> num_error + int" where
  "Atoi s =
     (let neg = (s \<noteq> [] \<and> hd s = CHR ''-'');
          body = (if s \<noteq> [] \<and> (hd s = CHR ''-'' \<or> hd s = CHR ''+'') then tl s else s)
      in if \<not> all_digits body then Inl ErrSyntax
         else let v = (if neg then - int (dec_val body) else int (dec_val body))
              in if in_i64 v then Inr v else Inl ErrRange)"

definition ParseUint32 :: "string \<Rightarrow> num_error + u32" where
  "ParseUint32 s =
     (if \<not> all_digits s then Inl ErrSyntax
      else if dec_val s < 2 ^ 32 then Inr (of_nat (dec_val s)) else Inl ErrRange)"

lemma all_digits_nat_dec [simp]: "all_digits (nat_dec n)"
  by (simp add: all_digits_def nat_dec_digits)

lemma hd_nat_dec_digit: "is_digit (hd (nat_dec n))"
  using nat_dec_digits [of n] hd_in_set [OF nat_dec_nonempty [of n]] by blast

lemma hd_nat_dec_sign [simp]: "hd (nat_dec n) \<noteq> CHR ''-''" "hd (nat_dec n) \<noteq> CHR ''+''"
  using hd_nat_dec_digit [of n] by (auto simp: is_digit_def)

lemma Atoi_nat_dec: "int n < 2 ^ 63 \<Longrightarrow> Atoi (nat_dec n) = Inr (int n)"
  by (simp add: Atoi_def in_i64_def Let_def)

lemma ParseUint32_nat_dec: "n < 2 ^ 32 \<Longrightarrow> ParseUint32 (nat_dec n) = Inr (of_nat n)"
  by (simp add: ParseUint32_def)


section \<open>Splitting and trimming\<close>

definition is_space :: "char \<Rightarrow> bool" where
  "is_space c \<longleftrightarrow> (of_char c :: nat) \<in> {9, 10, 11, 12, 13, 32}"

definition TrimSpace :: "string \<Rightarrow> string" where
  "TrimSpace s = rev (dropWhile is_space (rev (dropWhile is_space s)))"

fun Split :: "char \<Rightarrow> string \<Rightarrow> string list" where
  "Split sep [] = [[]]"
| "Split sep (c # cs) =
     (if c = sep then [] # Split sep cs
      else (case Split sep cs of [] \<Rightarrow> [[c]] | p # ps \<Rightarrow> (c # p) # ps))"

fun Join :: "string \<Rightarrow> string list \<Rightarrow> string" where
  "Join sep [] = []"
| "Join sep [p] = p"
| "Join sep (p # q # ps) = p @ sep @ Join sep (q # ps)"

definition IndexByte :: "char \<Rightarrow> string \<Rightarrow> nat option" where
  "IndexByte c s = (if c \<in> set s then Some (length (takeWhile (\<lambda>x. x \<noteq> c) s)) else None)"

lemma Split_nonempty [simp]: "Split sep s \<noteq> []"
  by (induction s) (auto split: list.splits)

lemma Split_nosep: "sep \<notin> set s \<Longrightarrow> Split sep s = [s]"
  by (induction s) auto

lemma Split_append_sep: "sep \<notin> set s \<Longrightarrow> Split sep (s @ sep # t) = s # Split sep t"
  by (induction s) auto

lemma Join_Split: "Join [sep] (Split sep s) = s"
proof (induction s)
  case (Cons c cs)
  then show ?case
    by (cases "Split sep cs" rule: list.exhaust; cases "tl (Split sep cs)")
       (auto split: list.splits)
qed simp

lemma Split_Join: "ps \<noteq> [] \<Longrightarrow> \<forall>p \<in> set ps. sep \<notin> set p \<Longrightarrow> Split sep (Join [sep] ps) = ps"
  by (induction "[sep]" ps rule: Join.induct) (auto simp: Split_nosep Split_append_sep)

lemma Split_parts: "p \<in> set (Split sep s) \<Longrightarrow> sep \<notin> set p"
  by (induction s arbitrary: p) (auto split: if_splits list.splits)

lemma TrimSpace_id: "\<forall>c \<in> set s. \<not> is_space c \<Longrightarrow> TrimSpace s = s"
  by (simp add: TrimSpace_def dropWhile_eq_self_iff hd_rev)
     (metis Nil_is_rev_conv dropWhile_eq_self_iff hd_in_set rev_rev_ident set_rev)

lemma dropWhile_hd: "dropWhile P s = [] \<or> \<not> P (hd (dropWhile P s))"
  using hd_dropWhile by blast

lemma is_digit_not_space: "is_digit c \<Longrightarrow> \<not> is_space c"
  by (auto simp: is_digit_def is_space_def)

lemma TrimSpace_nat_dec [simp]: "TrimSpace (nat_dec n) = nat_dec n"
  by (rule TrimSpace_id) (metis nat_dec_digits is_digit_not_space)

lemma TrimSpace_set: "set (TrimSpace s) \<subseteq> set s"
  by (metis TrimSpace_def set_dropWhileD set_rev subsetI)

end
