(* ===== verification/Stat_Ports.thy ===== *)
theory Stat_Ports
  imports Go_Strings
begin

text \<open>
  The port odometer of \<open>stat/stat.go\<close> (\<open>PortRange\<close>, \<open>GetNextPorts\<close>), the single-port
  variant of \<open>evr/config\<close> and the packing of a port pair into one atomic word
  (\<open>packPorts\<close>, \<open>unpackPorts\<close>). The odometer is shown to be the successor on
  \<open>{0..<|C| * |S|}\<close>: it stays inside the two ranges, and \<open>n\<close> steps are one addition
  modulo the number of port pairs, so a full turn visits every pair exactly once.
\<close>

section \<open>Port ranges and the odometer\<close>

record PortRange =
  pr_Min :: int
  pr_Max :: int

text \<open>\<open>uint16(x)\<close> of a Go \<open>int\<close>: the low 16 bits.\<close>

definition u16_of_int :: "int \<Rightarrow> u16" where
  "u16_of_int x = word_of_int x"

definition GetNextPorts :: "u16 \<Rightarrow> u16 \<Rightarrow> PortRange \<Rightarrow> PortRange \<Rightarrow> u16 \<times> u16" where
  "GetNextPorts clientPort serverPort clientPortRange serverPortRange =
     (let serverPort = serverPort + 1;
          (clientPort, serverPort) =
            (if serverPort > u16_of_int (pr_Max serverPortRange)
             then (clientPort + 1, u16_of_int (pr_Min serverPortRange))
             else (clientPort, serverPort));
          clientPort =
            (if clientPort > u16_of_int (pr_Max clientPortRange)
             then u16_of_int (pr_Min clientPortRange) else clientPort)
      in (clientPort, serverPort))"

text \<open>The same function is written out again in \<open>sonar/config\<close>, \<open>sonar6/config\<close> and
  \<open>kuiniu/config\<close>; \<open>evr/config\<close> has the one-dimensional variant.\<close>

definition GetNextPorts_sonar :: "u16 \<Rightarrow> u16 \<Rightarrow> PortRange \<Rightarrow> PortRange \<Rightarrow> u16 \<times> u16" where
  "GetNextPorts_sonar clientPort serverPort clientPortRange serverPortRange =
     (let serverPort = serverPort + 1;
          (clientPort, serverPort) =
            (if serverPort > u16_of_int (pr_Max serverPortRange)
             then (clientPort + 1, u16_of_int (pr_Min serverPortRange))
             else (clientPort, serverPort))
      in (if clientPort > u16_of_int (pr_Max clientPortRange)
          then u16_of_int (pr_Min clientPortRange) else clientPort, serverPort))"

definition GetNextPorts_sonar6 :: "u16 \<Rightarrow> u16 \<Rightarrow> PortRange \<Rightarrow> PortRange \<Rightarrow> u16 \<times> u16" where
  "GetNextPorts_sonar6 clientPort serverPort clientPortRange serverPortRange =
     (let serverPort = serverPort + 1;
          (clientPort, serverPort) =
            (if serverPort > u16_of_int (pr_Max serverPortRange)
             then (clientPort + 1, u16_of_int (pr_Min serverPortRange))
             else (clientPort, serverPort))
      in (if clientPort > u16_of_int (pr_Max clientPortRange)
          then u16_of_int (pr_Min clientPortRange) else clientPort, serverPort))"

definition GetNextPorts_kuiniu :: "u16 \<Rightarrow> u16 \<Rightarrow> PortRange \<Rightarrow> PortRange \<Rightarrow> u16 \<times> u16" where
  "GetNextPorts_kuiniu clientPort serverPort clientPortRange serverPortRange =
     (let serverPort = serverPort + 1;
          (clientPort, serverPort) =
            (if serverPort > u16_of_int (pr_Max serverPortRange)
             then (clientPort + 1, u16_of_int (pr_Min serverPortRange))
             else (clientPort, serverPort))
      in (if clientPort > u16_of_int (pr_Max clientPortRange)
          then u16_of_int (pr_Min clientPortRange) else clientPort, serverPort))"

definition GetNextPort :: "u16 \<Rightarrow> PortRange \<Rightarrow> u16" where
  "GetNextPort port pr =
     (let port = port + 1
      in if port > u16_of_int (pr_Max pr) \<or> port < u16_of_int (pr_Min pr)
         then u16_of_int (pr_Min pr) else port)"

text \<open>The clients keep the current pair in one 32-bit atomic.\<close>

definition packPorts :: "u16 \<Rightarrow> u16 \<Rightarrow> u32" where
  "packPorts local server = push_bit 16 (ucast local) OR ucast server"

definition unpackPorts :: "u32 \<Rightarrow> u16 \<times> u16" where
  "unpackPorts v = (ucast (drop_bit 16 v), ucast v)"


section \<open>The odometer as a successor function\<close>

definition range_ok :: "PortRange \<Rightarrow> bool" where
  "range_ok pr \<longleftrightarrow> 0 \<le> pr_Min pr \<and> pr_Min pr \<le> pr_Max pr \<and> pr_Max pr < 65535"

definition in_range :: "u16 \<Rightarrow> PortRange \<Rightarrow> bool" where
  "in_range p pr \<longleftrightarrow> pr_Min pr \<le> uint p \<and> uint p \<le> pr_Max pr"

definition range_size :: "PortRange \<Rightarrow> int" where
  "range_size pr = pr_Max pr - pr_Min pr + 1"

text \<open>The position of a pair in the odometer's order, and the pair at a position.\<close>

definition port_index :: "PortRange \<Rightarrow> PortRange \<Rightarrow> u16 \<times> u16 \<Rightarrow> int" where
  "port_index cr sr p =
     (uint (fst p) - pr_Min cr) * range_size sr + (uint (snd p) - pr_Min sr)"

definition port_count :: "PortRange \<Rightarrow> PortRange \<Rightarrow> int" where
  "port_count cr sr = range_size cr * range_size sr"

definition pair_ok :: "PortRange \<Rightarrow> PortRange \<Rightarrow> u16 \<times> u16 \<Rightarrow> bool" where
  "pair_ok cr sr p \<longleftrightarrow> in_range (fst p) cr \<and> in_range (snd p) sr"

lemma range_size_pos: "range_ok pr \<Longrightarrow> 0 < range_size pr"
  by (simp add: range_ok_def range_size_def)

lemma uint_u16_of_int: "0 \<le> x \<Longrightarrow> x < 65536 \<Longrightarrow> uint (u16_of_int x) = x"
  by (simp add: u16_of_int_def uint_word_of_int)

lemma uint_succ_u16: "uint p < 65535 \<Longrightarrow> uint (p + 1) = uint p + 1" for p :: u16
  by (simp add: uint_word_ariths)

lemma less_u16_of_int: "0 \<le> x \<Longrightarrow> x < 65536 \<Longrightarrow> u16_of_int x < p \<longleftrightarrow> x < uint p"
  by (simp add: word_less_def uint_u16_of_int)

text \<open>One step, branch by branch, on the unsigned values.\<close>

lemma GetNextPorts_values:
  assumes "range_ok cr" "range_ok sr" "in_range c cr" "in_range s sr"
  shows "GetNextPorts c s cr sr =
     (if uint s < pr_Max sr then (c, s + 1)
      else if uint c < pr_Max cr then (c + 1, u16_of_int (pr_Min sr))
      else (u16_of_int (pr_Min cr), u16_of_int (pr_Min sr)))"
  using assms unfolding GetNextPorts_def range_ok_def in_range_def
  by (auto simp: Let_def less_u16_of_int uint_succ_u16)

lemma in_range_min: "range_ok pr \<Longrightarrow> in_range (u16_of_int (pr_Min pr)) pr"
  by (simp add: in_range_def range_ok_def uint_u16_of_int)

lemma in_range_succ: "range_ok pr \<Longrightarrow> in_range p pr \<Longrightarrow> uint p < pr_Max pr \<Longrightarrow> in_range (p + 1) pr"
  by (simp add: in_range_def range_ok_def uint_succ_u16)

lemma GetNextPorts_in_range:
  assumes "range_ok cr" "range_ok sr" "pair_ok cr sr (c, s)"
  shows "pair_ok cr sr (GetNextPorts c s cr sr)"
  using assms by (auto simp: pair_ok_def GetNextPorts_values in_range_min in_range_succ)

lemma port_index_bounds:
  assumes "range_ok cr" "range_ok sr" "pair_ok cr sr p"
  shows "0 \<le> port_index cr sr p" and "port_index cr sr p < port_count cr sr"
proof -
  let ?a = "uint (fst p) - pr_Min cr" and ?b = "uint (snd p) - pr_Min sr"
  have a: "0 \<le> ?a" "?a \<le> range_size cr - 1" and b: "0 \<le> ?b" "?b < range_size sr"
    using assms by (simp_all add: pair_ok_def in_range_def range_size_def)
  have s: "0 < range_size sr" using assms(2) by (rule range_size_pos)
  show "0 \<le> port_index cr sr p" using a b s by (simp add: port_index_def)
  have "?a * range_size sr \<le> (range_size cr - 1) * range_size sr"
    using a s by (intro mult_right_mono) auto
  then show "port_index cr sr p < port_count cr sr"
    using b by (simp add: port_index_def port_count_def left_diff_distrib)
qed

lemma port_index_inject:
  assumes "range_ok cr" "range_ok sr" "pair_ok cr sr p" "pair_ok cr sr q"
    and "port_index cr sr p = port_index cr sr q"
  shows "p = q"
proof -
  let ?n = "range_size sr"
  have split: "port_index cr sr r div ?n = uint (fst r) - pr_Min cr \<and>
      port_index cr sr r mod ?n = uint (snd r) - pr_Min sr" if "pair_ok cr sr r" for r
    using that assms(2) by (simp add: port_index_def pair_ok_def in_range_def range_size_def range_ok_def)
  have "uint (fst p) = uint (fst q)" "uint (snd p) = uint (snd q)"
    using split [OF assms(3)] split [OF assms(4)] assms(5) by auto
  then show ?thesis by (simp add: prod_eq_iff word_uint_eq_iff)
qed

lemma GetNextPorts_index:
  assumes cr: "range_ok cr" and sr: "range_ok sr" and p: "pair_ok cr sr (c, s)"
  shows "port_index cr sr (GetNextPorts c s cr sr) =
         (port_index cr sr (c, s) + 1) mod port_count cr sr"
proof -
  have v: "GetNextPorts c s cr sr =
     (if uint s < pr_Max sr then (c, s + 1)
      else if uint c < pr_Max cr then (c + 1, u16_of_int (pr_Min sr))
      else (u16_of_int (pr_Min cr), u16_of_int (pr_Min sr)))"
    using cr sr p by (simp add: pair_ok_def GetNextPorts_values)
  have bounds: "0 \<le> port_index cr sr (GetNextPorts c s cr sr)"
    "port_index cr sr (GetNextPorts c s cr sr) < port_count cr sr"
    using port_index_bounds [OF cr sr GetNextPorts_in_range [OF cr sr p]] by auto
  consider (s) "uint s < pr_Max sr" | (c) "uint s = pr_Max sr" "uint c < pr_Max cr"
    | (w) "uint s = pr_Max sr" "uint c = pr_Max cr"
    using p unfolding pair_ok_def in_range_def fst_conv snd_conv by linarith
  then show ?thesis
  proof cases
    case s
    then have "port_index cr sr (GetNextPorts c s cr sr) = port_index cr sr (c, s) + 1"
      using sr by (simp add: v port_index_def uint_succ_u16 range_ok_def)
    then show ?thesis using bounds by (simp add: mod_pos_pos_trivial)
  next
    case c
    then have "uint (c + 1) = uint c + 1" using cr by (simp add: uint_succ_u16 range_ok_def)
    with c have "port_index cr sr (GetNextPorts c s cr sr) = port_index cr sr (c, s) + 1"
      using sr by (simp add: v port_index_def uint_u16_of_int range_ok_def range_size_def)
        (simp add: algebra_simps)
    then show ?thesis using bounds by (simp add: mod_pos_pos_trivial)
  next
    case w
    then have "port_index cr sr (c, s) + 1 = port_count cr sr"
      by (simp add: port_index_def port_count_def range_size_def algebra_simps)
    moreover have "port_index cr sr (GetNextPorts c s cr sr) = 0"
      using w cr sr by (simp add: v port_index_def uint_u16_of_int range_ok_def)
    ultimately show ?thesis by simp
  qed
qed



section \<open>Runs of the odometer\<close>

definition next_pair :: "PortRange \<Rightarrow> PortRange \<Rightarrow> u16 \<times> u16 \<Rightarrow> u16 \<times> u16" where
  "next_pair cr sr p = GetNextPorts (fst p) (snd p) cr sr"

lemma pair_ok_iterate:
  "range_ok cr \<Longrightarrow> range_ok sr \<Longrightarrow> pair_ok cr sr p \<Longrightarrow> pair_ok cr sr ((next_pair cr sr ^^ n) p)"
  by (induction n) (auto simp: next_pair_def intro: GetNextPorts_in_range)

lemma port_index_iterate:
  assumes "range_ok cr" "range_ok sr" "pair_ok cr sr p"
  shows "port_index cr sr ((next_pair cr sr ^^ n) p) =
         (port_index cr sr p + int n) mod port_count cr sr"
proof (induction n)
  case 0
  then show ?case using port_index_bounds [OF assms] by (simp add: mod_pos_pos_trivial)
next
  case (Suc n)
  have "pair_ok cr sr ((next_pair cr sr ^^ n) p)" using assms by (rule pair_ok_iterate)
  then have "port_index cr sr ((next_pair cr sr ^^ Suc n) p) =
      (port_index cr sr ((next_pair cr sr ^^ n) p) + 1) mod port_count cr sr"
    using GetNextPorts_index [OF assms(1,2)] by (simp add: next_pair_def)
  then show ?case using Suc by (simp add: mod_simps algebra_simps)
qed

text \<open>Two runs from the same pair meet exactly when their lengths agree modulo the number of
  pairs.\<close>

lemma iterate_eq_iff:
  assumes "range_ok cr" "range_ok sr" "pair_ok cr sr p"
  shows "(next_pair cr sr ^^ m) p = (next_pair cr sr ^^ n) p \<longleftrightarrow>
         int m mod port_count cr sr = int n mod port_count cr sr" (is "?l \<longleftrightarrow> ?r")
proof -
  let ?N = "port_count cr sr" and ?i = "port_index cr sr p"
  have "?l \<longleftrightarrow> port_index cr sr ((next_pair cr sr ^^ m) p) = port_index cr sr ((next_pair cr sr ^^ n) p)"
    using assms port_index_inject pair_ok_iterate by metis
  also have "\<dots> \<longleftrightarrow> (?i + int m) mod ?N = (?i + int n) mod ?N"
    using assms by (simp add: port_index_iterate)
  also have "\<dots> \<longleftrightarrow> ?r" by (simp add: mod_eq_dvd_iff)
  finally show ?thesis .
qed

lemma port_count_pos: "range_ok cr \<Longrightarrow> range_ok sr \<Longrightarrow> 0 < port_count cr sr"
  by (simp add: port_count_def range_size_pos)

text \<open>The pairs a sender uses for \<open>n\<close> consecutive probes, the first of which is \<open>p\<close>.\<close>

definition port_run :: "PortRange \<Rightarrow> PortRange \<Rightarrow> u16 \<times> u16 \<Rightarrow> nat \<Rightarrow> (u16 \<times> u16) list" where
  "port_run cr sr p n = map (\<lambda>i. (next_pair cr sr ^^ i) p) [0..<n]"

lemma length_port_run [simp]: "length (port_run cr sr p n) = n"
  by (simp add: port_run_def)

lemma distinct_port_run:
  assumes "range_ok cr" "range_ok sr" "pair_ok cr sr p" "int n \<le> port_count cr sr"
  shows "distinct (port_run cr sr p n)"
proof -
  have "inj_on (\<lambda>i. (next_pair cr sr ^^ i) p) (set [0..<n])"
    using assms by (intro inj_onI) (simp add: iterate_eq_iff)
  then show ?thesis by (simp add: port_run_def distinct_map)
qed

lemma card_pairs:
  assumes "range_ok cr" "range_ok sr"
  shows "finite {q. pair_ok cr sr q}" and "int (card {q. pair_ok cr sr q}) \<le> port_count cr sr"
proof -
  have inj: "inj_on (port_index cr sr) {q. pair_ok cr sr q}"
    using assms port_index_inject by (intro inj_onI) blast
  have sub: "port_index cr sr ` {q. pair_ok cr sr q} \<subseteq> {0..<port_count cr sr}"
    using port_index_bounds assms by auto
  show fin: "finite {q. pair_ok cr sr q}"
    using finite_subset [OF sub] inj finite_imageD by blast
  have "card {q. pair_ok cr sr q} = card (port_index cr sr ` {q. pair_ok cr sr q})"
    by (simp add: card_image [OF inj])
  also have "\<dots> \<le> card {0..<port_count cr sr}" by (rule card_mono [OF _ sub]) simp
  finally show "int (card {q. pair_ok cr sr q}) \<le> port_count cr sr"
    using port_count_pos [OF assms] by simp
qed

text \<open>C10. A full turn of the odometer visits every port pair of the two ranges exactly once: for
  valid ranges whose upper end is below 65535, \<open>|C| * |S|\<close> consecutive probes from any pair use
  pairwise distinct pairs, and together all of them.\<close>

theorem full_turn_covers:
  assumes "range_ok cr" "range_ok sr" "pair_ok cr sr p"
  shows "distinct (port_run cr sr p (nat (port_count cr sr))) \<and>
         set (port_run cr sr p (nat (port_count cr sr))) = {q. pair_ok cr sr q}"
proof
  let ?n = "nat (port_count cr sr)"
  show d: "distinct (port_run cr sr p ?n)"
    using assms port_count_pos [OF assms(1,2)] by (simp add: distinct_port_run)
  have sub: "set (port_run cr sr p ?n) \<subseteq> {q. pair_ok cr sr q}"
    using pair_ok_iterate [OF assms] by (auto simp: port_run_def)
  have "card (set (port_run cr sr p ?n)) = ?n" using d by (simp add: distinct_card)
  then show "set (port_run cr sr p ?n) = {q. pair_ok cr sr q}"
    using card_pairs [OF assms(1,2)] sub by (intro card_seteq) auto
qed


theorem full_turn_covers_witness:
  "set (port_run \<lparr>pr_Min = 43500, pr_Max = 43599\<rparr> \<lparr>pr_Min = 43500, pr_Max = 43509\<rparr>
      (43500, 43500) 1000)
   = {q. pair_ok \<lparr>pr_Min = 43500, pr_Max = 43599\<rparr> \<lparr>pr_Min = 43500, pr_Max = 43509\<rparr> q}"
  using full_turn_covers [of "\<lparr>pr_Min = 43500, pr_Max = 43599\<rparr>" "\<lparr>pr_Min = 43500, pr_Max = 43509\<rparr>"
      "(43500, 43500)"]
  by (simp add: range_ok_def pair_ok_def in_range_def port_count_def range_size_def)

text \<open>\<open>ParsePortRange\<close> accepts an upper end of 65535, but there the odometer leaves the range:
  the increment wraps to 0 before the comparison, so from the last server port the next pair has
  server port 0 and an unchanged client port, whatever the lower end is.\<close>

theorem GetNextPorts_wraps_at_65535:
  assumes "pr_Max sr = 65535" "pr_Max cr = 65535"
  shows "GetNextPorts c 65535 cr sr = (c, 0) \<and> GetNextPorts_sonar c 65535 cr sr = (c, 0)
       \<and> GetNextPorts_sonar6 c 65535 cr sr = (c, 0) \<and> GetNextPorts_kuiniu c 65535 cr sr = (c, 0)"
proof -
  have m: "\<not> u16_of_int 65535 < c" for c
    using uint_bounded [of c] by (simp add: u16_of_int_def word_less_def)
  have z: "\<not> u16_of_int 65535 < 0" by (simp add: u16_of_int_def)
  have w: "(65535 :: u16) + 1 = 0" by simp
  show ?thesis
    unfolding GetNextPorts_def GetNextPorts_sonar_def GetNextPorts_sonar6_def
      GetNextPorts_kuiniu_def Let_def assms w
    using m [of c] z by simp
qed

theorem GetNextPorts_wraps_at_65535_witness:
  "GetNextPorts 60000 65535 \<lparr>pr_Min = 60000, pr_Max = 65535\<rparr> \<lparr>pr_Min = 65530, pr_Max = 65535\<rparr>
     = (60000, 0)
   \<and> \<not> in_range 0 \<lparr>pr_Min = 65530, pr_Max = 65535\<rparr>"
  using GetNextPorts_wraps_at_65535 [of "\<lparr>pr_Min = 65530, pr_Max = 65535\<rparr>"
      "\<lparr>pr_Min = 60000, pr_Max = 65535\<rparr>" 60000]
  by (simp add: in_range_def)

text \<open>The single-port odometer of the EVR agent has the second comparison the others lack: on
  every valid range, 65535 included, it stays in the range, and it is the successor with wrap.\<close>

theorem GetNextPort_total:
  assumes "0 \<le> pr_Min pr" "pr_Min pr \<le> pr_Max pr" "pr_Max pr \<le> 65535" "in_range p pr"
  shows "in_range (GetNextPort p pr) pr \<and>
         uint (GetNextPort p pr) = (if uint p = pr_Max pr then pr_Min pr else uint p + 1)"
proof (cases "uint p = pr_Max pr")
  case True
  have "uint (p + 1) = (if uint p = 65535 then 0 else uint p + 1)"
    using uint_bounded [of p] by (auto simp: uint_word_ariths)
  then have "p + 1 > u16_of_int (pr_Max pr) \<or> p + 1 < u16_of_int (pr_Min pr) \<or> p + 1 = u16_of_int (pr_Min pr)"
    using True assms by (auto simp: word_less_def word_uint_eq_iff uint_u16_of_int)
  then have "GetNextPort p pr = u16_of_int (pr_Min pr)"
    by (auto simp: GetNextPort_def Let_def)
  then show ?thesis using True assms by (simp add: in_range_def uint_u16_of_int)
next
  case False
  then have "uint p < 65535" using assms by (simp add: in_range_def)
  then have u: "uint (p + 1) = uint p + 1" by (rule uint_succ_u16)
  have "GetNextPort p pr = p + 1"
    using False assms u by (auto simp: GetNextPort_def Let_def word_less_def uint_u16_of_int in_range_def)
  then show ?thesis using False assms u by (simp add: in_range_def)
qed

theorem GetNextPort_total_witness:
  "uint (GetNextPort 65535 \<lparr>pr_Min = 65534, pr_Max = 65535\<rparr>) = 65534"
  using GetNextPort_total [of "\<lparr>pr_Min = 65534, pr_Max = 65535\<rparr>" 65535] by (simp add: in_range_def)

lemma unpack_packPorts [simp]: "unpackPorts (packPorts l s) = (l, s)"
proof -
  have "ucast (drop_bit 16 (packPorts l s)) = l" "ucast (packPorts l s) = s"
    by (rule bit_word_eqI;
        auto simp: packPorts_def bit_simps dest: bit_imp_le_length)+
  then show ?thesis by (simp add: unpackPorts_def)
qed

lemma pack_unpackPorts: "(case unpackPorts v of (l', s') \<Rightarrow> packPorts l' s') = v"
proof -
  have "packPorts (ucast (drop_bit 16 v)) (ucast v) = v"
    by (rule bit_word_eqI) (auto simp: packPorts_def bit_simps)
  then show ?thesis by (simp add: unpackPorts_def)
qed

text \<open>Packing a port pair into the atomic word and unpacking it gives the pair back, and every
  32-bit word is the packing of what it unpacks to: the two functions are inverse bijections.\<close>

theorem pack_unpack_ports:
  "unpackPorts (packPorts l s) = (l, s) \<and> (case unpackPorts v of (l', s') \<Rightarrow> packPorts l' s') = v"
  by (simp add: pack_unpackPorts)

text \<open>The four copies of the odometer agree.\<close>

lemma GetNextPorts_copies:
  "GetNextPorts_sonar = GetNextPorts" "GetNextPorts_sonar6 = GetNextPorts"
  "GetNextPorts_kuiniu = GetNextPorts"
  by (intro ext; simp add: GetNextPorts_sonar_def GetNextPorts_sonar6_def GetNextPorts_kuiniu_def
      GetNextPorts_def Let_def split: prod.splits)+

end
