(* ===== verification/Stat_Bucket.thy ===== *)
theory Stat_Bucket
  imports Stat_Ports
begin

text \<open>
  The time-bucketed probe records of \<open>stat/bucket.go\<close>. A \<open>request\<close> is one probe, a
  \<open>bucket\<close> the probes of one span, \<open>buckets\<close> the buckets by number together with the
  cached number of the oldest one. Every method is one function on these records; a method that
  divides by the span returns \<open>None\<close> where Go panics on a zero span. The methods are sequential
  state transformers: the critical sections of one call run without another call between them.
\<close>

section \<open>Data\<close>

definition rttUnset :: int where
  "rttUnset = -1"

record request =
  r_clientPort :: u16
  r_serverPort :: u16
  r_seq :: u64
  r_ts :: int
  r_rtt :: int
  r_hasBitflip :: bool
  r_isRst :: bool

record bucket =
  b_id :: int
  b_startNano :: int
  b_packetCount :: u32
  b_packetCountFixed :: bool
  b_startSrcPort :: u16
  b_startDstPort :: u16
  b_fixed :: bool
  b_serverSide :: bool
  b_requests :: "(u64, request) gomap"

record buckets =
  bs_buckets :: "(int, bucket) gomap"
  bs_rateInSpan :: int
  bs_span :: int
  bs_minID :: int
  bs_serverSide :: bool

text \<open>The zero value of \<open>request\<close>, which composite literals start from.\<close>

definition request0 :: request where
  "request0 = \<lparr>r_clientPort = 0, r_serverPort = 0, r_seq = 0, r_ts = 0, r_rtt = 0,
     r_hasBitflip = False, r_isRst = False\<rparr>"

definition newBuckets :: "int \<Rightarrow> int \<Rightarrow> bool \<Rightarrow> buckets" where
  "newBuckets spn rateInSpan serverSide =
     \<lparr>bs_buckets = [], bs_rateInSpan = rateInSpan, bs_span = spn, bs_minID = -1,
      bs_serverSide = serverSide\<rparr>"

definition newBucket :: "int \<Rightarrow> int \<Rightarrow> int \<Rightarrow> bool \<Rightarrow> bucket" where
  "newBucket bid spn rateInSpan serverSide =
     \<lparr>b_id = bid, b_startNano = i64 (bid * spn),
      b_packetCount = word_of_int rateInSpan, b_packetCountFixed = False,
      b_startSrcPort = 0, b_startDstPort = 0, b_fixed = False, b_serverSide = serverSide,
      b_requests = []\<rparr>"


section \<open>Operations of one bucket\<close>

definition bucket_put :: "u16 \<Rightarrow> u16 \<Rightarrow> u64 \<Rightarrow> int \<Rightarrow> bucket \<Rightarrow> bucket" where
  "bucket_put clientPort serverPort seq ts b =
     (case map_of (b_requests b) seq of
        Some r \<Rightarrow>
          b\<lparr>b_requests := AList.update seq
              (r\<lparr>r_clientPort := clientPort, r_serverPort := serverPort, r_ts := ts\<rparr>) (b_requests b)\<rparr>
      | None \<Rightarrow>
          b\<lparr>b_requests := AList.update seq
              (request0\<lparr>r_clientPort := clientPort, r_serverPort := serverPort, r_seq := seq,
                 r_ts := ts, r_rtt := rttUnset\<rparr>) (b_requests b)\<rparr>)"

definition bucket_delete :: "u64 \<Rightarrow> bucket \<Rightarrow> bucket" where
  "bucket_delete seq b = b\<lparr>b_requests := AList.delete seq (b_requests b)\<rparr>"

definition bucket_updateReceived :: "u64 \<Rightarrow> int \<Rightarrow> bool \<Rightarrow> bucket \<Rightarrow> bucket \<times> bool" where
  "bucket_updateReceived seq rtt hasBitflip b =
     (case map_of (b_requests b) seq of
        Some r \<Rightarrow>
          (b\<lparr>b_requests := AList.update seq (r\<lparr>r_rtt := rtt, r_hasBitflip := hasBitflip\<rparr>)
              (b_requests b)\<rparr>, True)
      | None \<Rightarrow> (b, False))"

definition bucket_received :: "u64 \<Rightarrow> int \<Rightarrow> bool \<Rightarrow> bucket \<Rightarrow> bucket" where
  "bucket_received seq rtt hasBitflip b =
     (case map_of (b_requests b) seq of
        Some r \<Rightarrow>
          b\<lparr>b_requests := AList.update seq (r\<lparr>r_rtt := rtt, r_hasBitflip := hasBitflip\<rparr>)
              (b_requests b)\<rparr>
      | None \<Rightarrow>
          b\<lparr>b_requests := AList.update seq
              (request0\<lparr>r_seq := seq, r_rtt := rtt, r_hasBitflip := hasBitflip\<rparr>) (b_requests b)\<rparr>)"

definition bucket_updateReceivedRST :: "u64 \<Rightarrow> int \<Rightarrow> bucket \<Rightarrow> bucket \<times> bool" where
  "bucket_updateReceivedRST seq rtt b =
     (case map_of (b_requests b) seq of
        Some r \<Rightarrow>
          (b\<lparr>b_requests := AList.update seq (r\<lparr>r_rtt := rtt, r_isRst := True\<rparr>) (b_requests b)\<rparr>, True)
      | None \<Rightarrow> (b, False))"

definition bucket_receivedRST :: "u64 \<Rightarrow> int \<Rightarrow> bucket \<Rightarrow> bucket" where
  "bucket_receivedRST seq rtt b =
     (case map_of (b_requests b) seq of
        Some r \<Rightarrow>
          b\<lparr>b_requests := AList.update seq (r\<lparr>r_rtt := rtt, r_isRst := True\<rparr>) (b_requests b)\<rparr>
      | None \<Rightarrow>
          b\<lparr>b_requests := AList.update seq (request0\<lparr>r_seq := seq, r_rtt := rtt, r_isRst := True\<rparr>)
              (b_requests b)\<rparr>)"


section \<open>Operations of the collection\<close>

text \<open>\<open>ts / int64(bs.span)\<close>: division by zero panics.\<close>

definition bucketID :: "buckets \<Rightarrow> int \<Rightarrow> int option" where
  "bucketID bs ts = (if bs_span bs = 0 then None else Some (i64 (ts sdiv bs_span bs)))"

text \<open>The find-or-create block that \<open>put\<close>, \<open>received\<close>, \<open>receivedRST\<close> and \<open>receivedAndFix\<close>
  repeat, and writing through the bucket pointer stored under a number.\<close>

definition ensure_bucket :: "int \<Rightarrow> buckets \<Rightarrow> buckets" where
  "ensure_bucket bid bs =
     (case map_of (bs_buckets bs) bid of
        Some _ \<Rightarrow> bs
      | None \<Rightarrow>
          bs\<lparr>bs_buckets := AList.update bid
               (newBucket bid (bs_span bs) (bs_rateInSpan bs) (bs_serverSide bs)) (bs_buckets bs),
             bs_minID := (if bs_minID bs < 0 \<or> bid < bs_minID bs then bid else bs_minID bs)\<rparr>)"

definition modify_bucket :: "int \<Rightarrow> (bucket \<Rightarrow> bucket) \<Rightarrow> buckets \<Rightarrow> buckets" where
  "modify_bucket bid f bs =
     (case map_of (bs_buckets bs) bid of
        None \<Rightarrow> bs
      | Some b \<Rightarrow> bs\<lparr>bs_buckets := AList.update bid (f b) (bs_buckets bs)\<rparr>)"

definition buckets_put :: "u16 \<Rightarrow> u16 \<Rightarrow> u64 \<Rightarrow> int \<Rightarrow> buckets \<Rightarrow> buckets option" where
  "buckets_put clientPort serverPort seq ts bs =
     (case bucketID bs ts of
        None \<Rightarrow> None
      | Some bid \<Rightarrow>
          Some (modify_bucket bid (bucket_put clientPort serverPort seq ts) (ensure_bucket bid bs)))"

definition buckets_delete :: "u64 \<Rightarrow> int \<Rightarrow> buckets \<Rightarrow> buckets option" where
  "buckets_delete seq ts bs =
     (case bucketID bs ts of
        None \<Rightarrow> None
      | Some bid \<Rightarrow> Some (modify_bucket bid (bucket_delete seq) bs))"

text \<open>The shape of \<open>received\<close> and \<open>receivedRST\<close>: try to update the entry in the bucket of the
  timestamp, then in the bucket before it, and create it otherwise.\<close>

definition try_update :: "int \<Rightarrow> (bucket \<Rightarrow> bucket \<times> bool) \<Rightarrow> buckets \<Rightarrow> buckets option" where
  "try_update bid upd bs =
     (case map_of (bs_buckets bs) bid of
        None \<Rightarrow> None
      | Some b \<Rightarrow>
          (case upd b of (b', ok) \<Rightarrow>
             if ok then Some (bs\<lparr>bs_buckets := AList.update bid b' (bs_buckets bs)\<rparr>) else None))"

definition buckets_received :: "u64 \<Rightarrow> int \<Rightarrow> int \<Rightarrow> bool \<Rightarrow> buckets \<Rightarrow> buckets option" where
  "buckets_received seq ts rtt hasBitflip bs =
     (case bucketID bs ts of
        None \<Rightarrow> None
      | Some bid \<Rightarrow>
          (case try_update bid (bucket_updateReceived seq rtt hasBitflip) bs of
             Some bs' \<Rightarrow> Some bs'
           | None \<Rightarrow>
               (case try_update (i64 (bid - 1)) (bucket_updateReceived seq rtt hasBitflip) bs of
                  Some bs' \<Rightarrow> Some bs'
                | None \<Rightarrow>
                    Some (modify_bucket bid (bucket_received seq rtt hasBitflip)
                            (ensure_bucket bid bs)))))"

definition buckets_receivedRST :: "u64 \<Rightarrow> int \<Rightarrow> int \<Rightarrow> buckets \<Rightarrow> buckets option" where
  "buckets_receivedRST seq ts rtt bs =
     (case bucketID bs ts of
        None \<Rightarrow> None
      | Some bid \<Rightarrow>
          (case try_update bid (bucket_updateReceivedRST seq rtt) bs of
             Some bs' \<Rightarrow> Some bs'
           | None \<Rightarrow>
               (case try_update (i64 (bid - 1)) (bucket_updateReceivedRST seq rtt) bs of
                  Some bs' \<Rightarrow> Some bs'
                | None \<Rightarrow>
                    Some (modify_bucket bid (bucket_receivedRST seq rtt) (ensure_bucket bid bs)))))"

definition buckets_receivedAndFix ::
    "u64 \<Rightarrow> int \<Rightarrow> int \<Rightarrow> u32 \<Rightarrow> u16 \<Rightarrow> u16 \<Rightarrow> bool \<Rightarrow> buckets \<Rightarrow> buckets option" where
  "buckets_receivedAndFix seq ts rtt lastSentCount lastStartSrcPort lastStartDstPort hasBitflip bs =
     (case bucketID bs ts of
        None \<Rightarrow> None
      | Some bid \<Rightarrow>
          (let bs1 = modify_bucket bid (bucket_received seq rtt hasBitflip) (ensure_bucket bid bs);
               fixed = (case map_of (bs_buckets bs1) bid of None \<Rightarrow> False | Some b \<Rightarrow> b_fixed b);
               bs2 = modify_bucket bid (\<lambda>b. b\<lparr>b_fixed := True\<rparr>) bs1
           in if \<not> fixed \<and> lastSentCount > 0
              then Some (modify_bucket (i64 (bid - 1))
                     (\<lambda>prev. prev\<lparr>b_packetCount := lastSentCount, b_packetCountFixed := True,
                        b_startSrcPort := lastStartSrcPort, b_startDstPort := lastStartDstPort\<rparr>) bs2)
              else Some bs2))"

definition buckets_oldest :: "buckets \<Rightarrow> bucket option" where
  "buckets_oldest bs =
     (if length (bs_buckets bs) = 0 then None else map_of (bs_buckets bs) (bs_minID bs))"

definition buckets_remove :: "int \<Rightarrow> buckets \<Rightarrow> buckets" where
  "buckets_remove bid bs =
     (let m = AList.delete bid (bs_buckets bs)
      in bs\<lparr>bs_buckets := m,
            bs_minID := (if bid = bs_minID bs
                         then fold (\<lambda>(id, _) mn. if mn < 0 \<or> id < mn then id else mn) m (-1)
                         else bs_minID bs)\<rparr>)"



section \<open>The invariant of the collection\<close>

text \<open>A request is stored under its own sequence number, a bucket under its own number, keys are
  distinct, and the cached \<open>minID\<close> is the least bucket number (\<open>-1\<close> when there is none).
  Bucket numbers are non-negative: the timestamps are Unix nanoseconds.\<close>

definition bucket_inv :: "int \<Rightarrow> bucket \<Rightarrow> bool" where
  "bucket_inv k b \<longleftrightarrow>
     b_id b = k \<and> map_ok (b_requests b) \<and> map_all (\<lambda>seq r. r_seq r = seq) (b_requests b)"

definition min_ok :: "buckets \<Rightarrow> bool" where
  "min_ok bs \<longleftrightarrow>
     (if bs_buckets bs = [] then bs_minID bs = -1
      else bs_minID bs \<in> fst ` set (bs_buckets bs) \<and>
           (\<forall>k \<in> fst ` set (bs_buckets bs). bs_minID bs \<le> k))"

definition buckets_inv :: "buckets \<Rightarrow> bool" where
  "buckets_inv bs \<longleftrightarrow>
     map_ok (bs_buckets bs) \<and> map_all bucket_inv (bs_buckets bs) \<and>
     (\<forall>k \<in> fst ` set (bs_buckets bs). 0 \<le> k) \<and> min_ok bs"

lemma bucket_inv_new [simp]: "bucket_inv k (newBucket k s r ss)"
  by (simp add: bucket_inv_def newBucket_def)

lemma bucket_inv_update:
  "bucket_inv k b \<Longrightarrow> r_seq r = seq \<Longrightarrow> bucket_inv k (b\<lparr>b_requests := AList.update seq r (b_requests b)\<rparr>)"
  by (simp add: bucket_inv_def map_all_update)

lemma bucket_inv_lookup: "bucket_inv k b \<Longrightarrow> map_of (b_requests b) seq = Some r \<Longrightarrow> r_seq r = seq"
  unfolding bucket_inv_def by (auto dest: map_all_lookup)

text \<open>Every operation of one bucket keeps its invariant.\<close>

lemma bucket_inv_ops:
  assumes "bucket_inv k b"
  shows "bucket_inv k (bucket_put cp sp seq ts b)"
    and "bucket_inv k (bucket_delete seq b)"
    and "bucket_inv k (bucket_received seq rtt bf b)"
    and "bucket_inv k (bucket_receivedRST seq rtt b)"
    and "bucket_inv k (fst (bucket_updateReceived seq rtt bf b))"
    and "bucket_inv k (fst (bucket_updateReceivedRST seq rtt b))"
  using assms
  by (auto simp: bucket_put_def bucket_received_def bucket_receivedRST_def bucket_updateReceived_def
      bucket_updateReceivedRST_def request0_def intro!: bucket_inv_update
      dest: bucket_inv_lookup split: option.splits)
     (simp add: bucket_inv_def bucket_delete_def map_all_delete)

lemma keys_update_old: "map_of m k \<noteq> None \<Longrightarrow> map fst (AList.update k v m) = map fst m"
  by (induction m) (auto split: if_splits)

lemma update_Nil_iff: "map_of m k \<noteq> None \<Longrightarrow> AList.update k v m = [] \<longleftrightarrow> m = []"
  by (cases m) auto

text \<open>Overwriting a stored bucket keeps the keys, hence \<open>minID\<close>.\<close>

lemma buckets_inv_overwrite:
  assumes inv: "buckets_inv bs" and k: "map_of (bs_buckets bs) k = Some b" and b': "bucket_inv k b'"
  shows "buckets_inv (bs\<lparr>bs_buckets := AList.update k b' (bs_buckets bs)\<rparr>)"
proof -
  have fst: "fst ` set (AList.update k b' (bs_buckets bs)) = fst ` set (bs_buckets bs)"
    using k by (metis keys_update_old list.set_map option.distinct(1))
  show ?thesis
    using inv b' k unfolding buckets_inv_def min_ok_def
    by (auto simp: fst map_all_update update_Nil_iff split: if_splits)
qed

lemma buckets_inv_modify:
  assumes "buckets_inv bs" "\<And>b. bucket_inv k b \<Longrightarrow> bucket_inv k (f b)"
  shows "buckets_inv (modify_bucket k f bs)"
proof (cases "map_of (bs_buckets bs) k")
  case (Some b)
  then have "bucket_inv k b" using assms(1) unfolding buckets_inv_def by (auto dest: map_all_lookup)
  then show ?thesis using assms Some by (simp add: modify_bucket_def buckets_inv_overwrite)
qed (simp add: modify_bucket_def assms)

lemma buckets_inv_ensure:
  assumes inv: "buckets_inv bs" and k: "0 \<le> k"
  shows "buckets_inv (ensure_bucket k bs)"
proof (cases "map_of (bs_buckets bs) k")
  case None
  have keys: "fst ` set (bs_buckets (ensure_bucket k bs)) = insert k (fst ` set (bs_buckets bs))"
    using None by (simp add: ensure_bucket_def dom_update)
  have ne: "bs_buckets (ensure_bucket k bs) \<noteq> []" using None by (simp add: ensure_bucket_def)
  have m: "bs_minID (ensure_bucket k bs) = (if bs_buckets bs = [] then k else min k (bs_minID bs))"
    using None inv k by (auto simp: ensure_bucket_def buckets_inv_def min_ok_def split: if_splits)
  have "min_ok (ensure_bucket k bs)"
    using inv unfolding min_ok_def keys m buckets_inv_def if_not_P [OF ne]
    by (auto simp: min_ok_def min_def split: if_splits)
  then show ?thesis
    using None inv k unfolding buckets_inv_def keys
    by (simp add: ensure_bucket_def map_all_update)
qed (simp add: ensure_bucket_def inv)

lemma buckets_inv_try_update:
  assumes inv: "buckets_inv bs" and "\<And>b. bucket_inv k b \<Longrightarrow> bucket_inv k (fst (upd b))"
    and r: "try_update k upd bs = Some bs'"
  shows "buckets_inv bs'"
proof -
  from r obtain b b' where b: "map_of (bs_buckets bs) k = Some b" "upd b = (b', True)"
    and bs': "bs' = bs\<lparr>bs_buckets := AList.update k b' (bs_buckets bs)\<rparr>"
    unfolding try_update_def by (auto split: option.splits prod.splits if_splits)
  have "bucket_inv k b" using inv b unfolding buckets_inv_def by (auto dest: map_all_lookup)
  then have "bucket_inv k b'" using assms(2) b by (metis fst_conv)
  then show ?thesis using inv b bs' by (simp add: buckets_inv_overwrite)
qed

lemma fold_min:
  fixes m :: "(int \<times> 'b) list"
  assumes "\<forall>k \<in> fst ` set m. 0 \<le> k" and "mn = -1 \<or> 0 \<le> mn"
  shows "fold (\<lambda>(id, _) mn. if mn < 0 \<or> id < mn then id else mn) m mn =
     (if m = [] then mn else if mn = -1 then Min (fst ` set m) else min mn (Min (fst ` set m)))"
  using assms
proof (induction m arbitrary: mn)
  case (Cons p m)
  obtain i v where p: "p = (i, v)" by force
  show ?case using Cons.prems Cons.IH [of "if mn < 0 \<or> i < mn then i else mn"]
    by (cases "m = []") (auto simp: p min_def)
qed simp

lemma buckets_inv_remove: "buckets_inv bs \<Longrightarrow> buckets_inv (buckets_remove k bs)"
proof -
  assume inv: "buckets_inv bs"
  let ?m = "AList.delete k (bs_buckets bs)"
  have keys: "fst ` set ?m = fst ` set (bs_buckets bs) - {k}"
    by (metis delete_keys list.set_map set_removeAll)
  have nn: "\<forall>k \<in> fst ` set ?m. 0 \<le> k" using inv keys by (auto simp: buckets_inv_def)
  have fin: "finite (fst ` set ?m)" by simp
  have "min_ok (buckets_remove k bs)"
  proof (cases "k = bs_minID bs")
    case True
    show ?thesis
    proof (cases "?m = []")
      case False
      then have "fst ` set ?m \<noteq> {}" by simp
      then show ?thesis
        using True False fin fold_min [OF nn, of "-1"]
        by (simp add: min_ok_def buckets_remove_def Let_def Min_in)
    qed (simp add: True min_ok_def buckets_remove_def Let_def)
  next
    case False
    show ?thesis
    proof (cases "bs_buckets bs = []")
      case False
      then have m: "bs_minID bs \<in> fst ` set ?m"
        using inv \<open>k \<noteq> bs_minID bs\<close> keys by (auto simp: buckets_inv_def min_ok_def)
      have "\<forall>k' \<in> fst ` set ?m. bs_minID bs \<le> k'"
        using inv False unfolding keys by (auto simp: buckets_inv_def min_ok_def)
      with m show ?thesis
        using \<open>k \<noteq> bs_minID bs\<close> by (auto simp: min_ok_def buckets_remove_def Let_def)
    qed (use inv \<open>k \<noteq> bs_minID bs\<close> in
        \<open>simp add: min_ok_def buckets_remove_def buckets_inv_def Let_def\<close>)
  qed
  then show ?thesis
    using inv nn unfolding buckets_inv_def
    by (simp add: buckets_remove_def Let_def map_all_delete)
qed



section \<open>Any sequence of calls\<close>

text \<open>The calls a \<open>Stat\<close> makes on its collection, with the reporting side's \<open>remove\<close>.\<close>

datatype bucket_call =
    CPut u16 u16 u64 int
  | CDelete u64 int
  | CReceived u64 int int bool
  | CReceivedRST u64 int int
  | CReceivedAndFix u64 int int u32 u16 u16 bool
  | CRemove int

fun run_call :: "bucket_call \<Rightarrow> buckets \<Rightarrow> buckets option" where
  "run_call (CPut cp sp seq ts) bs = buckets_put cp sp seq ts bs"
| "run_call (CDelete seq ts) bs = buckets_delete seq ts bs"
| "run_call (CReceived seq ts rtt bf) bs = buckets_received seq ts rtt bf bs"
| "run_call (CReceivedRST seq ts rtt) bs = buckets_receivedRST seq ts rtt bs"
| "run_call (CReceivedAndFix seq ts rtt n sp dp bf) bs = buckets_receivedAndFix seq ts rtt n sp dp bf bs"
| "run_call (CRemove bid) bs = Some (buckets_remove bid bs)"

text \<open>The timestamps a call carries are Unix nanoseconds, never negative.\<close>

fun call_ts_ok :: "bucket_call \<Rightarrow> bool" where
  "call_ts_ok (CPut _ _ _ ts) \<longleftrightarrow> 0 \<le> ts \<and> in_i64 ts"
| "call_ts_ok (CDelete _ ts) \<longleftrightarrow> 0 \<le> ts \<and> in_i64 ts"
| "call_ts_ok (CReceived _ ts _ _) \<longleftrightarrow> 0 \<le> ts \<and> in_i64 ts"
| "call_ts_ok (CReceivedRST _ ts _) \<longleftrightarrow> 0 \<le> ts \<and> in_i64 ts"
| "call_ts_ok (CReceivedAndFix _ ts _ _ _ _ _) \<longleftrightarrow> 0 \<le> ts \<and> in_i64 ts"
| "call_ts_ok (CRemove _) \<longleftrightarrow> True"

inductive reachable_buckets :: "int \<Rightarrow> buckets \<Rightarrow> bool" for spn where
  init: "reachable_buckets spn (newBuckets spn rate ss)"
| call: "reachable_buckets spn bs \<Longrightarrow> call_ts_ok c \<Longrightarrow> run_call c bs = Some bs' \<Longrightarrow>
    reachable_buckets spn bs'"

lemma span_ensure [simp]: "bs_span (ensure_bucket k bs) = bs_span bs"
  by (simp add: ensure_bucket_def split: option.splits)

lemma span_modify [simp]: "bs_span (modify_bucket k f bs) = bs_span bs"
  by (simp add: modify_bucket_def split: option.splits)

lemma span_try_update: "try_update k u bs = Some bs' \<Longrightarrow> bs_span bs' = bs_span bs"
  by (auto simp: try_update_def split: option.splits prod.splits if_splits)

lemma run_call_span: "run_call c bs = Some bs' \<Longrightarrow> bs_span bs' = bs_span bs"
  by (cases c)
     (auto simp: buckets_put_def buckets_delete_def buckets_received_def buckets_receivedRST_def
       buckets_receivedAndFix_def buckets_remove_def Let_def
       dest: span_try_update split: option.splits if_splits)

lemma sdiv_le_self: "0 \<le> a \<Longrightarrow> 0 < b \<Longrightarrow> a sdiv b \<le> a" for a b :: int
  using zdiv_mono2 [of a 1 b] by (simp add: sdiv_nonneg)

lemma bucketID_nonneg:
  assumes "0 < bs_span bs" "0 \<le> ts" "in_i64 ts"
  shows "bucketID bs ts = Some (ts div bs_span bs)" and "0 \<le> ts div bs_span bs"
proof -
  have "ts sdiv bs_span bs = ts div bs_span bs" using assms by (simp add: sdiv_nonneg)
  moreover have "in_i64 (ts sdiv bs_span bs)"
    using sdiv_le_self [of ts "bs_span bs"] sdiv_nonneg_ge [of ts "bs_span bs"] assms
    by (simp add: in_i64_def)
  ultimately show "bucketID bs ts = Some (ts div bs_span bs)"
    using assms by (simp add: bucketID_def i64_id)
  show "0 \<le> ts div bs_span bs" using assms by (simp add: pos_imp_zdiv_nonneg_iff)
qed

lemma bucket_inv_fix:
  "bucket_inv k (b\<lparr>b_fixed := f\<rparr>) = bucket_inv k b"
  "bucket_inv k (b\<lparr>b_packetCount := n, b_packetCountFixed := f, b_startSrcPort := sp,
     b_startDstPort := dp\<rparr>) = bucket_inv k b"
  by (simp_all add: bucket_inv_def)

lemmas buckets_inv_intros =
  buckets_inv_modify buckets_inv_ensure buckets_inv_remove bucket_inv_ops

lemma run_call_inv:
  assumes inv: "buckets_inv bs" and pos: "0 < bs_span bs" and ok: "call_ts_ok c"
    and run: "run_call c bs = Some bs'"
  shows "buckets_inv bs'"
proof (cases c)
  case (CPut cp sp seq ts)
  then show ?thesis using inv pos ok run bucketID_nonneg [of bs ts]
    by (auto simp: buckets_put_def intro!: buckets_inv_intros)
next
  case (CDelete seq ts)
  then show ?thesis using inv pos ok run bucketID_nonneg [of bs ts]
    by (auto simp: buckets_delete_def intro!: buckets_inv_intros)
next
  case (CReceived seq ts rtt bf)
  then show ?thesis using inv pos ok run bucketID_nonneg [of bs ts]
    by (auto simp: buckets_received_def intro!: buckets_inv_intros
        elim!: buckets_inv_try_update [OF inv, rotated] split: option.splits)
next
  case (CReceivedRST seq ts rtt)
  then show ?thesis using inv pos ok run bucketID_nonneg [of bs ts]
    by (auto simp: buckets_receivedRST_def intro!: buckets_inv_intros
        elim!: buckets_inv_try_update [OF inv, rotated] split: option.splits)
next
  case (CReceivedAndFix seq ts rtt n sp dp bf)
  then show ?thesis using inv pos ok run bucketID_nonneg [of bs ts]
    by (auto simp: buckets_receivedAndFix_def Let_def bucket_inv_fix
        intro!: buckets_inv_intros split: if_splits)
next
  case (CRemove k)
  then show ?thesis using inv run by (auto intro: buckets_inv_remove)
qed

lemma buckets_inv_new: "buckets_inv (newBuckets spn rate ss)"
  by (simp add: newBuckets_def buckets_inv_def min_ok_def)

lemma reachable_buckets_inv:
  "reachable_buckets spn bs \<Longrightarrow> 0 < spn \<Longrightarrow> buckets_inv bs \<and> bs_span bs = spn"
proof (induction rule: reachable_buckets.induct)
  case (init rate ss)
  then show ?case by (simp add: buckets_inv_new) (simp add: newBuckets_def)
next
  case (call bs c bs')
  then show ?case by (metis run_call_inv run_call_span)
qed

lemma oldest_spec:
  assumes "buckets_inv bs"
  shows "(buckets_oldest bs = None \<longleftrightarrow> bs_buckets bs = []) \<and>
     (\<forall>b. buckets_oldest bs = Some b \<longrightarrow>
        (b_id b, b) \<in> set (bs_buckets bs) \<and> (\<forall>k \<in> fst ` set (bs_buckets bs). b_id b \<le> k))"
proof (cases "bs_buckets bs = []")
  case False
  then have m: "bs_minID bs \<in> fst ` set (bs_buckets bs)" "\<forall>k \<in> fst ` set (bs_buckets bs). bs_minID bs \<le> k"
    using assms by (auto simp: buckets_inv_def min_ok_def)
  then obtain b where b: "map_of (bs_buckets bs) (bs_minID bs) = Some b"
    by (auto simp: keys_map_of)
  then have "b_id b = bs_minID bs"
    using assms unfolding buckets_inv_def by (auto dest!: map_all_lookup simp: bucket_inv_def)
  then show ?thesis using False m b by (auto simp: buckets_oldest_def dest: map_of_SomeD)
qed (simp add: buckets_oldest_def)

text \<open>After any sequence of \<open>put\<close>, \<open>delete\<close>, \<open>received\<close>, \<open>receivedRST\<close>,
  \<open>receivedAndFix\<close> and \<open>remove\<close> calls with non-negative timestamps, the collection is well
  formed and \<open>oldest\<close> returns the stored bucket with the least number, and nil exactly when the
  collection is empty: the cached \<open>minID\<close> is never stale.\<close>

theorem oldest_is_minimum:
  assumes "0 < spn" "reachable_buckets spn bs"
  shows "buckets_inv bs \<and> (buckets_oldest bs = None \<longleftrightarrow> bs_buckets bs = []) \<and>
     (\<forall>b. buckets_oldest bs = Some b \<longrightarrow>
        (b_id b, b) \<in> set (bs_buckets bs) \<and> (\<forall>k \<in> fst ` set (bs_buckets bs). b_id b \<le> k))"
  using reachable_buckets_inv [OF assms(2,1)] oldest_spec by blast


text \<open>A run the witnesses use: two probes in spans 5 and 3, then the older span is removed.\<close>

definition demo_buckets :: buckets where
  "demo_buckets = the (Option.bind (buckets_put 43500 43501 7 52 (newBuckets 10 5000 False))
     (buckets_put 43500 43502 8 31))"

lemma demo_buckets_reachable: "reachable_buckets 10 demo_buckets"
proof -
  have 1: "run_call (CPut 43500 43501 7 52) (newBuckets 10 5000 False) =
      Some (the (buckets_put 43500 43501 7 52 (newBuckets 10 5000 False)))"
    by code_simp
  have 2: "run_call (CPut 43500 43502 8 31) (the (buckets_put 43500 43501 7 52 (newBuckets 10 5000 False)))
      = Some demo_buckets"
    by code_simp
  have "reachable_buckets 10 (the (buckets_put 43500 43501 7 52 (newBuckets 10 5000 False)))"
    by (rule reachable_buckets.call [OF reachable_buckets.init _ 1]) (simp add: in_i64_def)
  then show ?thesis
    by (rule reachable_buckets.call [OF _ _ 2]) (simp add: in_i64_def)
qed

theorem oldest_is_minimum_witness:
  "\<exists>b. buckets_oldest demo_buckets = Some b \<and> b_id b = 3 \<and>
       (\<forall>k \<in> fst ` set (bs_buckets demo_buckets). b_id b \<le> k)"
proof -
  have "map_option b_id (buckets_oldest demo_buckets) = Some 3" by code_simp
  then obtain b where "buckets_oldest demo_buckets = Some b" "b_id b = 3" by auto
  then show ?thesis using oldest_is_minimum [OF _ demo_buckets_reachable] by auto
qed

end
