(* ===== verification/Stat_Table.thy ===== *)
theory Stat_Table
  imports Stat_Bucket
begin

text \<open>
  The contract of the bucket collection, stated without buckets: a flat table of probe records
  keyed by span number and sequence number. \<open>probe_table\<close> is the interface the probing
  clients rely on (\<open>Stat\<close> of \<open>stat/stat.go\<close>), as a locale with the client-side facts
  proved once; the collection of \<open>stat/bucket.go\<close> is shown to implement it.
\<close>

section \<open>The abstract table\<close>

type_synonym table = "int \<times> u64 \<Rightarrow> request option"

text \<open>The record a send leaves, and the record a response leaves, over the record stored before.\<close>

definition sent_entry :: "u16 \<Rightarrow> u16 \<Rightarrow> u64 \<Rightarrow> int \<Rightarrow> request option \<Rightarrow> request" where
  "sent_entry cp sp seq ts old =
     (case old of
        Some r \<Rightarrow> r\<lparr>r_clientPort := cp, r_serverPort := sp, r_ts := ts\<rparr>
      | None \<Rightarrow> request0\<lparr>r_clientPort := cp, r_serverPort := sp, r_seq := seq, r_ts := ts,
                  r_rtt := rttUnset\<rparr>)"

definition echo_entry :: "u64 \<Rightarrow> int \<Rightarrow> bool \<Rightarrow> request option \<Rightarrow> request" where
  "echo_entry seq rtt bf old =
     (case old of
        Some r \<Rightarrow> r\<lparr>r_rtt := rtt, r_hasBitflip := bf\<rparr>
      | None \<Rightarrow> request0\<lparr>r_seq := seq, r_rtt := rtt, r_hasBitflip := bf\<rparr>)"

definition rst_entry :: "u64 \<Rightarrow> int \<Rightarrow> request option \<Rightarrow> request" where
  "rst_entry seq rtt old =
     (case old of
        Some r \<Rightarrow> r\<lparr>r_rtt := rtt, r_isRst := True\<rparr>
      | None \<Rightarrow> request0\<lparr>r_seq := seq, r_rtt := rtt, r_isRst := True\<rparr>)"

text \<open>A response is booked on the record of its own span if there is one, else on that of the
  span before, else on a new record of its own span.\<close>

definition response_slot :: "table \<Rightarrow> int \<Rightarrow> u64 \<Rightarrow> int" where
  "response_slot t k seq = (if t (k, seq) = None \<and> t (k - 1, seq) \<noteq> None then k - 1 else k)"

definition table_put :: "int \<Rightarrow> u16 \<Rightarrow> u16 \<Rightarrow> u64 \<Rightarrow> int \<Rightarrow> table \<Rightarrow> table" where
  "table_put k cp sp seq ts t = t((k, seq) := Some (sent_entry cp sp seq ts (t (k, seq))))"

definition table_delete :: "int \<Rightarrow> u64 \<Rightarrow> table \<Rightarrow> table" where
  "table_delete k seq t = t((k, seq) := None)"

definition table_received :: "int \<Rightarrow> u64 \<Rightarrow> int \<Rightarrow> bool \<Rightarrow> table \<Rightarrow> table" where
  "table_received k seq rtt bf t =
     (let j = response_slot t k seq in t((j, seq) := Some (echo_entry seq rtt bf (t (j, seq)))))"

definition table_rst :: "int \<Rightarrow> u64 \<Rightarrow> int \<Rightarrow> table \<Rightarrow> table" where
  "table_rst k seq rtt t =
     (let j = response_slot t k seq in t((j, seq) := Some (rst_entry seq rtt (t (j, seq)))))"


section \<open>The interface\<close>

text \<open>What a probing client may assume of its \<open>Stat\<close>: every call succeeds on Unix timestamps and
  acts on the table as specified; the span length \<open>spn\<close> is positive and never changes.\<close>

locale probe_table =
  fixes spn :: "'s \<Rightarrow> int"
    and ok :: "'s \<Rightarrow> bool"
    and table :: "'s \<Rightarrow> table"
    and put :: "u16 \<Rightarrow> u16 \<Rightarrow> u64 \<Rightarrow> int \<Rightarrow> 's \<Rightarrow> 's option"
    and delete :: "u64 \<Rightarrow> int \<Rightarrow> 's \<Rightarrow> 's option"
    and received :: "u64 \<Rightarrow> int \<Rightarrow> int \<Rightarrow> bool \<Rightarrow> 's \<Rightarrow> 's option"
    and receivedRST :: "u64 \<Rightarrow> int \<Rightarrow> int \<Rightarrow> 's \<Rightarrow> 's option"
  assumes spn_pos: "ok s \<Longrightarrow> 0 < spn s"
    and put_law: "\<lbrakk>ok s; 0 \<le> ts; in_i64 ts\<rbrakk> \<Longrightarrow>
      \<exists>s'. put cp sp seq ts s = Some s' \<and> ok s' \<and> spn s' = spn s \<and>
           table s' = table_put (ts div spn s) cp sp seq ts (table s)"
    and delete_law: "\<lbrakk>ok s; 0 \<le> ts; in_i64 ts\<rbrakk> \<Longrightarrow>
      \<exists>s'. delete seq ts s = Some s' \<and> ok s' \<and> spn s' = spn s \<and> table s' = table_delete (ts div spn s) seq (table s)"
    and received_law: "\<lbrakk>ok s; 0 \<le> ts; in_i64 ts\<rbrakk> \<Longrightarrow>
      \<exists>s'. received seq ts rtt bf s = Some s' \<and> ok s' \<and> spn s' = spn s \<and>
           table s' = table_received (ts div spn s) seq rtt bf (table s)"
    and rst_law: "\<lbrakk>ok s; 0 \<le> ts; in_i64 ts\<rbrakk> \<Longrightarrow>
      \<exists>s'. receivedRST seq ts rtt s = Some s' \<and> ok s' \<and> spn s' = spn s \<and>
           table s' = table_rst (ts div spn s) seq rtt (table s)"
begin

text \<open>A probe whose response arrives in its own span or the next one is answered in place: the
  record keeps the ports it was sent with, gets the response's round-trip time, and no other record
  changes, in particular none is added.\<close>

lemma send_then_receive:
  assumes s: "ok s" and ts: "0 \<le> ts" "in_i64 ts" and ts': "0 \<le> ts'" "in_i64 ts'"
    and near: "ts' div spn s = ts div spn s \<or>
       ts' div spn s = ts div spn s + 1 \<and> table s (ts' div spn s, seq) = None"
  shows "\<exists>s1 s2 r. put cp sp seq ts s = Some s1 \<and> received seq ts' rtt bf s1 = Some s2 \<and> ok s2 \<and>
     table s2 (ts div spn s, seq) = Some r \<and>
     r_clientPort r = cp \<and> r_serverPort r = sp \<and> r_ts r = ts \<and> r_rtt r = rtt \<and>
     (\<forall>key. key \<noteq> (ts div spn s, seq) \<longrightarrow> table s2 key = table s key)"
proof -
  obtain s1 where s1: "put cp sp seq ts s = Some s1" "ok s1" "spn s1 = spn s"
    "table s1 = table_put (ts div spn s) cp sp seq ts (table s)"
    using put_law [OF s ts] by blast
  obtain s2 where s2: "received seq ts' rtt bf s1 = Some s2" "ok s2"
    "table s2 = table_received (ts' div spn s) seq rtt bf (table s1)"
    using received_law [OF s1(2) ts'] s1(3) by metis
  have "response_slot (table s1) (ts' div spn s) seq = ts div spn s"
    using near by (auto simp: response_slot_def s1 table_put_def)
  then show ?thesis
    using s1 s2
    by (auto simp: table_received_def table_put_def echo_entry_def sent_entry_def request0_def
        split: option.splits)
qed

text \<open>A response two or more spans after its probe does not find it: the probe stays unanswered and
  a second record, with no ports, is created.\<close>

lemma late_response_duplicates:
  assumes s: "ok s" and ts: "0 \<le> ts" "in_i64 ts" and ts': "0 \<le> ts'" "in_i64 ts'"
    and late: "ts div spn s + 2 \<le> ts' div spn s"
    and fresh: "\<forall>k. table s (k, seq) = None"
  shows "\<exists>s1 s2 r d. put cp sp seq ts s = Some s1 \<and> received seq ts' rtt bf s1 = Some s2 \<and> ok s2 \<and>
     table s2 (ts div spn s, seq) = Some r \<and> r_rtt r = rttUnset \<and>
     table s2 (ts' div spn s, seq) = Some d \<and> r_rtt d = rtt \<and> r_clientPort d = 0"
proof -
  obtain s1 where s1: "put cp sp seq ts s = Some s1" "ok s1" "spn s1 = spn s"
    "table s1 = table_put (ts div spn s) cp sp seq ts (table s)"
    using put_law [OF s ts] by blast
  obtain s2 where s2: "received seq ts' rtt bf s1 = Some s2" "ok s2"
    "table s2 = table_received (ts' div spn s) seq rtt bf (table s1)"
    using received_law [OF s1(2) ts'] s1(3) by metis
  have "response_slot (table s1) (ts' div spn s) seq = ts' div spn s"
    using late fresh by (auto simp: response_slot_def s1 table_put_def)
  then show ?thesis
    using s1 s2 late fresh
    by (auto simp: table_received_def table_put_def echo_entry_def sent_entry_def request0_def)
qed

text \<open>A failed send leaves no trace: \<open>Put\<close> then \<open>Delete\<close> of a fresh probe restores the table.\<close>

lemma put_then_delete:
  assumes s: "ok s" and ts: "0 \<le> ts" "in_i64 ts" and fresh: "table s (ts div spn s, seq) = None"
  shows "\<exists>s1 s2. put cp sp seq ts s = Some s1 \<and> delete seq ts s1 = Some s2 \<and> ok s2 \<and>
     table s2 = table s"
proof -
  obtain s1 where s1: "put cp sp seq ts s = Some s1" "ok s1" "spn s1 = spn s"
    "table s1 = table_put (ts div spn s) cp sp seq ts (table s)"
    using put_law [OF s ts] by blast
  obtain s2 where s2: "delete seq ts s1 = Some s2" "ok s2"
    "table s2 = table_delete (ts div spn s) seq (table s1)"
    using delete_law [OF s1(2) ts] s1(3) by metis
  show ?thesis using s1 s2 fresh by (auto simp: table_put_def table_delete_def fun_eq_iff)
qed

end


section \<open>The collection implements the table\<close>

definition table_of :: "buckets \<Rightarrow> table" where
  "table_of bs = (\<lambda>(k, seq). case map_of (bs_buckets bs) k of
     None \<Rightarrow> None | Some b \<Rightarrow> map_of (b_requests b) seq)"

definition well_formed :: "buckets \<Rightarrow> bool" where
  "well_formed bs \<longleftrightarrow> buckets_inv bs \<and> 0 < bs_span bs"

lemma table_ensure [simp]: "table_of (ensure_bucket k bs) = table_of bs"
  by (auto simp: fun_eq_iff table_of_def ensure_bucket_def newBucket_def update_conv' split: option.splits)

lemma ensure_has_bucket: "map_of (bs_buckets (ensure_bucket k bs)) k \<noteq> None"
  by (simp add: ensure_bucket_def split: option.splits)

text \<open>Rewriting one request of one stored bucket is one update of the table.\<close>

lemma table_modify:
  assumes "map_of (bs_buckets bs) k = Some b"
    and "\<And>s. map_of (b_requests b') s = (if s = seq then v else map_of (b_requests b) s)"
  shows "table_of (bs\<lparr>bs_buckets := AList.update k b' (bs_buckets bs)\<rparr>) = (table_of bs)((k, seq) := v)"
  using assms by (auto simp: fun_eq_iff table_of_def update_conv')

lemma requests_after:
  "map_of (b_requests (bucket_put cp sp seq ts b)) s =
     (if s = seq then Some (sent_entry cp sp seq ts (map_of (b_requests b) seq)) else map_of (b_requests b) s)"
  "map_of (b_requests (bucket_delete seq b)) s = (if s = seq then None else map_of (b_requests b) s)"
  "map_of (b_requests (bucket_received seq rtt bf b)) s =
     (if s = seq then Some (echo_entry seq rtt bf (map_of (b_requests b) seq)) else map_of (b_requests b) s)"
  "map_of (b_requests (bucket_receivedRST seq rtt b)) s =
     (if s = seq then Some (rst_entry seq rtt (map_of (b_requests b) seq)) else map_of (b_requests b) s)"
  by (auto simp: bucket_put_def bucket_delete_def bucket_received_def bucket_receivedRST_def
      sent_entry_def echo_entry_def rst_entry_def update_conv' delete_conv' split: option.splits)

lemma table_modify_bucket:
  assumes "map_of (bs_buckets bs) k \<noteq> None"
    and "\<And>b s. map_of (b_requests (f b)) s = (if s = seq then g (map_of (b_requests b) seq) else map_of (b_requests b) s)"
  shows "table_of (modify_bucket k f bs) = (table_of bs)((k, seq) := g (table_of bs (k, seq)))"
proof -
  obtain b where b: "map_of (bs_buckets bs) k = Some b" using assms(1) by auto
  then have "table_of bs (k, seq) = map_of (b_requests b) seq" by (simp add: table_of_def)
  then show ?thesis
    using b assms(2) by (simp add: modify_bucket_def table_modify)
qed

lemma update_is_received:
  "map_of (b_requests b) seq \<noteq> None \<Longrightarrow>
     bucket_updateReceived seq rtt bf b = (bucket_received seq rtt bf b, True)"
  "map_of (b_requests b) seq \<noteq> None \<Longrightarrow>
     bucket_updateReceivedRST seq rtt b = (bucket_receivedRST seq rtt b, True)"
  "map_of (b_requests b) seq = None \<Longrightarrow> bucket_updateReceived seq rtt bf b = (b, False)"
  "map_of (b_requests b) seq = None \<Longrightarrow> bucket_updateReceivedRST seq rtt b = (b, False)"
  by (auto simp: bucket_updateReceived_def bucket_received_def bucket_updateReceivedRST_def
      bucket_receivedRST_def)

lemma try_update_eq:
  "try_update k (bucket_updateReceived seq rtt bf) bs =
     (if table_of bs (k, seq) = None then None
      else Some (modify_bucket k (bucket_received seq rtt bf) bs))"
  "try_update k (bucket_updateReceivedRST seq rtt) bs =
     (if table_of bs (k, seq) = None then None
      else Some (modify_bucket k (bucket_receivedRST seq rtt) bs))"
  by (auto simp: try_update_def table_of_def modify_bucket_def update_is_received split: option.splits)

lemma table_Some_bucket: "table_of bs (k, seq) \<noteq> None \<Longrightarrow> map_of (bs_buckets bs) k \<noteq> None"
  by (auto simp: table_of_def split: option.splits)


lemma i64_pred: "0 \<le> k \<Longrightarrow> in_i64 k \<Longrightarrow> i64 (k - 1) = k - 1"
  by (rule i64_id) (simp add: in_i64_def)

lemma bucket_number:
  assumes "well_formed bs" "0 \<le> ts" "in_i64 ts"
  shows "bucketID bs ts = Some (ts div bs_span bs)" "i64 (ts div bs_span bs - 1) = ts div bs_span bs - 1"
proof -
  show "bucketID bs ts = Some (ts div bs_span bs)"
    using assms by (simp add: well_formed_def bucketID_nonneg)
  have "ts div bs_span bs \<le> ts" "0 \<le> ts div bs_span bs"
    using assms sdiv_le_self [of ts "bs_span bs"] by (simp_all add: well_formed_def sdiv_nonneg pos_imp_zdiv_nonneg_iff)
  then show "i64 (ts div bs_span bs - 1) = ts div bs_span bs - 1"
    using assms by (intro i64_pred) (auto simp: in_i64_def)
qed

lemma well_formed_call:
  assumes "well_formed bs" "call_ts_ok c" "run_call c bs = Some bs'"
  shows "well_formed bs' \<and> bs_span bs' = bs_span bs"
  using assms run_call_inv run_call_span unfolding well_formed_def by metis

lemma put_table:
  assumes "well_formed bs" "0 \<le> ts" "in_i64 ts"
  shows "\<exists>bs'. buckets_put cp sp seq ts bs = Some bs' \<and>
     table_of bs' = table_put (ts div bs_span bs) cp sp seq ts (table_of bs)"
  by (simp add: buckets_put_def bucket_number [OF assms] table_put_def)
     (subst table_modify_bucket [where g = "\<lambda>old. Some (sent_entry cp sp seq ts old)" and seq = seq],
      simp_all add: ensure_has_bucket requests_after del: not_None_eq)

lemma delete_table:
  assumes "well_formed bs" "0 \<le> ts" "in_i64 ts"
  shows "\<exists>bs'. buckets_delete seq ts bs = Some bs' \<and>
     table_of bs' = table_delete (ts div bs_span bs) seq (table_of bs)"
proof (cases "map_of (bs_buckets bs) (ts div bs_span bs)")
  case None
  then show ?thesis
    by (simp add: buckets_delete_def bucket_number [OF assms] modify_bucket_def table_delete_def)
       (auto simp: fun_eq_iff table_of_def)
next
  case (Some b)
  then show ?thesis
    by (simp add: buckets_delete_def bucket_number [OF assms] table_delete_def)
       (subst table_modify_bucket [where g = "\<lambda>_. None" and seq = seq], simp_all add: requests_after)
qed

text \<open>The two response methods have one shape; \<open>mk\<close> is the record they leave.\<close>

lemma response_table:
  assumes upd: "\<And>k bs. try_update k upd bs =
      (if table_of bs (k, seq) = None then None else Some (modify_bucket k f bs))"
    and f: "\<And>b s. map_of (b_requests (f b)) s =
      (if s = seq then Some (mk (map_of (b_requests b) seq)) else map_of (b_requests b) s)"
    and res: "res = (case try_update k upd bs of Some bs' \<Rightarrow> Some bs'
      | None \<Rightarrow> (case try_update (k - 1) upd bs of Some bs' \<Rightarrow> Some bs'
          | None \<Rightarrow> Some (modify_bucket k f (ensure_bucket k bs))))"
  shows "\<exists>bs'. res = Some bs' \<and>
     (let j = response_slot (table_of bs) k seq
      in table_of bs' = (table_of bs)((j, seq) := Some (mk (table_of bs (j, seq)))))"
proof -
  note modify = table_modify_bucket [where g = "\<lambda>old. Some (mk old)", OF _ f]
  consider (own) "table_of bs (k, seq) \<noteq> None"
    | (prev) "table_of bs (k, seq) = None" "table_of bs (k - 1, seq) \<noteq> None"
    | (new) "table_of bs (k, seq) = None" "table_of bs (k - 1, seq) = None" by blast
  then show ?thesis
  proof cases
    case own
    then have "response_slot (table_of bs) k seq = k" by (simp add: response_slot_def)
    then show ?thesis
      using own modify [OF table_Some_bucket [OF own]] by (auto simp: res upd)
  next
    case prev
    then have "response_slot (table_of bs) k seq = k - 1" by (simp add: response_slot_def)
    then show ?thesis
      using prev modify [OF table_Some_bucket [OF prev(2)]] by (auto simp: res upd)
  next
    case new
    then show ?thesis
      using modify [OF ensure_has_bucket [of k bs]] by (simp add: res upd response_slot_def)
  qed
qed

lemma received_table:
  assumes "well_formed bs" "0 \<le> ts" "in_i64 ts"
  shows "\<exists>bs'. buckets_received seq ts rtt bf bs = Some bs' \<and>
     table_of bs' = table_received (ts div bs_span bs) seq rtt bf (table_of bs)"
  using response_table [OF try_update_eq(1) requests_after(3),
      where k = "ts div bs_span bs" and bs = bs, OF refl]
  unfolding buckets_received_def bucket_number [OF assms] option.case table_received_def Let_def
  by blast

lemma receivedRST_table:
  assumes "well_formed bs" "0 \<le> ts" "in_i64 ts"
  shows "\<exists>bs'. buckets_receivedRST seq ts rtt bs = Some bs' \<and>
     table_of bs' = table_rst (ts div bs_span bs) seq rtt (table_of bs)"
  using response_table [OF try_update_eq(2) requests_after(4),
      where k = "ts div bs_span bs" and bs = bs, OF refl]
  unfolding buckets_receivedRST_def bucket_number [OF assms] option.case table_rst_def Let_def
  by blast

interpretation bk: probe_table bs_span well_formed table_of
  buckets_put buckets_delete buckets_received buckets_receivedRST
proof
  fix bs :: buckets and ts rtt :: int and cp sp :: u16 and seq :: u64 and bf :: bool
  assume wf: "well_formed bs"
  then show "0 < bs_span bs" by (simp add: well_formed_def)
  assume ts: "0 \<le> ts" "in_i64 ts"
  show "\<exists>s'. buckets_put cp sp seq ts bs = Some s' \<and> well_formed s' \<and> bs_span s' = bs_span bs \<and>
      table_of s' = table_put (ts div bs_span bs) cp sp seq ts (table_of bs)"
    using put_table [OF wf ts] well_formed_call [OF wf, of "CPut cp sp seq ts"] ts
    unfolding run_call.simps call_ts_ok.simps by blast
  show "\<exists>s'. buckets_delete seq ts bs = Some s' \<and> well_formed s' \<and> bs_span s' = bs_span bs \<and>
      table_of s' = table_delete (ts div bs_span bs) seq (table_of bs)"
    using delete_table [OF wf ts] well_formed_call [OF wf, of "CDelete seq ts"] ts
    unfolding run_call.simps call_ts_ok.simps by blast
  show "\<exists>s'. buckets_received seq ts rtt bf bs = Some s' \<and> well_formed s' \<and> bs_span s' = bs_span bs \<and>
      table_of s' = table_received (ts div bs_span bs) seq rtt bf (table_of bs)"
    using received_table [OF wf ts] well_formed_call [OF wf, of "CReceived seq ts rtt bf"] ts
    unfolding run_call.simps call_ts_ok.simps by blast
  show "\<exists>s'. buckets_receivedRST seq ts rtt bs = Some s' \<and> well_formed s' \<and> bs_span s' = bs_span bs \<and>
      table_of s' = table_rst (ts div bs_span bs) seq rtt (table_of bs)"
    using receivedRST_table [OF wf ts] well_formed_call [OF wf, of "CReceivedRST seq ts rtt"] ts
    unfolding run_call.simps call_ts_ok.simps by blast
qed



section \<open>What a probing client gets from the collection\<close>

lemma demo_well_formed: "well_formed demo_buckets"
  using reachable_buckets_inv [OF demo_buckets_reachable] by (simp add: well_formed_def)

lemma demo_span: "bs_span demo_buckets = 10"
  using reachable_buckets_inv [OF demo_buckets_reachable] by simp

text \<open>C1. The bucket collection refines the flat table keyed by span and sequence number: on a well
  formed collection and Unix timestamps each of \<open>put\<close>, \<open>delete\<close>, \<open>received\<close> and
  \<open>receivedRST\<close> succeeds, keeps the collection well formed, and acts on the abstraction
  \<open>table_of\<close> exactly as the corresponding table operation.\<close>

theorem buckets_refine_table:
  assumes "well_formed bs" "0 \<le> ts" "in_i64 ts"
  shows "(\<exists>bs'. buckets_put cp sp seq ts bs = Some bs' \<and> well_formed bs' \<and>
            table_of bs' = table_put (ts div bs_span bs) cp sp seq ts (table_of bs)) \<and>
         (\<exists>bs'. buckets_delete seq ts bs = Some bs' \<and> well_formed bs' \<and>
            table_of bs' = table_delete (ts div bs_span bs) seq (table_of bs)) \<and>
         (\<exists>bs'. buckets_received seq ts rtt bf bs = Some bs' \<and> well_formed bs' \<and>
            table_of bs' = table_received (ts div bs_span bs) seq rtt bf (table_of bs)) \<and>
         (\<exists>bs'. buckets_receivedRST seq ts rtt bs = Some bs' \<and> well_formed bs' \<and>
            table_of bs' = table_rst (ts div bs_span bs) seq rtt (table_of bs))"
  using bk.put_law [OF assms] bk.delete_law [OF assms] bk.received_law [OF assms]
    bk.rst_law [OF assms] by blast

theorem buckets_refine_table_witness:
  "\<exists>bs'. buckets_put 1 2 9 45 demo_buckets = Some bs' \<and> well_formed bs' \<and>
         table_of bs' = table_put 4 1 2 9 45 (table_of demo_buckets)"
  using buckets_refine_table [OF demo_well_formed, of 45 1 2 9] by (simp add: in_i64_def demo_span)

text \<open>A probe answered in its own span or in the next one is answered in place: after
  \<open>Put\<close> and \<open>Received\<close> its record has the ports and the timestamp it was sent with and the
  round-trip time of the response, and every other record is what it was before the probe, so the
  response adds no duplicate.\<close>

theorem response_in_next_span_is_matched:
  assumes "well_formed bs" "0 \<le> ts" "in_i64 ts" "0 \<le> ts'" "in_i64 ts'"
    and "ts' div bs_span bs = ts div bs_span bs \<or>
         ts' div bs_span bs = ts div bs_span bs + 1 \<and> table_of bs (ts' div bs_span bs, seq) = None"
  shows "\<exists>bs1 bs2 r. buckets_put cp sp seq ts bs = Some bs1 \<and>
     buckets_received seq ts' rtt bf bs1 = Some bs2 \<and> well_formed bs2 \<and>
     table_of bs2 (ts div bs_span bs, seq) = Some r \<and>
     r_clientPort r = cp \<and> r_serverPort r = sp \<and> r_ts r = ts \<and> r_rtt r = rtt \<and>
     (\<forall>key. key \<noteq> (ts div bs_span bs, seq) \<longrightarrow> table_of bs2 key = table_of bs key)"
  using assms by (rule bk.send_then_receive)

theorem response_in_next_span_is_matched_witness:
  "\<exists>bs1 bs2 r. buckets_put 43500 43501 9 45 demo_buckets = Some bs1 \<and>
     buckets_received 9 53 8 False bs1 = Some bs2 \<and>
     table_of bs2 (4, 9) = Some r \<and> r_rtt r = 8"
proof -
  have "table_of demo_buckets (5, 9) = None" by code_simp
  then show ?thesis
    using response_in_next_span_is_matched [OF demo_well_formed, of 45 53 9 43500 43501 8 False]
    by (auto simp: in_i64_def demo_span)
qed

text \<open>C39. A response two or more spans after its probe, as the echo replies of the pingers are booked
  by their receive time, is not matched: the probe stays unanswered (and will be counted as lost)
  and a second record with the same sequence number and no ports is created for the response.\<close>

theorem response_two_spans_late_duplicates:
  assumes "well_formed bs" "0 \<le> ts" "in_i64 ts" "0 \<le> ts'" "in_i64 ts'"
    and "ts div bs_span bs + 2 \<le> ts' div bs_span bs" and "\<forall>k. table_of bs (k, seq) = None"
  shows "\<exists>bs1 bs2 r d. buckets_put cp sp seq ts bs = Some bs1 \<and>
     buckets_received seq ts' rtt bf bs1 = Some bs2 \<and> well_formed bs2 \<and>
     table_of bs2 (ts div bs_span bs, seq) = Some r \<and> r_rtt r = rttUnset \<and>
     table_of bs2 (ts' div bs_span bs, seq) = Some d \<and> r_rtt d = rtt \<and> r_clientPort d = 0"
  using assms by (rule bk.late_response_duplicates)

theorem response_two_spans_late_duplicates_witness:
  "\<exists>bs1 bs2 r d. buckets_put 43500 43501 9 45 (newBuckets 10 5000 False) = Some bs1 \<and>
     buckets_received 9 63 18 False bs1 = Some bs2 \<and>
     table_of bs2 (4, 9) = Some r \<and> r_rtt r = rttUnset \<and> table_of bs2 (6, 9) = Some d \<and> r_rtt d = 18"
proof -
  have "well_formed (newBuckets 10 5000 False)"
    by (simp add: well_formed_def buckets_inv_new) (simp add: newBuckets_def)
  moreover have "table_of (newBuckets 10 5000 False) (k, 9) = None" for k
    by (simp add: table_of_def newBuckets_def)
  ultimately show ?thesis
    using response_two_spans_late_duplicates [of "newBuckets 10 5000 False" 45 63 9 43500 43501 18 False]
    by (auto simp: in_i64_def newBuckets_def)
qed

text \<open>A failed send leaves no trace: \<open>Put\<close> followed by \<open>Delete\<close> of a probe that was not
  recorded before gives back the same table.\<close>

theorem failed_send_leaves_no_record:
  assumes "well_formed bs" "0 \<le> ts" "in_i64 ts" "table_of bs (ts div bs_span bs, seq) = None"
  shows "\<exists>bs1 bs2. buckets_put cp sp seq ts bs = Some bs1 \<and> buckets_delete seq ts bs1 = Some bs2 \<and>
     well_formed bs2 \<and> table_of bs2 = table_of bs"
  using assms by (rule bk.put_then_delete)

theorem failed_send_leaves_no_record_witness:
  "\<exists>bs1 bs2. buckets_put 43500 43501 9 45 demo_buckets = Some bs1 \<and>
     buckets_delete 9 45 bs1 = Some bs2 \<and> table_of bs2 = table_of demo_buckets"
proof -
  have "table_of demo_buckets (4, 9) = None" by code_simp
  then show ?thesis
    using failed_send_leaves_no_record [OF demo_well_formed, of 45 9 43500 43501]
    by (auto simp: in_i64_def demo_span)
qed

end
