(* ===== verification/Stat_Summary.thy ===== *)
theory Stat_Summary
  imports Stat_Bucket "HOL-Library.Multiset"
begin

text \<open>
  The aggregation of one bucket (\<open>stat\<close> and \<open>serverStat\<close> of \<open>stat/bucket.go\<close>). The loop
  over the map of requests is a fold over the association list, in whatever order it has; the
  theorems show which parts of the result do not depend on that order. The loss rate is the exact
  quotient (the rounding of \<open>float64\<close> is not modelled); the sum of the round-trip times wraps at
  64 bits as in Go.
\<close>

record statResult =
  sr_sent :: int
  sr_received :: int
  sr_loss :: int
  sr_lossRate :: rat
  sr_rtt :: int
  sr_maxRTT :: int
  sr_synack :: int
  sr_rst :: int
  sr_lossPorts :: "(int, int) gomap"
  sr_bitflipPorts :: "(int, int) gomap"
  sr_lossPortsCount :: "(string, int) gomap"
  sr_bitflipPortsCount :: "(string, int) gomap"

definition statResult0 :: statResult where
  "statResult0 = \<lparr>sr_sent = 0, sr_received = 0, sr_loss = 0, sr_lossRate = 0, sr_rtt = 0,
     sr_maxRTT = 0, sr_synack = 0, sr_rst = 0, sr_lossPorts = [], sr_bitflipPorts = [],
     sr_lossPortsCount = [], sr_bitflipPortsCount = []\<rparr>"

text \<open>\<open>fmt.Appendf(buf, "%d-%d", clientPort, serverPort)\<close>\<close>

definition portKey :: "u16 \<Rightarrow> u16 \<Rightarrow> string" where
  "portKey c s = nat_dec (unat c) @ ''-'' @ nat_dec (unat s)"

definition stat_step :: "request \<Rightarrow> statResult \<Rightarrow> statResult" where
  "stat_step r res =
     (let res = res\<lparr>sr_sent := sr_sent res + 1\<rparr>;
          srcPort = uint (r_clientPort r); dstPort = uint (r_serverPort r);
          key = portKey (r_clientPort r) (r_serverPort r)
      in if r_rtt r \<noteq> rttUnset then
           let res = res\<lparr>sr_received := sr_received res + 1\<rparr>;
               res = (if r_isRst r then res\<lparr>sr_rst := sr_rst res + 1\<rparr>
                      else res\<lparr>sr_synack := sr_synack res + 1\<rparr>);
               res = res\<lparr>sr_rtt := i64 (sr_rtt res + r_rtt r)\<rparr>;
               res = (if r_hasBitflip r
                      then res\<lparr>sr_bitflipPorts := AList.update srcPort dstPort (sr_bitflipPorts res),
                               sr_bitflipPortsCount := map_incr key (sr_bitflipPortsCount res)\<rparr>
                      else res)
           in if r_rtt r > sr_maxRTT res then res\<lparr>sr_maxRTT := r_rtt r\<rparr> else res
         else res\<lparr>sr_lossPorts := AList.update srcPort dstPort (sr_lossPorts res),
                  sr_lossPortsCount := map_incr key (sr_lossPortsCount res)\<rparr>)"

definition stat_finish :: "statResult \<Rightarrow> statResult" where
  "stat_finish res =
     (let res = res\<lparr>sr_loss := sr_sent res - sr_received res\<rparr>;
          res = (if sr_sent res > 0
                 then res\<lparr>sr_lossRate := of_int (sr_loss res) / of_int (sr_sent res)\<rparr> else res)
      in if sr_received res > 0 then res\<lparr>sr_rtt := i64 (sr_rtt res sdiv sr_received res)\<rparr> else res)"

definition server_step :: "request \<Rightarrow> statResult \<Rightarrow> statResult" where
  "server_step r res =
     (if r_rtt r \<noteq> rttUnset then
        let res = res\<lparr>sr_received := sr_received res + 1, sr_rtt := i64 (sr_rtt res + r_rtt r)\<rparr>
        in if r_rtt r > sr_maxRTT res then res\<lparr>sr_maxRTT := r_rtt r\<rparr> else res
      else res)"

definition server_finish :: "statResult \<Rightarrow> statResult" where
  "server_finish res =
     (let res = res\<lparr>sr_loss := sr_sent res - sr_received res\<rparr>;
          res = (if sr_loss res < 0 then res\<lparr>sr_loss := 0\<rparr> else res);
          res = (if sr_sent res > 0
                 then res\<lparr>sr_lossRate := of_int (sr_loss res) / of_int (sr_sent res)\<rparr> else res)
      in if sr_received res > 0 then res\<lparr>sr_rtt := i64 (sr_rtt res sdiv sr_received res)\<rparr> else res)"

definition bucket_serverStat :: "bucket \<Rightarrow> statResult" where
  "bucket_serverStat b =
     (let sent = (if \<not> b_packetCountFixed b then int (length (b_requests b)) else uint (b_packetCount b))
      in server_finish (fold server_step (map snd (b_requests b)) (statResult0\<lparr>sr_sent := sent\<rparr>)))"

definition bucket_stat :: "bucket \<Rightarrow> statResult" where
  "bucket_stat b =
     (if length (b_requests b) = 0 then statResult0
      else if b_serverSide b then bucket_serverStat b
      else stat_finish (fold stat_step (map snd (b_requests b)) statResult0))"


section \<open>What the loop computes\<close>

definition answered :: "request \<Rightarrow> bool" where
  "answered r \<longleftrightarrow> r_rtt r \<noteq> rttUnset"

definition requests_of :: "bucket \<Rightarrow> request list" where
  "requests_of b = map snd (b_requests b)"

definition max0 :: "int list \<Rightarrow> int" where
  "max0 xs = fold max xs 0"

lemma stat_step_fields:
  "sr_sent (stat_step r res) = sr_sent res + 1"
  "sr_received (stat_step r res) = sr_received res + (if answered r then 1 else 0)"
  "sr_rst (stat_step r res) = sr_rst res + (if answered r \<and> r_isRst r then 1 else 0)"
  "sr_synack (stat_step r res) = sr_synack res + (if answered r \<and> \<not> r_isRst r then 1 else 0)"
  "sr_rtt (stat_step r res) = (if answered r then i64 (sr_rtt res + r_rtt r) else sr_rtt res)"
  "sr_maxRTT (stat_step r res) = (if answered r then max (r_rtt r) (sr_maxRTT res) else sr_maxRTT res)"
  "sr_loss (stat_step r res) = sr_loss res"
  "sr_lossRate (stat_step r res) = sr_lossRate res"
  "sr_lossPortsCount (stat_step r res) =
     (if answered r then sr_lossPortsCount res
      else map_incr (portKey (r_clientPort r) (r_serverPort r)) (sr_lossPortsCount res))"
  "sr_bitflipPortsCount (stat_step r res) =
     (if answered r \<and> r_hasBitflip r
      then map_incr (portKey (r_clientPort r) (r_serverPort r)) (sr_bitflipPortsCount res)
      else sr_bitflipPortsCount res)"
  by (simp_all add: stat_step_def answered_def Let_def)

lemma stat_fold_counts:
  "sr_sent (fold stat_step rs res) = sr_sent res + int (length rs)"
  "sr_received (fold stat_step rs res) = sr_received res + int (length (filter answered rs))"
  "sr_rst (fold stat_step rs res) = sr_rst res + int (length (filter (\<lambda>r. answered r \<and> r_isRst r) rs))"
  "sr_synack (fold stat_step rs res) = sr_synack res + int (length (filter (\<lambda>r. answered r \<and> \<not> r_isRst r) rs))"
  "sr_loss (fold stat_step rs res) = sr_loss res"
  by (induction rs arbitrary: res) (simp_all add: stat_step_fields)

lemma stat_fold_rtt:
  "in_i64 (sr_rtt res) \<Longrightarrow>
     sr_rtt (fold stat_step rs res) = i64 (sr_rtt res + sum_list (map r_rtt (filter answered rs)))"
  by (induction rs arbitrary: res) (simp_all add: stat_step_fields i64_id algebra_simps)

lemma stat_fold_max:
  "sr_maxRTT (fold stat_step rs res) = fold max (map r_rtt (filter answered rs)) (sr_maxRTT res)"
  by (induction rs arbitrary: res) (simp_all add: stat_step_fields)

lemma stat_fold_loss_ports:
  "map_get0 (sr_lossPortsCount (fold stat_step rs res)) key = map_get0 (sr_lossPortsCount res) key +
     int (length (filter (\<lambda>r. \<not> answered r \<and> portKey (r_clientPort r) (r_serverPort r) = key) rs))"
  by (induction rs arbitrary: res) (auto simp: stat_step_fields map_get0_incr)

lemma stat_fold_bitflip_ports:
  "map_get0 (sr_bitflipPortsCount (fold stat_step rs res)) key = map_get0 (sr_bitflipPortsCount res) key +
     int (length (filter (\<lambda>r. answered r \<and> r_hasBitflip r \<and>
        portKey (r_clientPort r) (r_serverPort r) = key) rs))"
  by (induction rs arbitrary: res) (auto simp: stat_step_fields map_get0_incr)

lemma stat_finish_fields:
  "sr_sent (stat_finish res) = sr_sent res" "sr_received (stat_finish res) = sr_received res"
  "sr_loss (stat_finish res) = sr_sent res - sr_received res"
  "sr_lossRate (stat_finish res) =
     (if sr_sent res > 0 then of_int (sr_sent res - sr_received res) / of_int (sr_sent res) else sr_lossRate res)"
  "sr_rtt (stat_finish res) =
     (if sr_received res > 0 then i64 (sr_rtt res sdiv sr_received res) else sr_rtt res)"
  "sr_maxRTT (stat_finish res) = sr_maxRTT res" "sr_synack (stat_finish res) = sr_synack res"
  "sr_rst (stat_finish res) = sr_rst res"
  "sr_lossPortsCount (stat_finish res) = sr_lossPortsCount res"
  "sr_bitflipPortsCount (stat_finish res) = sr_bitflipPortsCount res"
  by (simp_all add: stat_finish_def Let_def)

lemma portKey_inject [simp]: "portKey c s = portKey c' s' \<longleftrightarrow> c = c' \<and> s = s'"
proof
  assume eq: "portKey c s = portKey c' s'"
  have "Split CHR ''-'' (portKey x y) = [nat_dec (unat x), nat_dec (unat y)]" for x y
    by (simp add: portKey_def Split_append_sep Split_nosep nat_dec_not_in)
  then have "[nat_dec (unat c), nat_dec (unat s)] = [nat_dec (unat c'), nat_dec (unat s')]"
    using eq by metis
  then show "c = c' \<and> s = s'" by (simp add: word_unat_eq_iff)
qed simp

lemma filter_partition: "length (filter P xs) + length (filter (\<lambda>x. \<not> P x) xs) = length xs"
  by (induction xs) auto

lemma filter_split_conj:
  "length (filter (\<lambda>r. P r \<and> Q r) xs) + length (filter (\<lambda>r. P r \<and> \<not> Q r) xs) = length (filter P xs)"
  by (induction xs) auto

lemma bucket_stat_client:
  assumes "b_requests b \<noteq> []" "\<not> b_serverSide b"
  shows "bucket_stat b = stat_finish (fold stat_step (requests_of b) statResult0)"
  using assms by (simp add: bucket_stat_def requests_of_def)

lemmas stat_simps = bucket_stat_client stat_finish_fields stat_fold_counts stat_fold_max
  stat_fold_loss_ports stat_fold_bitflip_ports

text \<open>C27. The statistics of a client-side bucket are exact: sent is the number of recorded probes, loss
  the number still unanswered, sent = received + loss, received = SYN-ACK + RST, and the loss rate
  is the quotient loss / sent, between 0 and 1.\<close>

theorem client_stat_counts:
  assumes "b_requests b \<noteq> []" "\<not> b_serverSide b"
  shows "sr_sent (bucket_stat b) = int (length (b_requests b)) \<and>
     sr_loss (bucket_stat b) = int (length (filter (\<lambda>r. r_rtt r = rttUnset) (requests_of b))) \<and>
     sr_sent (bucket_stat b) = sr_received (bucket_stat b) + sr_loss (bucket_stat b) \<and>
     sr_received (bucket_stat b) = sr_synack (bucket_stat b) + sr_rst (bucket_stat b) \<and>
     sr_lossRate (bucket_stat b) = of_int (sr_loss (bucket_stat b)) / of_int (sr_sent (bucket_stat b)) \<and>
     0 \<le> sr_lossRate (bucket_stat b) \<and> sr_lossRate (bucket_stat b) \<le> 1"
proof -
  let ?rs = "requests_of b"
  have len: "length ?rs = length (b_requests b)" "0 < length ?rs"
    using assms(1) by (simp_all add: requests_of_def)
  have part: "length (filter answered ?rs) + length (filter (\<lambda>r. r_rtt r = rttUnset) ?rs) = length ?rs"
    using filter_partition [of answered ?rs] by (simp add: answered_def)
  have "int (length (filter (\<lambda>r. answered r \<and> \<not> r_isRst r) ?rs)) +
      int (length (filter (\<lambda>r. answered r \<and> r_isRst r) ?rs)) = int (length (filter answered ?rs))"
    using filter_split_conj [of answered r_isRst ?rs] by simp
  then show ?thesis
    using len part by (simp add: stat_simps assms statResult0_def)
qed


text \<open>A bucket the witnesses use: one answered probe, one reset, one lost.\<close>

definition demo_bucket :: bucket where
  "demo_bucket = bucket_receivedRST 3 40 (bucket_received 1 20 False
     (bucket_put 43501 43500 3 7 (bucket_put 43500 43501 2 6 (bucket_put 43500 43500 1 5
       (newBucket 0 10 5000 False)))))"

lemma demo_bucket_nonempty: "b_requests demo_bucket \<noteq> []" "\<not> b_serverSide demo_bucket"
  by code_simp+

theorem client_stat_counts_witness:
  "sr_sent (bucket_stat demo_bucket) = 3 \<and> sr_loss (bucket_stat demo_bucket) = 1 \<and>
   sr_lossRate (bucket_stat demo_bucket) = 1 / 3"
proof -
  have "length (b_requests demo_bucket) = 3" by code_simp
  moreover have "length (filter (\<lambda>r. r_rtt r = rttUnset) (requests_of demo_bucket)) = 1" by code_simp
  ultimately show ?thesis using client_stat_counts [OF demo_bucket_nonempty] by simp
qed

text \<open>Per port pair the counts are exact: \<open>lossPortsCount\<close> and \<open>bitflipPortsCount\<close>, read under
  the rendered key of a pair, are the numbers of unanswered and of corrupted probes on exactly that
  pair: the keys of different pairs never coincide.\<close>

theorem per_port_counts:
  assumes "b_requests b \<noteq> []" "\<not> b_serverSide b"
  shows "map_get0 (sr_lossPortsCount (bucket_stat b)) (portKey c s) =
       int (length (filter (\<lambda>r. \<not> answered r \<and> r_clientPort r = c \<and> r_serverPort r = s) (requests_of b))) \<and>
     map_get0 (sr_bitflipPortsCount (bucket_stat b)) (portKey c s) =
       int (length (filter (\<lambda>r. answered r \<and> r_hasBitflip r \<and> r_clientPort r = c \<and> r_serverPort r = s)
         (requests_of b)))"
  by (simp add: stat_simps assms statResult0_def map_get0_def [of "[]"])

theorem per_port_counts_witness:
  "map_get0 (sr_lossPortsCount (bucket_stat demo_bucket)) (portKey 43500 43501) = 1"
proof -
  have "length (filter (\<lambda>r. \<not> answered r \<and> r_clientPort r = 43500 \<and> r_serverPort r = 43501)
      (requests_of demo_bucket)) = 1" by code_simp
  then show ?thesis using per_port_counts [OF demo_bucket_nonempty, of 43500 43501] by simp
qed

lemma max0_upper: "x \<in> set xs \<Longrightarrow> x \<le> max0 xs"
proof (induction xs rule: rev_induct)
  case (snoc y ys)
  then show ?case by (auto simp: max0_def max_def)
qed simp

lemma max0_nonneg: "0 \<le> max0 xs"
  by (induction xs rule: rev_induct) (auto simp: max0_def max_def)

lemma sum_list_le_bound: "\<forall>x \<in> set xs. x \<le> m \<Longrightarrow> sum_list xs \<le> int (length xs) * m" for m :: int
  by (induction xs) (auto simp: algebra_simps)

text \<open>The reported round-trip times are sound when the sum fits into 64 bits: the maximum is an
  upper bound of every answered probe, and the average (the truncated quotient) lies between 0 and
  the maximum.\<close>

theorem rtt_average_bounded:
  assumes "b_requests b \<noteq> []" "\<not> b_serverSide b"
    and nn: "\<forall>r \<in> set (requests_of b). answered r \<longrightarrow> 0 \<le> r_rtt r"
    and fits: "sum_list (map r_rtt (filter answered (requests_of b))) < 2 ^ 63"
    and some: "filter answered (requests_of b) \<noteq> []"
  shows "0 \<le> sr_rtt (bucket_stat b) \<and> sr_rtt (bucket_stat b) \<le> sr_maxRTT (bucket_stat b) \<and>
     (\<forall>r \<in> set (requests_of b). answered r \<longrightarrow> r_rtt r \<le> sr_maxRTT (bucket_stat b)) \<and>
     sr_rtt (bucket_stat b) =
       sum_list (map r_rtt (filter answered (requests_of b))) div int (length (filter answered (requests_of b)))"
proof -
  let ?xs = "map r_rtt (filter answered (requests_of b))"
  let ?n = "int (length (filter answered (requests_of b)))"
  have n: "0 < ?n" using some by simp
  have nn': "0 \<le> sum_list ?xs" using nn by (intro sum_list_nonneg) auto
  have mx: "sr_maxRTT (bucket_stat b) = max0 ?xs"
    by (simp add: stat_simps assms statResult0_def max0_def)
  have ub: "\<forall>x \<in> set ?xs. x \<le> max0 ?xs" using max0_upper by blast
  have le: "sum_list ?xs div ?n \<le> max0 ?xs"
    using zdiv_mono1 [OF sum_list_le_bound [OF ub] n] n by simp
  have q: "0 \<le> sum_list ?xs div ?n" using nn' n by (simp add: pos_imp_zdiv_nonneg_iff)
  have "sum_list ?xs div ?n \<le> sum_list ?xs" using sdiv_le_self [OF nn' n] nn' n by (simp add: sdiv_nonneg)
  then have i: "i64 (sum_list ?xs div ?n) = sum_list ?xs div ?n"
    using q fits by (intro i64_id) (simp add: in_i64_def)
  have "i64 (sum_list ?xs) = sum_list ?xs" using nn' fits by (intro i64_id) (simp add: in_i64_def)
  then have "sr_rtt (bucket_stat b) = sum_list ?xs div ?n"
    using n nn' i by (simp add: stat_simps assms statResult0_def stat_fold_rtt in_i64_def sdiv_nonneg)
  then show ?thesis using q le mx ub by auto
qed

theorem rtt_average_bounded_witness:
  "sr_rtt (bucket_stat demo_bucket) = 30 \<and> sr_rtt (bucket_stat demo_bucket) \<le> sr_maxRTT (bucket_stat demo_bucket)"
proof -
  have "map r_rtt (filter answered (requests_of demo_bucket)) = [20, 40]" by code_simp
  moreover have "\<forall>r \<in> set (requests_of demo_bucket). answered r \<longrightarrow> 0 \<le> r_rtt r" by code_simp
  moreover have "length (filter answered (requests_of demo_bucket)) = 2" by code_simp
  ultimately show ?thesis
    using rtt_average_bounded [OF demo_bucket_nonempty] by auto
qed


section \<open>Iteration order\<close>

lemma fold_max_perm: "mset xs = mset ys \<Longrightarrow> fold max xs (a::int) = fold max ys a"
  by (rule fold_permuted_eq [where P = "\<lambda>_. True"]) (auto simp: max.left_commute)

text \<open>The iteration order of the Go map does not matter for the reported numbers: two buckets
  whose requests are permutations of each other have the same sent, received, loss, loss rate,
  average and maximum round-trip time, SYN-ACK and RST counts and the same per-port counts.\<close>

theorem stat_order_independent:
  assumes perm: "mset (requests_of b) = mset (requests_of b')"
    and "\<not> b_serverSide b" "\<not> b_serverSide b'" "b_requests b \<noteq> []"
  shows "sr_sent (bucket_stat b) = sr_sent (bucket_stat b') \<and>
     sr_received (bucket_stat b) = sr_received (bucket_stat b') \<and>
     sr_loss (bucket_stat b) = sr_loss (bucket_stat b') \<and>
     sr_lossRate (bucket_stat b) = sr_lossRate (bucket_stat b') \<and>
     sr_rtt (bucket_stat b) = sr_rtt (bucket_stat b') \<and>
     sr_maxRTT (bucket_stat b) = sr_maxRTT (bucket_stat b') \<and>
     sr_synack (bucket_stat b) = sr_synack (bucket_stat b') \<and>
     sr_rst (bucket_stat b) = sr_rst (bucket_stat b') \<and>
     map_get0 (sr_lossPortsCount (bucket_stat b)) = map_get0 (sr_lossPortsCount (bucket_stat b')) \<and>
     map_get0 (sr_bitflipPortsCount (bucket_stat b)) = map_get0 (sr_bitflipPortsCount (bucket_stat b'))"
proof -
  let ?x = "requests_of b" and ?y = "requests_of b'"
  have ne: "b_requests b' \<noteq> []"
    using assms(4) mset_eq_length [OF perm] by (auto simp: requests_of_def)
  then have re: "?y \<noteq> []" by (simp add: requests_of_def)
  have len: "length (filter P ?x) = length (filter P ?y)" for P
    using perm by (metis mset_filter size_mset)
  have all: "length ?x = length ?y" using perm by (rule mset_eq_length)
  have rtts: "mset (map r_rtt (filter answered ?x)) = mset (map r_rtt (filter answered ?y))"
    using perm by (simp add: mset_filter)
  then have sum: "sum_list (map r_rtt (filter answered ?x)) = sum_list (map r_rtt (filter answered ?y))"
    by (metis sum_mset_sum_list)
  have mx: "fold max (map r_rtt (filter answered ?x)) 0 = fold max (map r_rtt (filter answered ?y)) 0"
    using rtts by (rule fold_max_perm)
  show ?thesis
    using assms(2-4) ne re
    by (simp add: stat_simps fun_eq_iff statResult0_def stat_fold_rtt in_i64_def len all sum mx)
qed

theorem stat_order_independent_witness:
  "sr_rtt (bucket_stat demo_bucket) =
   sr_rtt (bucket_stat (demo_bucket\<lparr>b_requests := rev (b_requests demo_bucket)\<rparr>))"
  using stat_order_independent [of demo_bucket "demo_bucket\<lparr>b_requests := rev (b_requests demo_bucket)\<rparr>"]
    demo_bucket_nonempty
  by (simp add: requests_of_def flip: rev_map)



section \<open>The server side\<close>

lemma server_fold_counts:
  "sr_sent (fold server_step rs res) = sr_sent res"
  "sr_received (fold server_step rs res) = sr_received res + int (length (filter answered rs))"
  "sr_lossRate (fold server_step rs res) = sr_lossRate res"
  by (induction rs arbitrary: res) (simp_all add: server_step_def answered_def Let_def)

lemma server_finish_fields:
  "sr_sent (server_finish res) = sr_sent res" "sr_received (server_finish res) = sr_received res"
  "sr_loss (server_finish res) = max 0 (sr_sent res - sr_received res)"
  "sr_lossRate (server_finish res) = (if sr_sent res > 0
     then of_int (max 0 (sr_sent res - sr_received res)) / of_int (sr_sent res) else sr_lossRate res)"
  by (simp_all add: server_finish_def Let_def max_def)

lemma serverStat_fields:
  fixes b :: bucket
  defines "sent \<equiv> (if b_packetCountFixed b then uint (b_packetCount b) else int (length (b_requests b)))"
    and "got \<equiv> int (length (filter answered (requests_of b)))"
  shows "sr_sent (bucket_serverStat b) = sent" "sr_received (bucket_serverStat b) = got"
    "sr_loss (bucket_serverStat b) = max 0 (sent - got)"
    "sr_lossRate (bucket_serverStat b) = (if sent > 0 then of_int (max 0 (sent - got)) / of_int sent else 0)"
  by (simp_all add: bucket_serverStat_def sent_def got_def requests_of_def Let_def server_finish_fields
      server_fold_counts statResult0_def)

text \<open>On the server side the loss is measured against the count the client reported for the span
  (when it has arrived) and clamped at 0: it is \<open>max 0 (sent - received)\<close>, it never exceeds sent,
  and the loss rate is between 0 and 1; before the count arrives a bucket in which every recorded
  probe was received reports no loss.\<close>

theorem server_stat_loss:
  assumes "b_requests b \<noteq> []" "b_serverSide b"
  shows "sr_sent (bucket_stat b) =
       (if b_packetCountFixed b then uint (b_packetCount b) else int (length (b_requests b))) \<and>
     sr_loss (bucket_stat b) = max 0 (sr_sent (bucket_stat b) - sr_received (bucket_stat b)) \<and>
     0 \<le> sr_loss (bucket_stat b) \<and> sr_loss (bucket_stat b) \<le> sr_sent (bucket_stat b) \<and>
     (0 < sr_sent (bucket_stat b) \<longrightarrow>
        0 \<le> sr_lossRate (bucket_stat b) \<and> sr_lossRate (bucket_stat b) \<le> 1) \<and>
     (\<not> b_packetCountFixed b \<and> (\<forall>r \<in> set (requests_of b). answered r) \<longrightarrow> sr_loss (bucket_stat b) = 0)"
proof -
  have e: "bucket_stat b = bucket_serverStat b" using assms by (simp add: bucket_stat_def)
  have len: "length (filter answered (requests_of b)) \<le> length (b_requests b)"
    using length_filter_le [of answered "requests_of b"] by (simp add: requests_of_def)
  have all: "\<forall>r \<in> set (requests_of b). answered r \<Longrightarrow>
      length (filter answered (requests_of b)) = length (b_requests b)"
    by (simp add: requests_of_def)
  show ?thesis
    unfolding e serverStat_fields using len all by (auto simp: max_def)
qed

theorem server_stat_loss_witness:
  "sr_loss (bucket_stat (demo_bucket\<lparr>b_serverSide := True, b_packetCountFixed := True, b_packetCount := 7\<rparr>)) = 5"
proof -
  let ?b = "demo_bucket\<lparr>b_serverSide := True, b_packetCountFixed := True, b_packetCount := 7\<rparr>"
  have "b_requests ?b \<noteq> []" "b_serverSide ?b" by code_simp+
  moreover have "sr_received (bucket_stat ?b) = 2" by code_simp
  ultimately show ?thesis using server_stat_loss [of ?b] by simp
qed

end
