(* ===== verification/Stat_Report.thy ===== *)
theory Stat_Report
  imports Stat_Table Stat_Summary
begin

text \<open>
  The reporting side of the package \<open>stat\<close>: \<open>udpStat\<close> with \<open>statOnce\<close> and
  \<open>computeServerLossPorts\<close> (\<open>stat/sender.go\<close>), the log sender, and the \<open>Processor\<close>
  (\<open>stat/processor.go\<close>). The clock is an argument (\<open>now\<close>, Unix nanoseconds); what a
  sender is given is the list of results a call returns.
\<close>

section \<open>Results and the log sender\<close>

record StatResult =
  R_Timestamp :: int
  R_ClientAddr :: string
  R_ServerAddr :: string
  R_ServerSide :: bool
  R_Sent :: int
  R_Received :: int
  R_Loss :: int
  R_LossRate :: rat
  R_AvgRTT :: int
  R_MaxRTT :: int
  R_SynAckCount :: int
  R_RSTCount :: int
  R_LossPorts :: "(int, int) gomap"
  R_BitflipPorts :: "(int, int) gomap"
  R_LossPortsCount :: "(string, int) gomap"
  R_BitflipPortsCount :: "(string, int) gomap"

datatype LogLevel = INFO | WARN | ERRO

text \<open>The levels ordered by severity.\<close>

fun severity :: "LogLevel \<Rightarrow> nat" where
  "severity INFO = 0" | "severity WARN = 1" | "severity ERRO = 2"

lemma severity_inject: "severity a = severity b \<longleftrightarrow> a = b"
  by (cases a; cases b) simp_all

instantiation LogLevel :: linorder
begin
definition less_eq_LogLevel :: "LogLevel \<Rightarrow> LogLevel \<Rightarrow> bool" where
  "less_eq_LogLevel a b \<longleftrightarrow> severity a \<le> severity b"
definition less_LogLevel :: "LogLevel \<Rightarrow> LogLevel \<Rightarrow> bool" where
  "less_LogLevel a b \<longleftrightarrow> severity a < severity b"
instance
  by standard (auto simp: less_eq_LogLevel_def less_LogLevel_def severity_inject)
end

text \<open>A log call is its level, its kind and the values it prints: the counters, the counters with
  the average round-trip time, or the map of lost ports.\<close>

datatype log_line =
    CountsLine LogLevel int string string int int int rat
  | CountsRttLine LogLevel int string string int int int rat int
  | LossPortsLine LogLevel int string string "(int, int) gomap"

definition LogSender_Send :: "bool \<Rightarrow> StatResult \<Rightarrow> log_line list" where
  "LogSender_Send verbose r =
     (if R_ServerSide r then
        if R_Loss r = 0 then
          [CountsLine INFO (R_Timestamp r) (R_ClientAddr r) (R_ServerAddr r) (R_Sent r) (R_Received r)
             (R_Loss r) (R_LossRate r * 100)]
        else
          [CountsLine WARN (R_Timestamp r) (R_ClientAddr r) (R_ServerAddr r) (R_Sent r) (R_Received r)
             (R_Loss r) (R_LossRate r * 100)] @
          (if verbose then [LossPortsLine WARN (R_Timestamp r) (R_ClientAddr r) (R_ServerAddr r) (R_LossPorts r)]
           else [])
      else if R_Loss r = 0 then
        [CountsRttLine INFO (R_Timestamp r) (R_ClientAddr r) (R_ServerAddr r) (R_Sent r) (R_Received r)
           (R_Loss r) (R_LossRate r * 100) (R_AvgRTT r)]
      else
        [CountsRttLine WARN (R_Timestamp r) (R_ClientAddr r) (R_ServerAddr r) (R_Sent r) (R_Received r)
           (R_Loss r) (R_LossRate r * 100) (R_AvgRTT r)] @
        (if verbose then [LossPortsLine WARN (R_Timestamp r) (R_ClientAddr r) (R_ServerAddr r) (R_LossPorts r)]
         else []))"


section \<open>udpStat\<close>

record udpStat =
  us_clientAddr :: string
  us_serverAddr :: string
  us_clientPortRange :: PortRange
  us_serverPortRange :: PortRange
  us_lastID :: int
  us_serverSide :: bool
  us_bkts :: buckets
  us_rateInSpan :: int
  us_span :: int
  us_delay :: int
  us_hasSender :: bool

definition NewStat :: "string \<Rightarrow> string \<Rightarrow> PortRange \<Rightarrow> PortRange \<Rightarrow> int \<Rightarrow> int \<Rightarrow> int \<Rightarrow> bool \<Rightarrow> udpStat" where
  "NewStat clientAddr serverAddr cr sr rateInSpan spn delay hasSender =
     \<lparr>us_clientAddr = clientAddr, us_serverAddr = serverAddr, us_clientPortRange = cr,
      us_serverPortRange = sr, us_lastID = 0, us_serverSide = False,
      us_bkts = newBuckets spn rateInSpan False, us_rateInSpan = rateInSpan, us_span = spn,
      us_delay = delay, us_hasSender = hasSender\<rparr>"

definition NewServerStat :: "string \<Rightarrow> string \<Rightarrow> PortRange \<Rightarrow> PortRange \<Rightarrow> int \<Rightarrow> int \<Rightarrow> int \<Rightarrow> bool \<Rightarrow> udpStat" where
  "NewServerStat clientAddr serverAddr cr sr rateInSpan spn delay hasSender =
     \<lparr>us_clientAddr = clientAddr, us_serverAddr = serverAddr, us_clientPortRange = cr,
      us_serverPortRange = sr, us_lastID = 0, us_serverSide = True,
      us_bkts = newBuckets spn rateInSpan True, us_rateInSpan = rateInSpan, us_span = spn,
      us_delay = delay, us_hasSender = hasSender\<rparr>"

text \<open>The recording methods delegate to the collection.\<close>

definition lift_bkts :: "(buckets \<Rightarrow> buckets option) \<Rightarrow> udpStat \<Rightarrow> udpStat option" where
  "lift_bkts f s = map_option (\<lambda>bs. s\<lparr>us_bkts := bs\<rparr>) (f (us_bkts s))"

definition Stat_Put :: "u16 \<Rightarrow> u16 \<Rightarrow> u64 \<Rightarrow> int \<Rightarrow> udpStat \<Rightarrow> udpStat option" where
  "Stat_Put clientPort serverPort seq ts = lift_bkts (buckets_put clientPort serverPort seq ts)"

definition Stat_Delete :: "u64 \<Rightarrow> int \<Rightarrow> udpStat \<Rightarrow> udpStat option" where
  "Stat_Delete seq ts = lift_bkts (buckets_delete seq ts)"

definition Stat_Received :: "u64 \<Rightarrow> int \<Rightarrow> int \<Rightarrow> bool \<Rightarrow> udpStat \<Rightarrow> udpStat option" where
  "Stat_Received seq ts rtt hasBitflip = lift_bkts (buckets_received seq ts rtt hasBitflip)"

definition Stat_ReceivedRST :: "u64 \<Rightarrow> int \<Rightarrow> int \<Rightarrow> udpStat \<Rightarrow> udpStat option" where
  "Stat_ReceivedRST seq ts rtt = lift_bkts (buckets_receivedRST seq ts rtt)"

definition Stat_ReceivedAndFix ::
    "u64 \<Rightarrow> int \<Rightarrow> int \<Rightarrow> u32 \<Rightarrow> u16 \<Rightarrow> u16 \<Rightarrow> bool \<Rightarrow> udpStat \<Rightarrow> udpStat option" where
  "Stat_ReceivedAndFix seq ts rtt lastSentCount lastStartSrcPort lastStartDstPort hasBitflip =
     lift_bkts (buckets_receivedAndFix seq ts rtt lastSentCount lastStartSrcPort lastStartDstPort hasBitflip)"


subsection \<open>computeServerLossPorts\<close>

type_synonym portPair = "u16 \<times> u16"

fun expected_loop ::
    "PortRange \<Rightarrow> PortRange \<Rightarrow> nat \<Rightarrow> portPair \<Rightarrow> (portPair, int) gomap \<Rightarrow> (portPair, int) gomap" where
  "expected_loop cr sr 0 p m = m"
| "expected_loop cr sr (Suc i) p m =
     (let p' = GetNextPorts (fst p) (snd p) cr sr in expected_loop cr sr i p' (map_incr p' m))"

definition received_counts :: "request list \<Rightarrow> (portPair, int) gomap" where
  "received_counts rs =
     fold (\<lambda>r m. if r_rtt r \<noteq> rttUnset \<and> r_clientPort r \<noteq> 0
                 then map_incr (r_clientPort r, r_serverPort r) m else m) rs []"

definition loss_step ::
    "(portPair, int) gomap \<Rightarrow> portPair \<times> int \<Rightarrow> (int, int) gomap \<times> (string, int) gomap \<Rightarrow>
       (int, int) gomap \<times> (string, int) gomap" where
  "loss_step receivedCounts e acc =
     (case e of (pp, expected) \<Rightarrow>
        let received = map_get0 receivedCounts pp
        in if received < expected
           then (AList.update (uint (fst pp)) (uint (snd pp)) (fst acc),
                 AList.update (portKey (fst pp) (snd pp)) (expected - received) (snd acc))
           else acc)"

definition computeServerLossPorts :: "udpStat \<Rightarrow> bucket \<Rightarrow> (int, int) gomap \<times> (string, int) gomap" where
  "computeServerLossPorts s b =
     (if \<not> b_packetCountFixed b \<or> b_packetCount b = 0 \<or> (b_startSrcPort b = 0 \<and> b_startDstPort b = 0)
      then ([], [])
      else
        let expectedCounts = expected_loop (us_clientPortRange s) (us_serverPortRange s)
              (unat (b_packetCount b)) (b_startSrcPort b, b_startDstPort b) [];
            receivedCounts = received_counts (map snd (b_requests b))
        in fold (loss_step receivedCounts) expectedCounts ([], []))"


subsection \<open>statOnce\<close>

text \<open>The loop that drops buckets already reported; \<open>None\<close> if it never ends.\<close>

partial_function (option) drop_reported :: "int \<Rightarrow> buckets \<Rightarrow> (buckets \<times> bucket option) option" where
  "drop_reported lastID bs =
     (case buckets_oldest bs of
        None \<Rightarrow> Some (bs, None)
      | Some b \<Rightarrow>
          if b_id b \<le> lastID then drop_reported lastID (buckets_remove (b_id b) bs)
          else Some (bs, Some b))"

definition make_result :: "udpStat \<Rightarrow> bucket \<Rightarrow> statResult \<Rightarrow> StatResult" where
  "make_result s b sr =
     \<lparr>R_Timestamp = b_startNano b, R_ClientAddr = us_clientAddr s, R_ServerAddr = us_serverAddr s,
      R_ServerSide = us_serverSide s, R_Sent = sr_sent sr, R_Received = sr_received sr,
      R_Loss = sr_loss sr, R_LossRate = sr_lossRate sr, R_AvgRTT = sr_rtt sr, R_MaxRTT = sr_maxRTT sr,
      R_SynAckCount = sr_synack sr, R_RSTCount = sr_rst sr, R_LossPorts = sr_lossPorts sr,
      R_BitflipPorts = sr_bitflipPorts sr, R_LossPortsCount = sr_lossPortsCount sr,
      R_BitflipPortsCount = sr_bitflipPortsCount sr\<rparr>"

definition bucket_result :: "udpStat \<Rightarrow> bucket \<Rightarrow> statResult" where
  "bucket_result s b =
     (let sr = bucket_stat b
      in if us_serverSide s
         then sr\<lparr>sr_lossPorts := fst (computeServerLossPorts s b),
                 sr_lossPortsCount := snd (computeServerLossPorts s b)\<rparr>
         else sr)"

definition too_young :: "int \<Rightarrow> udpStat \<Rightarrow> bucket \<Rightarrow> bool option" where
  "too_young now s b =
     (if us_lastID s > 0 \<and> b_id b > 0
      then if us_span s = 0 then None else Some (i64 (i64 (now - us_delay s) sdiv us_span s) < b_id b)
      else Some False)"

definition statOnce :: "int \<Rightarrow> udpStat \<Rightarrow> (udpStat \<times> StatResult list) option" where
  "statOnce now s =
     (case buckets_oldest (us_bkts s) of
        None \<Rightarrow> Some (s, [])
      | Some b0 \<Rightarrow>
          (case too_young now s b0 of
             None \<Rightarrow> None
           | Some True \<Rightarrow> Some (s, [])
           | Some False \<Rightarrow>
               (case drop_reported (us_lastID s) (us_bkts s) of
                  None \<Rightarrow> None
                | Some (bs, None) \<Rightarrow> Some (s\<lparr>us_bkts := bs\<rparr>, [])
                | Some (bs, Some b) \<Rightarrow>
                    (let s1 = s\<lparr>us_bkts := bs, us_lastID := b_id b\<rparr>;
                         out = (if us_lastID s1 > 0 \<and> us_hasSender s1
                                then [make_result s1 b (bucket_result s1 b)] else [])
                     in Some (s1\<lparr>us_bkts := buckets_remove (b_id b) bs\<rparr>, out)))))"


section \<open>The processor\<close>

record Processor =
  p_stats :: "udpStat list"
  p_span :: int
  p_delay :: int

definition NewProcessor :: "int \<Rightarrow> int \<Rightarrow> Processor" where
  "NewProcessor spn delay = \<lparr>p_stats = [], p_span = spn, p_delay = delay\<rparr>"

definition AddStat :: "udpStat \<Rightarrow> Processor \<Rightarrow> Processor" where
  "AddStat s p = p\<lparr>p_stats := p_stats p @ [s]\<rparr>"

text \<open>One tick: every registered stat reports once, in registration order; \<open>now\<close> gives the clock
  reading each of them takes.\<close>

fun runOnce_loop :: "(nat \<Rightarrow> int) \<Rightarrow> nat \<Rightarrow> udpStat list \<Rightarrow> (udpStat list \<times> StatResult list) option" where
  "runOnce_loop now i [] = Some ([], [])"
| "runOnce_loop now i (s # ss) =
     (case statOnce (now i) s of
        None \<Rightarrow> None
      | Some (s', out) \<Rightarrow>
          (case runOnce_loop now (Suc i) ss of
             None \<Rightarrow> None
           | Some (ss', outs) \<Rightarrow> Some (s' # ss', out @ outs)))"

definition runOnce :: "(nat \<Rightarrow> int) \<Rightarrow> Processor \<Rightarrow> (Processor \<times> StatResult list) option" where
  "runOnce now p =
     map_option (\<lambda>(ss, outs). (p\<lparr>p_stats := ss\<rparr>, outs)) (runOnce_loop now 0 (p_stats p))"



section \<open>Reports are total, fresh and in order\<close>

subsection \<open>The display time of a bucket\<close>

definition starts_ok :: "buckets \<Rightarrow> bool" where
  "starts_ok bs \<longleftrightarrow> map_all (\<lambda>k b. b_startNano b = k * bs_span bs) (bs_buckets bs)"

lemma startNano_ops [simp]:
  "b_startNano (bucket_put cp sp seq ts b) = b_startNano b"
  "b_startNano (bucket_delete seq b) = b_startNano b"
  "b_startNano (bucket_received seq rtt bf b) = b_startNano b"
  "b_startNano (bucket_receivedRST seq rtt b) = b_startNano b"
  by (simp_all add: bucket_put_def bucket_delete_def bucket_received_def bucket_receivedRST_def
      split: option.splits)

lemma starts_ok_modify:
  assumes "starts_ok bs" "\<And>b. b_startNano (f b) = b_startNano b"
  shows "starts_ok (modify_bucket k f bs)"
  using assms unfolding starts_ok_def span_modify
  by (auto simp: modify_bucket_def intro!: map_all_update dest: map_all_lookup split: option.splits)

lemma starts_ok_ensure:
  assumes "starts_ok bs" "in_i64 (k * bs_span bs)"
  shows "starts_ok (ensure_bucket k bs)"
  using assms unfolding starts_ok_def span_ensure
  by (auto simp: ensure_bucket_def newBucket_def i64_id intro!: map_all_update split: option.splits)

lemma starts_ok_remove: "starts_ok bs \<Longrightarrow> starts_ok (buckets_remove k bs)"
  by (simp add: starts_ok_def buckets_remove_def Let_def map_all_delete)

lemma in_i64_bucket_start:
  assumes "0 < spn" "0 \<le> ts" "in_i64 ts" shows "in_i64 (ts div spn * spn)"
proof -
  have "0 \<le> ts mod spn" "ts div spn * spn = ts - ts mod spn"
    using assms by (simp_all add: minus_mod_eq_div_mult [symmetric])
  moreover have "0 \<le> ts div spn * spn" using assms by (simp add: pos_imp_zdiv_nonneg_iff)
  moreover have "ts < 2 ^ 63" using assms by (simp add: in_i64_def)
  ultimately show ?thesis unfolding in_i64_def by linarith
qed

lemmas starts_intros = starts_ok_modify starts_ok_ensure starts_ok_remove

lemma run_call_starts:
  assumes wf: "well_formed bs" and st: "starts_ok bs" and ok: "call_ts_ok c"
    and run: "run_call c bs = Some bs'"
  shows "starts_ok bs'"
proof -
  have pos: "0 < bs_span bs" using wf by (simp add: well_formed_def)
  show ?thesis
  proof (cases c)
    case (CPut cp sp seq ts)
    then show ?thesis using ok run st bucket_number [OF wf, of ts] in_i64_bucket_start [OF pos, of ts]
      by (auto simp: buckets_put_def intro!: starts_intros)
  next
    case (CDelete seq ts)
    then show ?thesis using ok run st bucket_number [OF wf, of ts]
      by (auto simp: buckets_delete_def intro!: starts_intros)
  next
    case (CReceived seq ts rtt bf)
    then show ?thesis using ok run st bucket_number [OF wf, of ts] in_i64_bucket_start [OF pos, of ts]
      by (auto simp: buckets_received_def try_update_eq intro!: starts_intros split: if_splits)
  next
    case (CReceivedRST seq ts rtt)
    then show ?thesis using ok run st bucket_number [OF wf, of ts] in_i64_bucket_start [OF pos, of ts]
      by (auto simp: buckets_receivedRST_def try_update_eq intro!: starts_intros split: if_splits)
  next
    case (CReceivedAndFix seq ts rtt n sp dp bf)
    then show ?thesis using ok run st bucket_number [OF wf, of ts] in_i64_bucket_start [OF pos, of ts]
      by (auto simp: buckets_receivedAndFix_def Let_def intro!: starts_intros split: if_splits)
  next
    case (CRemove k)
    then show ?thesis using run st by (auto intro: starts_ok_remove)
  qed
qed


subsection \<open>The drop loop ends\<close>

lemma span_remove [simp]: "bs_span (buckets_remove k bs) = bs_span bs"
  by (simp add: buckets_remove_def Let_def)

lemma buckets_of_remove [simp]: "bs_buckets (buckets_remove k bs) = AList.delete k (bs_buckets bs)"
  by (simp add: buckets_remove_def Let_def)

lemma filter_delete:
  "k \<le> n \<Longrightarrow> filter (\<lambda>e. n < fst e) (AList.delete k m) = filter (\<lambda>e. n < fst e) m" for k n :: int
  by (induction m) auto

text \<open>On a well-formed collection the loop returns: it keeps exactly the buckets numbered above
  \<open>lastID\<close> and ends at the oldest of them.\<close>

lemma drop_reported_spec:
  "buckets_inv bs \<Longrightarrow>
     \<exists>bs'. drop_reported lastID bs = Some (bs', buckets_oldest bs') \<and> buckets_inv bs' \<and>
       bs_span bs' = bs_span bs \<and> (starts_ok bs \<longrightarrow> starts_ok bs') \<and>
       bs_buckets bs' = filter (\<lambda>e. lastID < fst e) (bs_buckets bs)"
proof (induction "length (bs_buckets bs)" arbitrary: bs rule: less_induct)
  case less
  show ?case
  proof (cases "buckets_oldest bs")
    case None
    then have "bs_buckets bs = []" using oldest_spec [OF less.prems] by simp
    then show ?thesis using None less.prems by (simp add: drop_reported.simps)
  next
    case (Some b)
    then have b: "(b_id b, b) \<in> set (bs_buckets bs)" "\<forall>k \<in> fst ` set (bs_buckets bs). b_id b \<le> k"
      using oldest_spec [OF less.prems] by auto
    show ?thesis
    proof (cases "b_id b \<le> lastID")
      case True
      let ?bs = "buckets_remove (b_id b) bs"
      have inv: "buckets_inv ?bs" using less.prems by (rule buckets_inv_remove)
      have "map_of (bs_buckets bs) (b_id b) \<noteq> None" using b(1) weak_map_of_SomeI by fastforce
      then have "length (bs_buckets ?bs) < length (bs_buckets bs)"
        using less.prems
        by (simp add: buckets_remove_def Let_def length_delete_old buckets_inv_def del: not_None_eq)
      from less.hyps [OF this inv] show ?thesis
        using Some True
        by (auto simp: drop_reported.simps [of lastID bs] starts_ok_remove filter_delete)
    next
      case False
      then have "filter (\<lambda>e. lastID < fst e) (bs_buckets bs) = bs_buckets bs"
        using b(2) by (auto simp: filter_id_conv)
      then show ?thesis using Some False less.prems by (simp add: drop_reported.simps)
    qed
  qed
qed


subsection \<open>One report\<close>

definition stat_ok :: "udpStat \<Rightarrow> bool" where
  "stat_ok s \<longleftrightarrow> well_formed (us_bkts s) \<and> starts_ok (us_bkts s) \<and> us_span s = bs_span (us_bkts s)"

lemma statOnce_total:
  assumes ok: "stat_ok s"
  shows "\<exists>s' out. statOnce now s = Some (s', out) \<and> stat_ok s' \<and> us_span s' = us_span s \<and>
     us_lastID s \<le> us_lastID s' \<and>
     (out = [] \<or> (\<exists>r. out = [r] \<and> us_lastID s < us_lastID s' \<and>
        R_Timestamp r = us_lastID s' * us_span s))"
proof (cases "buckets_oldest (us_bkts s)")
  case None
  then show ?thesis using ok by (simp add: statOnce_def)
next
  case (Some b0)
  have sp: "us_span s \<noteq> 0" using ok by (auto simp: stat_ok_def well_formed_def)
  obtain y where y: "too_young now s b0 = Some y" using sp by (cases "too_young now s b0") (auto simp: too_young_def split: if_splits)
  have inv: "buckets_inv (us_bkts s)" using ok by (simp add: stat_ok_def well_formed_def)
  obtain bs where bs: "drop_reported (us_lastID s) (us_bkts s) = Some (bs, buckets_oldest bs)"
    "buckets_inv bs" "bs_span bs = bs_span (us_bkts s)" "starts_ok bs"
    "bs_buckets bs = filter (\<lambda>e. us_lastID s < fst e) (bs_buckets (us_bkts s))"
    using drop_reported_spec [OF inv, of "us_lastID s"] ok by (auto simp: stat_ok_def)
  show ?thesis
  proof (cases y)
    case True
    then show ?thesis using Some y ok by (simp add: statOnce_def)
  next
    case False
    show ?thesis
    proof (cases "buckets_oldest bs")
      case None
      then show ?thesis using Some y False bs ok
        by (simp add: statOnce_def stat_ok_def well_formed_def)
    next
      case (Some b)
      then have b: "(b_id b, b) \<in> set (bs_buckets bs)" using oldest_spec [OF bs(2)] by simp
      then have lt: "us_lastID s < b_id b" using bs(5) by auto
      have "b_startNano b = b_id b * us_span s"
        using b bs(3,4) ok by (auto simp: starts_ok_def map_all_def stat_ok_def)
      moreover have "stat_ok (s\<lparr>us_bkts := buckets_remove (b_id b) bs, us_lastID := b_id b\<rparr>)"
        using bs ok by (simp add: stat_ok_def well_formed_def buckets_inv_remove starts_ok_remove)
      ultimately show ?thesis
        using \<open>buckets_oldest (us_bkts s) = Some b0\<close> y False bs(1) Some lt ok
        by (simp add: statOnce_def Let_def make_result_def stat_ok_def)
    qed
  qed
qed



subsection \<open>Runs\<close>

text \<open>Recording calls and ticks of the processor, interleaved in any order.\<close>

datatype stat_event = Record bucket_call | Tick int

fun event_ok :: "stat_event \<Rightarrow> bool" where
  "event_ok (Record c) \<longleftrightarrow> call_ts_ok c"
| "event_ok (Tick now) \<longleftrightarrow> True"

fun run_event :: "stat_event \<Rightarrow> udpStat \<Rightarrow> (udpStat \<times> StatResult list) option" where
  "run_event (Record c) s = map_option (\<lambda>s'. (s', [])) (lift_bkts (run_call c) s)"
| "run_event (Tick now) s = statOnce now s"

fun run_events :: "stat_event list \<Rightarrow> udpStat \<Rightarrow> (udpStat \<times> StatResult list) option" where
  "run_events [] s = Some (s, [])"
| "run_events (e # es) s =
     (case run_event e s of
        None \<Rightarrow> None
      | Some (s1, out) \<Rightarrow>
          (case run_events es s1 of
             None \<Rightarrow> None
           | Some (s2, outs) \<Rightarrow> Some (s2, out @ outs)))"

lemma run_call_total:
  assumes "well_formed bs" "call_ts_ok c"
  shows "\<exists>bs'. run_call c bs = Some bs'"
  using assms bk.put_law bk.delete_law bk.received_law bk.rst_law bucket_number
  by (cases c) (fastforce simp: buckets_receivedAndFix_def Let_def)+

lemma run_event_total:
  assumes ok: "stat_ok s" and ev: "event_ok e"
  shows "\<exists>s' out. run_event e s = Some (s', out) \<and> stat_ok s' \<and> us_span s' = us_span s \<and>
     us_lastID s \<le> us_lastID s' \<and>
     (out = [] \<or> (\<exists>r. out = [r] \<and> us_lastID s < us_lastID s' \<and>
        R_Timestamp r = us_lastID s' * us_span s))"
proof (cases e)
  case (Record c)
  have wf: "well_formed (us_bkts s)" using ok by (simp add: stat_ok_def)
  obtain bs' where r: "run_call c (us_bkts s) = Some bs'"
    using run_call_total [OF wf] ev Record by auto
  moreover have "well_formed bs' \<and> bs_span bs' = bs_span (us_bkts s)"
    using well_formed_call [OF wf _ r] ev Record by simp
  moreover have "starts_ok bs'"
    using run_call_starts [OF wf _ _ r] ok ev Record by (simp add: stat_ok_def)
  ultimately show ?thesis using Record ok by (simp add: lift_bkts_def stat_ok_def)
next
  case (Tick now)
  then show ?thesis using statOnce_total [OF ok, of now] by simp
qed

lemma run_events_total:
  "stat_ok s \<Longrightarrow> \<forall>e \<in> set es. event_ok e \<Longrightarrow>
     \<exists>s' outs ids. run_events es s = Some (s', outs) \<and> us_span s' = us_span s \<and>
       map R_Timestamp outs = map (\<lambda>i. i * us_span s) ids \<and>
       sorted_wrt (<) ids \<and> (\<forall>i \<in> set ids. us_lastID s < i)"
proof (induction es arbitrary: s)
  case Nil
  then show ?case by (intro exI [of _ s] exI [of _ "[]"]) simp
next
  case (Cons e es)
  obtain s1 out where e: "run_event e s = Some (s1, out)" "stat_ok s1" "us_span s1 = us_span s"
    "us_lastID s \<le> us_lastID s1" "out = [] \<or> (\<exists>r. out = [r] \<and> us_lastID s < us_lastID s1 \<and>
        R_Timestamp r = us_lastID s1 * us_span s)"
    using run_event_total [OF Cons.prems(1), of e] Cons.prems(2) by auto
  obtain s2 outs ids where es: "run_events es s1 = Some (s2, outs)" "us_span s2 = us_span s1"
    "map R_Timestamp outs = map (\<lambda>i. i * us_span s1) ids" "sorted_wrt (<) ids"
    "\<forall>i \<in> set ids. us_lastID s1 < i"
    using Cons.IH [OF e(2)] Cons.prems(2) by auto
  show ?case
  proof (cases "out = []")
    case True
    then show ?thesis using e es by (intro exI [of _ s2] exI [of _ outs] exI [of _ ids]) fastforce
  next
    case False
    then obtain r where "out = [r]" "us_lastID s < us_lastID s1" "R_Timestamp r = us_lastID s1 * us_span s"
      using e(5) by auto
    then show ?thesis using e es
      by (intro exI [of _ s2] exI [of _ "r # outs"] exI [of _ "us_lastID s1 # ids"]) fastforce
  qed
qed

lemma stat_ok_New:
  "0 < spn \<Longrightarrow> stat_ok (NewStat ca sa cr sr rate spn delay hs)"
  "0 < spn \<Longrightarrow> stat_ok (NewServerStat ca sa cr sr rate spn delay hs)"
  using buckets_inv_new
  by (simp_all add: stat_ok_def well_formed_def NewStat_def NewServerStat_def starts_ok_def)
     (simp_all add: newBuckets_def)

text \<open>C2. Reporting never blocks and never repeats: from a fresh stat with a positive span, any
  interleaving of recording calls (with Unix timestamps) and processor ticks returns, and the
  results handed to the sender carry strictly increasing start times: each span is reported at most
  once, in order, and nothing is reported twice even if late responses recreate a bucket.\<close>

theorem reports_in_order:
  assumes "0 < spn" "\<forall>e \<in> set es. event_ok e"
  shows "\<exists>s' outs. run_events es (NewStat ca sa cr sr rate spn delay hs) = Some (s', outs) \<and>
     sorted_wrt (<) (map R_Timestamp outs) \<and> distinct (map R_Timestamp outs)"
proof -
  have sp: "us_span (NewStat ca sa cr sr rate spn delay hs) = spn" by (simp add: NewStat_def)
  obtain s' outs ids where r: "run_events es (NewStat ca sa cr sr rate spn delay hs) = Some (s', outs)"
    "map R_Timestamp outs = map (\<lambda>i. i * spn) ids" "sorted_wrt (<) ids"
    using run_events_total [OF stat_ok_New(1) [OF assms(1)] assms(2), of ca sa cr sr rate delay hs] sp
    by auto
  have "sorted_wrt (<) (map R_Timestamp outs)"
    using r(2,3) assms(1) by (auto simp: sorted_wrt_map elim: sorted_wrt_mono_rel [rotated])
  then show ?thesis using r(1) strict_sorted_iff by blast
qed

theorem reports_in_order_witness:
  "\<exists>s' outs. run_events [Record (CPut 1 2 7 15), Tick 100, Record (CReceived 7 16 3 False), Record (CPut 1 2 8 25), Tick 200]
       (NewStat [] [] \<lparr>pr_Min = 1, pr_Max = 2\<rparr> \<lparr>pr_Min = 1, pr_Max = 2\<rparr> 1 10 0 True) = Some (s', outs) \<and>
     sorted_wrt (<) (map R_Timestamp outs) \<and> distinct (map R_Timestamp outs)"
  by (rule reports_in_order) (auto simp: in_i64_def)

lemma ripe_reported:
  assumes "stat_ok s" "us_hasSender s" "0 \<le> us_lastID s" "us_lastID s < k"
    and "map_of (bs_buckets (us_bkts s)) k = Some b"
    and "\<forall>j \<in> fst ` set (bs_buckets (us_bkts s)). us_lastID s < j \<longrightarrow> k \<le> j"
    and "us_lastID s = 0 \<or> k \<le> i64 (i64 (now - us_delay s) sdiv us_span s)"
  obtains bs where "bs_buckets bs = AList.delete k (filter (\<lambda>e. us_lastID s < fst e) (bs_buckets (us_bkts s)))"
    "statOnce now s = Some (s\<lparr>us_bkts := bs, us_lastID := k\<rparr>, [make_result (s\<lparr>us_lastID := k\<rparr>) b (bucket_result s b)])"
    "b_startNano b = k * us_span s" "stat_ok (s\<lparr>us_bkts := bs, us_lastID := k\<rparr>)"
proof -
  let ?m = "bs_buckets (us_bkts s)"
  have inv: "buckets_inv (us_bkts s)" and sp: "us_span s \<noteq> 0"
    using assms(1) by (auto simp: stat_ok_def well_formed_def)
  obtain b0 where b0: "buckets_oldest (us_bkts s) = Some b0" "b_id b0 \<le> k"
    using oldest_spec [OF inv] map_of_SomeD [OF assms(5)] by (cases "buckets_oldest (us_bkts s)") force+
  obtain bs where bs: "drop_reported (us_lastID s) (us_bkts s) = Some (bs, buckets_oldest bs)" "buckets_inv bs"
      "bs_buckets bs = filter (\<lambda>e. us_lastID s < fst e) ?m" "bs_span bs = bs_span (us_bkts s)" "starts_ok bs"
    using drop_reported_spec [OF inv, of "us_lastID s"] assms(1) by (auto simp: stat_ok_def)
  have kb: "(k, b) \<in> set (bs_buckets bs)" using bs(3) map_of_SomeD [OF assms(5)] assms(4) by auto
  then obtain b1 where b1: "buckets_oldest bs = Some b1" "(b_id b1, b1) \<in> set (bs_buckets bs)" "b_id b1 \<le> k"
    using oldest_spec [OF bs(2)] by (cases "buckets_oldest bs") force+
  have "b_id b1 = k" using b1(2,3) bs(3) assms(6) by force
  then have "b1 = b"
    using b1(2) kb bs(2) unfolding buckets_inv_def map_ok_def by (auto dest: eq_key_imp_eq_value)
  then have old: "buckets_oldest bs = Some b" "b_id b = k" using b1(1) \<open>b_id b1 = k\<close> by auto
  have "too_young now s b0 = Some False" using assms(7) b0(2) sp by (auto simp: too_young_def)
  then have "statOnce now s = Some (s\<lparr>us_bkts := buckets_remove k bs, us_lastID := k\<rparr>,
      [make_result (s\<lparr>us_lastID := k\<rparr>) b (bucket_result s b)])"
    using b0(1) bs(1) old assms(2-4)
    by (simp add: statOnce_def Let_def make_result_def bucket_result_def computeServerLossPorts_def)
  moreover have "b_startNano b = k * us_span s"
    using assms(1) map_of_SomeD [OF assms(5)] by (auto simp: stat_ok_def starts_ok_def map_all_def)
  moreover have "stat_ok (s\<lparr>us_bkts := buckets_remove k bs, us_lastID := k\<rparr>)"
    using bs assms(1) by (simp add: stat_ok_def well_formed_def buckets_inv_remove starts_ok_remove)
  ultimately show ?thesis using that [of "buckets_remove k bs"] bs(3) by simp
qed


definition demo_stat :: udpStat where
  "demo_stat = the (Stat_Put 1 2 7 15 (NewStat [] [] \<lparr>pr_Min = 1, pr_Max = 2\<rparr> \<lparr>pr_Min = 1, pr_Max = 2\<rparr> 1 10 0 True))"



section \<open>Server-side lost ports\<close>

lemma expected_loop_eq:
  "expected_loop cr sr n p m = fold map_incr (port_run cr sr (next_pair cr sr p) n) m"
proof (induction n arbitrary: p m)
  case 0
  then show ?case by (simp add: port_run_def)
next
  case (Suc n)
  have "port_run cr sr q (Suc n) = q # port_run cr sr (next_pair cr sr q) n" for q
    by (simp add: port_run_def map_upt_Suc funpow_swap1 del: upt_Suc)
  then show ?case using Suc by (simp add: Let_def next_pair_def)
qed

definition received_pairs :: "bucket \<Rightarrow> portPair list" where
  "received_pairs b = map (\<lambda>r. (r_clientPort r, r_serverPort r))
     (filter (\<lambda>r. answered r \<and> r_clientPort r \<noteq> 0) (requests_of b))"

lemma received_counts_eq:
  "received_counts rs = fold map_incr (map (\<lambda>r. (r_clientPort r, r_serverPort r))
     (filter (\<lambda>r. answered r \<and> r_clientPort r \<noteq> 0) rs)) []"
proof -
  have "fold (\<lambda>r m. if r_rtt r \<noteq> rttUnset \<and> r_clientPort r \<noteq> 0
      then map_incr (r_clientPort r, r_serverPort r) m else m) rs m =
    fold map_incr (map (\<lambda>r. (r_clientPort r, r_serverPort r))
     (filter (\<lambda>r. answered r \<and> r_clientPort r \<noteq> 0) rs)) m" for m
    by (induction rs arbitrary: m) (auto simp: answered_def)
  then show ?thesis by (simp add: received_counts_def)
qed

lemma get0_fold_incr: "map_get0 (fold map_incr ps []) q = int (count_list ps q)"
proof -
  have "(\<lambda>x. x = q) = (=) q" by (auto simp: fun_eq_iff)
  then show ?thesis
    using map_get0_fold_incr [of id ps "[]" q]
    by (simp add: map_get0_def [of "[]"] count_list_eq_length_filter id_def)
qed

lemma loss_fold_other:
  "pp \<notin> fst ` set es \<Longrightarrow>
     map_get0 (snd (fold (loss_step rc) es acc)) (portKey (fst pp) (snd pp)) =
     map_get0 (snd acc) (portKey (fst pp) (snd pp))"
  by (induction es arbitrary: acc)
     (auto simp: loss_step_def Let_def map_get0_def update_conv' prod_eq_iff split: prod.splits)

lemma loss_fold_get:
  "map_ok es \<Longrightarrow> map_of es pp = Some e \<Longrightarrow> map_get0 (snd acc) (portKey (fst pp) (snd pp)) = 0 \<Longrightarrow>
     map_get0 (snd (fold (loss_step rc) es acc)) (portKey (fst pp) (snd pp)) = max 0 (e - map_get0 rc pp)"
proof (induction es arbitrary: acc)
  case (Cons x es)
  obtain q f where x: "x = (q, f)" by (cases x)
  show ?case
  proof (cases "q = pp")
    case True
    then have "pp \<notin> fst ` set es" "e = f" using Cons.prems x by (auto simp: map_ok_def)
    moreover have "map_get0 (snd (loss_step rc x acc)) (portKey (fst pp) (snd pp)) = max 0 (f - map_get0 rc pp)"
      using Cons.prems(3) True x by (auto simp: loss_step_def Let_def map_get0_def max_def)
    ultimately show ?thesis using loss_fold_other [of pp es rc "loss_step rc x acc"] by simp
  next
    case False
    have "map_get0 (snd (loss_step rc x acc)) (portKey (fst pp) (snd pp)) = 0"
      using Cons.prems(3) False unfolding x loss_step_def
      by (auto simp: Let_def map_get0_def update_conv' prod_eq_iff)
    then show ?thesis using Cons False x by (auto simp: map_ok_def)
  qed
qed simp

lemma get0_map_of: "map_get0 m k = (case map_of m k of None \<Rightarrow> 0 | Some v \<Rightarrow> v)"
  by (simp add: map_get0_def)

lemma map_ok_fold_map_incr: "map_ok m \<Longrightarrow> map_ok (fold map_incr ps m)"
  using map_ok_fold_incr [of m id ps] by (simp add: id_def)

text \<open>The count reported for a pair is the shortfall of its receptions against the expectation, which
  walks on from the start pair, excluding it.\<close>

lemma lossPortsCount_eq:
  assumes "b_packetCountFixed b" "b_packetCount b \<noteq> 0" "b_startSrcPort b \<noteq> 0 \<or> b_startDstPort b \<noteq> 0"
  shows "map_get0 (snd (computeServerLossPorts s b)) (portKey (fst pp) (snd pp)) =
     max 0 (int (count_list (port_run (us_clientPortRange s) (us_serverPortRange s)
        (next_pair (us_clientPortRange s) (us_serverPortRange s) (b_startSrcPort b, b_startDstPort b))
        (unat (b_packetCount b))) pp) - int (count_list (received_pairs b) pp))"
proof -
  let ?E = "fold map_incr (port_run (us_clientPortRange s) (us_serverPortRange s)
        (next_pair (us_clientPortRange s) (us_serverPortRange s) (b_startSrcPort b, b_startDstPort b))
        (unat (b_packetCount b))) []"
  let ?R = "fold map_incr (received_pairs b) []"
  have c: "computeServerLossPorts s b = fold (loss_step ?R) ?E ([], [])"
    using assms unfolding computeServerLossPorts_def
    by (auto simp: expected_loop_eq received_counts_eq received_pairs_def requests_of_def)
  show ?thesis
  proof (cases "map_of ?E pp")
    case None
    then have z: "map_get0 ?E pp = 0" by (simp add: get0_map_of)
    have "pp \<notin> fst ` set ?E" using None by (simp add: map_of_eq_None_iff)
    then show ?thesis
      using loss_fold_other [of pp ?E ?R "([], [])"] z unfolding c get0_fold_incr
      by (simp add: get0_map_of)
  next
    case (Some e)
    then have e: "map_get0 ?E pp = e" by (simp add: get0_map_of)
    have "map_get0 (snd (fold (loss_step ?R) ?E ([], []))) (portKey (fst pp) (snd pp)) = max 0 (e - map_get0 ?R pp)"
      using Some by (intro loss_fold_get) (simp_all add: map_ok_fold_map_incr get0_map_of)
    then show ?thesis unfolding c using e [unfolded get0_fold_incr] by (simp add: get0_fold_incr)
  qed
qed

text \<open>
  What a server bucket reports as lost for a port pair is the shortfall of the pair's receptions
  against its expectation, never negative: the expectation is the run of \<open>packetCount\<close> pairs of the
  odometer that begins \<^emph>\<open>after\<close> the start pair the client announced.
\<close>

theorem server_lost_ports_shortfall:
  assumes "b_packetCountFixed b" "b_packetCount b \<noteq> 0" "b_startSrcPort b \<noteq> 0 \<or> b_startDstPort b \<noteq> 0"
  shows "map_get0 (snd (computeServerLossPorts s b)) (portKey src dst) =
     max 0 (int (count_list (port_run (us_clientPortRange s) (us_serverPortRange s)
        (GetNextPorts (b_startSrcPort b) (b_startDstPort b) (us_clientPortRange s) (us_serverPortRange s))
        (unat (b_packetCount b))) (src, dst)) - int (count_list (received_pairs b) (src, dst)))"
  using lossPortsCount_eq [OF assms, of s "(src, dst)"] by (simp add: next_pair_def)

definition demo_server :: udpStat where
  "demo_server = NewServerStat ''a'' ''b'' \<lparr>pr_Min = 10, pr_Max = 13\<rparr> \<lparr>pr_Min = 20, pr_Max = 23\<rparr> 4 10 0 True"

definition demo_request :: "u16 \<Rightarrow> u16 \<Rightarrow> u64 \<Rightarrow> request" where
  "demo_request cp sp seq = request0\<lparr>r_clientPort := cp, r_serverPort := sp, r_seq := seq, r_rtt := 3\<rparr>"

definition demo_server_bucket :: bucket where
  "demo_server_bucket = (newBucket 5 0 0 True)\<lparr>b_packetCountFixed := True, b_packetCount := 2,
     b_startSrcPort := 10, b_startDstPort := 20,
     b_requests := [(1, demo_request 10 20 1), (2, demo_request 10 21 2)]\<rparr>"

lemmas demo_server_defs = demo_server_def demo_server_bucket_def demo_request_def request0_def
  newBucket_def NewServerStat_def

theorem server_lost_ports_shortfall_witness:
  "map_get0 (snd (computeServerLossPorts demo_server demo_server_bucket)) (portKey 10 22) =
     max 0 (int (count_list (port_run (us_clientPortRange demo_server) (us_serverPortRange demo_server)
        (GetNextPorts (b_startSrcPort demo_server_bucket) (b_startDstPort demo_server_bucket)
           (us_clientPortRange demo_server) (us_serverPortRange demo_server))
        (unat (b_packetCount demo_server_bucket))) (10, 22)) - int (count_list (received_pairs demo_server_bucket) (10, 22)))"
  by (rule server_lost_ports_shortfall) (simp_all add: demo_server_defs)

lemma port_run_shift:
  "count_list (port_run cr sr (next_pair cr sr p) n) q + (if q = p then 1 else 0) =
   count_list (port_run cr sr p n) q + (if q = (next_pair cr sr ^^ n) p then 1 else 0)"
proof -
  have "port_run cr sr p (Suc n) = p # port_run cr sr (next_pair cr sr p) n"
    by (simp add: port_run_def map_upt_Suc funpow_swap1 del: upt_Suc)
  moreover have "port_run cr sr p (Suc n) = port_run cr sr p n @ [(next_pair cr sr ^^ n) p]"
    by (simp add: port_run_def)
  ultimately have "count_list (p # port_run cr sr (next_pair cr sr p) n) q =
      count_list (port_run cr sr p n @ [(next_pair cr sr ^^ n) p]) q" by simp
  then show ?thesis by (auto split: if_splits)
qed

text \<open>
  What the server reports when nothing was lost. The client announces the pair of its first probe
  of a span and the number of probes; when the server has received exactly those, it still reports
  one probe lost, on the pair following the last one sent, unless the number of probes is a
  multiple of the number of pairs of the two ranges. No other pair is reported.
\<close>

theorem complete_reception_reports:
  fixes b :: bucket and s :: udpStat
  defines "cr \<equiv> us_clientPortRange s" and "sr \<equiv> us_serverPortRange s"
    and "n \<equiv> unat (b_packetCount b)" and "p \<equiv> (b_startSrcPort b, b_startDstPort b)"
  assumes "b_packetCountFixed b" "b_packetCount b \<noteq> 0" "b_startSrcPort b \<noteq> 0 \<or> b_startDstPort b \<noteq> 0"
    and ok: "range_ok cr" "range_ok sr" "pair_ok cr sr p"
    and all: "mset (received_pairs b) = mset (port_run cr sr p n)"
  shows "map_get0 (snd (computeServerLossPorts s b)) (portKey src dst) =
    (if int n mod port_count cr sr \<noteq> 0 \<and> (src, dst) = (next_pair cr sr ^^ n) p then 1 else 0)"
proof -
  have "count_list (received_pairs b) (src, dst) = count_list (port_run cr sr p n) (src, dst)"
    using all by (metis count_mset)
  then have "map_get0 (snd (computeServerLossPorts s b)) (portKey src dst) =
     max 0 (int (count_list (port_run cr sr (next_pair cr sr p) n) (src, dst)) -
       int (count_list (port_run cr sr p n) (src, dst)))"
    using lossPortsCount_eq [OF assms(5-7), of s "(src, dst)"] by (simp add: cr_def sr_def n_def p_def)
  moreover have "(next_pair cr sr ^^ n) p = p \<longleftrightarrow> int n mod port_count cr sr = 0"
    using iterate_eq_iff [OF ok, of n 0] by simp
  ultimately show ?thesis
    using port_run_shift [of cr sr p n "(src, dst)"] by (auto split: if_splits)
qed

lemma funpow_2_apply: "(f ^^ 2) x = f (f x)"
  by (simp add: numeral_2_eq_2)

lemma port_run_2: "port_run cr sr p 2 = [p, next_pair cr sr p]"
  by (simp add: port_run_def upt_rec numeral_2_eq_2)

theorem complete_reception_reports_witness:
  "map_get0 (snd (computeServerLossPorts demo_server demo_server_bucket)) (portKey 10 22) = 1"
proof -
  have "map_get0 (snd (computeServerLossPorts demo_server demo_server_bucket)) (portKey 10 22) =
    (if int (unat (b_packetCount demo_server_bucket)) mod
          port_count (us_clientPortRange demo_server) (us_serverPortRange demo_server) \<noteq> 0 \<and>
        (10, 22) = (next_pair (us_clientPortRange demo_server) (us_serverPortRange demo_server) ^^
           unat (b_packetCount demo_server_bucket)) (b_startSrcPort demo_server_bucket, b_startDstPort demo_server_bucket)
     then 1 else 0)"
    by (rule complete_reception_reports)
       (simp_all add: demo_server_defs range_ok_def pair_ok_def in_range_def received_pairs_def
          requests_of_def answered_def rttUnset_def port_run_2 next_pair_def GetNextPorts_def
          u16_of_int_def)
  then show ?thesis
    by (simp add: demo_server_defs port_count_def range_size_def next_pair_def GetNextPorts_def
        u16_of_int_def funpow_2_apply)
qed

end
