(* ===== verification/Probe_Codecs.thy ===== *)
theory Probe_Codecs
  imports Prelude
begin

text \<open>
  The payload formats of the three UDP probes: \<open>sonar/codec/packet.go\<close> (which \<open>sonar6/codec\<close>
  re-exports), \<open>kuiniu/codec/codec.go\<close> and \<open>evr/codec/packet.go\<close>. The locale
  \<open>probe_codec\<close> states what the clients and servers rely on; the three formats are its
  interpretations. A Go \<open>int64\<close> timestamp is an integer in the \<open>int64\<close> range.
\<close>

section \<open>sonar/codec\<close>

definition magicFlagLen :: nat where "magicFlagLen = 8"

definition MsgHeaderLen :: nat where "MsgHeaderLen = magicFlagLen + 24"

text \<open>The bytes of \<open>"CHAOOAHC"\<close>.\<close>

definition magicFlag :: "byte list" where
  "magicFlag = [67, 72, 65, 79, 79, 65, 72, 67]"

definition Encode :: "u64 \<Rightarrow> byte list \<Rightarrow> int \<Rightarrow> int \<Rightarrow> u32 \<Rightarrow> u16 \<Rightarrow> u16 \<Rightarrow> byte list" where
  "Encode seq salt ts msgLen lastSentCount lastStartSrcPort lastStartDstPort =
     (let msgLen = nat (if msgLen < 32 then 32 else msgLen);
          saltLen = int msgLen - int MsgHeaderLen;
          data = replicate msgLen 0;
          data = copy_at 0 magicFlag data;
          data = copy_at magicFlagLen (be_bytes 8 seq) data;
          data = copy_at (magicFlagLen + 8) (be_bytes 8 (u64_of_i64 ts)) data;
          data = copy_at (magicFlagLen + 16) (be_bytes 4 lastSentCount) data;
          data = copy_at (magicFlagLen + 20) (be_bytes 2 lastStartSrcPort) data;
          data = copy_at (magicFlagLen + 22) (be_bytes 2 lastStartDstPort) data
      in if saltLen > 0 then copy_at (magicFlagLen + 24) salt data else data)"

type_synonym sonar_fields = "u64 \<times> int \<times> u32 \<times> u16 \<times> u16"

definition Decode :: "byte list \<Rightarrow> sonar_fields" where
  "Decode data =
     (if length data < MsgHeaderLen then (0, 0, 0, 0, 0)
      else (be_word (slice magicFlagLen (magicFlagLen + 8) data),
            i64_of_u64 (be_word (slice (magicFlagLen + 8) (magicFlagLen + 16) data)),
            be_word (slice (magicFlagLen + 16) (magicFlagLen + 20) data),
            be_word (slice (magicFlagLen + 20) (magicFlagLen + 22) data),
            be_word (slice (magicFlagLen + 22) (magicFlagLen + 24) data)))"

definition IsValid :: "byte list \<Rightarrow> bool" where
  "IsValid data \<longleftrightarrow> \<not> length data < magicFlagLen + 24 \<and> magicFlag = slice 0 magicFlagLen data"


section \<open>kuiniu/codec\<close>

definition kuiniu_MsgHeaderLen :: nat where
  "kuiniu_MsgHeaderLen = magicFlagLen + 8 + 8 + 4 + 4 + 4 + 2 + 2 + 2 + 2"

text \<open>The bytes of \<open>"KUINIUTC"\<close>.\<close>

definition kuiniu_magicFlag :: "byte list" where
  "kuiniu_magicFlag = [75, 85, 73, 78, 73, 85, 84, 67]"

text \<open>\<open>copy (data[off:off+n], src)\<close> moves at most \<open>n\<close> bytes.\<close>

definition copy_into :: "nat \<Rightarrow> nat \<Rightarrow> byte list \<Rightarrow> byte list \<Rightarrow> byte list" where
  "copy_into off n src data = copy_at off (take n src) data"

definition kuiniu_Encode ::
    "u64 \<Rightarrow> byte list \<Rightarrow> int \<Rightarrow> int \<Rightarrow> byte list \<Rightarrow> byte list \<Rightarrow> u16 \<Rightarrow> u16 \<Rightarrow> u32 \<Rightarrow> u16 \<Rightarrow> u16 \<Rightarrow> byte list" where
  "kuiniu_Encode seq salt ts msgLen srcIP dstIP srcPort dstPort lastSentCount lastStartSrcPort lastStartDstPort =
     (let msgLen = nat (if msgLen < int kuiniu_MsgHeaderLen then int kuiniu_MsgHeaderLen else msgLen);
          saltLen = msgLen - kuiniu_MsgHeaderLen;
          data = replicate msgLen 0;
          off = 0;
          data = copy_into off magicFlagLen kuiniu_magicFlag data; off = off + magicFlagLen;
          data = copy_at off (be_bytes 8 seq) data; off = off + 8;
          data = copy_at off (be_bytes 8 (u64_of_i64 ts)) data; off = off + 8;
          data = copy_at off (be_bytes 4 lastSentCount) data; off = off + 4;
          data = copy_into off 4 srcIP data; off = off + 4;
          data = copy_into off 4 dstIP data; off = off + 4;
          data = copy_at off (be_bytes 2 srcPort) data; off = off + 2;
          data = copy_at off (be_bytes 2 dstPort) data; off = off + 2;
          data = copy_at off (be_bytes 2 lastStartSrcPort) data; off = off + 2;
          data = copy_at off (be_bytes 2 lastStartDstPort) data
      in if saltLen > 0
         then let n = min saltLen (length salt) in copy_into kuiniu_MsgHeaderLen n (take n salt) data
         else data)"

record DecodeResult =
  d_Seq :: u64
  d_Ts :: int
  d_LastSentCount :: u32
  d_SrcIP :: "byte list"
  d_DstIP :: "byte list"
  d_SrcPort :: u16
  d_DstPort :: u16
  d_LastStartSrcPort :: u16
  d_LastStartDstPort :: u16

definition kuiniu_Decode :: "byte list \<Rightarrow> DecodeResult" where
  "kuiniu_Decode data =
     (if length data < kuiniu_MsgHeaderLen
      then \<lparr>d_Seq = 0, d_Ts = 0, d_LastSentCount = 0, d_SrcIP = [], d_DstIP = [], d_SrcPort = 0,
            d_DstPort = 0, d_LastStartSrcPort = 0, d_LastStartDstPort = 0\<rparr>
      else
        let off = magicFlagLen;
            seq = be_word (slice off (off + 8) data); off = off + 8;
            ts = i64_of_u64 (be_word (slice off (off + 8) data)); off = off + 8;
            lsc = be_word (slice off (off + 4) data); off = off + 4;
            sip = copy_into 0 4 (slice off (off + 4) data) (replicate 4 0); off = off + 4;
            dip = copy_into 0 4 (slice off (off + 4) data) (replicate 4 0); off = off + 4;
            sp = be_word (slice off (off + 2) data); off = off + 2;
            dp = be_word (slice off (off + 2) data); off = off + 2;
            lssp = be_word (slice off (off + 2) data); off = off + 2;
            lsdp = be_word (slice off (off + 2) data)
        in \<lparr>d_Seq = seq, d_Ts = ts, d_LastSentCount = lsc, d_SrcIP = sip, d_DstIP = dip, d_SrcPort = sp,
            d_DstPort = dp, d_LastStartSrcPort = lssp, d_LastStartDstPort = lsdp\<rparr>)"

definition kuiniu_IsValid :: "byte list \<Rightarrow> bool" where
  "kuiniu_IsValid data \<longleftrightarrow>
     \<not> length data < kuiniu_MsgHeaderLen \<and> kuiniu_magicFlag = slice 0 magicFlagLen data"


section \<open>evr/codec\<close>

definition evr_MagicFlagLen :: nat where "evr_MagicFlagLen = 8"

definition evr_MsgHeaderLen :: nat where "evr_MsgHeaderLen = evr_MagicFlagLen + 20"

text \<open>The bytes of \<open>"EVRCHECK"\<close>.\<close>

definition evr_magicFlag :: "byte list" where
  "evr_magicFlag = [69, 86, 82, 67, 72, 69, 67, 75]"

definition EncodeWithSrcIP :: "u64 \<Rightarrow> byte list \<Rightarrow> int \<Rightarrow> int \<Rightarrow> u32 \<Rightarrow> byte list" where
  "EncodeWithSrcIP seq salt ts msgLen srcIP =
     (let msgLen = nat (if msgLen < int evr_MsgHeaderLen then int evr_MsgHeaderLen else msgLen);
          saltLen = msgLen - evr_MsgHeaderLen;
          data = replicate msgLen 0;
          data = copy_at 0 evr_magicFlag data;
          data = copy_at evr_MagicFlagLen (be_bytes 8 seq) data;
          data = copy_at (evr_MagicFlagLen + 8) (be_bytes 8 (u64_of_i64 ts)) data;
          data = copy_at (evr_MagicFlagLen + 16) (be_bytes 4 srcIP) data
      in if saltLen > 0 then copy_at (evr_MagicFlagLen + 20) salt data else data)"

definition DecodeWithSrcIP :: "byte list \<Rightarrow> u64 \<times> int \<times> byte list" where
  "DecodeWithSrcIP data =
     (if length data < evr_MsgHeaderLen then (0, 0, [])
      else (be_word (slice evr_MagicFlagLen (evr_MagicFlagLen + 8) data),
            i64_of_u64 (be_word (slice (evr_MagicFlagLen + 8) (evr_MagicFlagLen + 16) data)),
            copy_at 0 (be_bytes 4 (be_word (slice (evr_MagicFlagLen + 16) (evr_MagicFlagLen + 20) data) :: u32))
              (replicate 4 0)))"

definition evr_IsValid :: "byte list \<Rightarrow> bool" where
  "evr_IsValid data \<longleftrightarrow>
     \<not> length data < evr_MsgHeaderLen \<and> evr_magicFlag = slice 0 evr_MagicFlagLen data"


section \<open>The contract of a probe format\<close>

text \<open>A payload is a header that starts with the magic flag, then the salt cut or zero-padded to
  the message length. \<open>ok\<close> holds of the field values a message can carry.\<close>

definition salt_body :: "nat \<Rightarrow> byte list \<Rightarrow> byte list" where
  "salt_body k salt = take k (salt @ replicate k 0)"

lemma length_salt_body [simp]: "length (salt_body k salt) = k"
  by (simp add: salt_body_def)

lemma salt_body_full: "k \<le> length salt \<Longrightarrow> salt_body k salt = take k salt"
  by (simp add: salt_body_def)

locale probe_codec =
  fixes magic :: "byte list" and H :: nat and ok :: "'f \<Rightarrow> bool" and head :: "'f \<Rightarrow> byte list"
    and encode :: "'f \<Rightarrow> byte list \<Rightarrow> int \<Rightarrow> byte list"
    and decode :: "byte list \<Rightarrow> 'f" and valid :: "byte list \<Rightarrow> bool"
  assumes encode_eq: "ok f \<Longrightarrow> encode f salt msgLen = head f @ salt_body (nat msgLen - H) salt"
    and length_head: "ok f \<Longrightarrow> length (head f) = H"
    and magic_head: "ok f \<Longrightarrow> take (length magic) (head f) = magic"
    and magic_le: "length magic \<le> H"
    and decode_head: "ok f \<Longrightarrow> decode (head f @ rest) = f"
    and valid_iff: "valid d \<longleftrightarrow> H \<le> length d \<and> take (length magic) d = magic"
    and decode_ok: "H \<le> length d \<Longrightarrow> ok (decode d)"
    and head_decode: "valid d \<Longrightarrow> head (decode d) = take H d"
begin

lemma encode_length: "ok f \<Longrightarrow> length (encode f salt msgLen) = max H (nat msgLen)"
  by (simp add: encode_eq length_head)

lemma encode_valid: "ok f \<Longrightarrow> valid (encode f salt msgLen)"
  using magic_le magic_head [of f] by (simp add: valid_iff encode_eq length_head)

lemma decode_encode: "ok f \<Longrightarrow> decode (encode f salt msgLen) = f"
  by (simp add: encode_eq decode_head)

lemma encode_body: "ok f \<Longrightarrow> drop H (encode f salt msgLen) = salt_body (nat msgLen - H) salt"
  by (simp add: encode_eq length_head)

text \<open>Damage in the body never reaches the header fields, and an undamaged body is the salt.\<close>

lemma damaged_body:
  assumes "ok f" "length d = length (encode f salt msgLen)" "take H d = take H (encode f salt msgLen)"
  shows "valid d \<and> decode d = f \<and> (drop H d = salt_body (nat msgLen - H) salt \<longleftrightarrow> d = encode f salt msgLen)"
proof -
  have d: "d = head f @ drop H d"
    using assms append_take_drop_id [of H d] by (simp add: encode_eq length_head)
  have "decode d = f" using decode_head [OF assms(1), of "drop H d"] d by simp
  moreover have "valid d"
    using assms(1) magic_le magic_head [OF assms(1)] length_head [OF assms(1)] assms(2)
    by (subst d) (simp add: valid_iff encode_length)
  moreover have "drop H d = salt_body (nat msgLen - H) salt \<longleftrightarrow> d = encode f salt msgLen"
    using assms(1) d by (metis encode_body encode_eq)
  ultimately show ?thesis by simp
qed

text \<open>Every payload a receiver accepts is one that some sender could have encoded, up to its body.\<close>

lemma accepted_is_encoded:
  assumes "valid d"
  shows "ok (decode d) \<and> d = encode (decode d) (drop H d) (int (length d))"
proof -
  have l: "H \<le> length d" using assms by (simp add: valid_iff)
  then have "ok (decode d)" by (rule decode_ok)
  moreover have "d = take H d @ drop H d" by simp
  ultimately show ?thesis
    using assms l by (simp add: encode_eq head_decode salt_body_def)
qed

end

section \<open>The three formats meet the contract\<close>

lemma copy_skip: "length xs \<le> off \<Longrightarrow> copy_at off src (xs @ ys) = xs @ copy_at (off - length xs) src ys"
  by (simp add: copy_at_def add.commute)

lemma salt_body_short: "length src \<le> r \<Longrightarrow> salt_body r src = src @ replicate (r - length src) 0"
  by (simp add: salt_body_def)

lemma copy_salt: "copy_at 0 salt (replicate r 0) = salt_body r salt"
  by (simp add: copy_at_def salt_body_def)

lemma salt_body_0 [simp]: "salt_body 0 s = []"
  by (simp add: salt_body_def)

definition sonar_head :: "sonar_fields \<Rightarrow> byte list" where
  "sonar_head f = (case f of (seq, ts, c, sp, dp) \<Rightarrow>
     magicFlag @ be_bytes 8 seq @ be_bytes 8 (u64_of_i64 ts) @ be_bytes 4 c @ be_bytes 2 sp @ be_bytes 2 dp)"

definition sonar_encode :: "sonar_fields \<Rightarrow> byte list \<Rightarrow> int \<Rightarrow> byte list" where
  "sonar_encode f salt msgLen = (case f of (seq, ts, c, sp, dp) \<Rightarrow> Encode seq salt ts msgLen c sp dp)"

definition sonar_ok :: "sonar_fields \<Rightarrow> bool" where
  "sonar_ok f \<longleftrightarrow> in_i64 (fst (snd f))"

lemma length_magicFlag [simp]: "length magicFlag = 8"
  by (simp add: magicFlag_def)

lemmas header_lengths = MsgHeaderLen_def magicFlagLen_def kuiniu_MsgHeaderLen_def evr_MsgHeaderLen_def
  evr_MagicFlagLen_def

lemmas buffer_writes = copy_skip copy_salt salt_body_short Let_def copy_into_def

lemma Encode_bytes:
  "Encode seq salt ts msgLen c sp dp =
     sonar_head (seq, ts, c, sp, dp) @ salt_body (nat msgLen - 32) salt"
  by (cases "msgLen < 32") (simp_all add: Encode_def sonar_head_def header_lengths buffer_writes)

lemma slice_append_left: "b \<le> length xs \<Longrightarrow> slice a b (xs @ ys) = slice a b xs"
  by (simp add: slice_def)

lemma slice_append_right: "length xs \<le> a \<Longrightarrow> slice a b (xs @ ys) = slice (a - length xs) (b - length xs) ys"
  by (simp add: slice_def)

lemma slice_all: "length xs \<le> b \<Longrightarrow> slice 0 b xs = xs"
  by (simp add: slice_def)

lemma slice_prefix: "length xs = b \<Longrightarrow> slice 0 b (xs @ ys) = xs"
  by (simp add: slice_def)

lemmas slice_field = slice_prefix slice_append_right slice_all

lemma decode_sonar_head: "sonar_ok f \<Longrightarrow> Decode (sonar_head f @ rest) = f"
  by (cases f) (simp add: Decode_def sonar_head_def sonar_ok_def header_lengths slice_field go_ints)

text \<open>Cutting a byte string into consecutive fields.\<close>

lemma take_split_slice: "a \<le> b \<Longrightarrow> b \<le> length d \<Longrightarrow> take b d = take a d @ slice a b d"
  by (simp add: slice_def take_add [symmetric])

lemma be_bytes_slice:
  "b \<le> length d \<Longrightarrow> b - a = n \<Longrightarrow> 8 * n \<le> LENGTH('a) \<Longrightarrow>
     be_bytes n (be_word (slice a b d) :: 'a::len word) = slice a b d"
  using be_bytes_word [where 'a = 'a, of "slice a b d"] by simp

lemma sonar_head_decode:
  assumes "IsValid d" shows "sonar_head (Decode d) = take 32 d"
proof -
  have l: "32 \<le> length d" and m: "magicFlag = slice 0 8 d"
    using assms by (simp_all add: IsValid_def header_lengths)
  have "take 32 d = slice 0 8 d @ slice 8 16 d @ slice 16 24 d @ slice 24 28 d @ slice 28 30 d @ slice 30 32 d"
    using l take_split_slice [of 0 8 d] take_split_slice [of 8 16 d] take_split_slice [of 16 24 d]
      take_split_slice [of 24 28 d] take_split_slice [of 28 30 d] take_split_slice [of 30 32 d] by simp
  then show ?thesis
    using l m by (simp add: Decode_def sonar_head_def header_lengths be_bytes_slice)
qed

interpretation sonar_codec: probe_codec magicFlag MsgHeaderLen sonar_ok sonar_head sonar_encode Decode IsValid
proof
  fix f :: sonar_fields and d rest salt :: "byte list" and msgLen :: int
  assume ok: "sonar_ok f"
  show "sonar_encode f salt msgLen = sonar_head f @ salt_body (nat msgLen - MsgHeaderLen) salt"
    by (cases f) (simp add: sonar_encode_def Encode_bytes header_lengths)
  show "length (sonar_head f) = MsgHeaderLen"
    by (cases f) (simp add: sonar_head_def header_lengths)
  show "take (length magicFlag) (sonar_head f) = magicFlag"
    by (cases f) (simp add: sonar_head_def)
  show "Decode (sonar_head f @ rest) = f" using ok by (rule decode_sonar_head)
next
  show "length magicFlag \<le> MsgHeaderLen" by (simp add: header_lengths)
next
  fix d
  show "IsValid d \<longleftrightarrow> MsgHeaderLen \<le> length d \<and> take (length magicFlag) d = magicFlag"
    by (auto simp: IsValid_def header_lengths slice_def)
  show "sonar_ok (Decode d)" by (simp add: sonar_ok_def Decode_def in_i64_def [of 0])
next
  fix d
  assume "IsValid d"
  then show "sonar_head (Decode d) = take MsgHeaderLen d" by (simp add: sonar_head_decode header_lengths)
qed

subsection \<open>kuiniu\<close>

definition kuiniu_head :: "DecodeResult \<Rightarrow> byte list" where
  "kuiniu_head r = kuiniu_magicFlag @ be_bytes 8 (d_Seq r) @ be_bytes 8 (u64_of_i64 (d_Ts r)) @
     be_bytes 4 (d_LastSentCount r) @ d_SrcIP r @ d_DstIP r @ be_bytes 2 (d_SrcPort r) @
     be_bytes 2 (d_DstPort r) @ be_bytes 2 (d_LastStartSrcPort r) @ be_bytes 2 (d_LastStartDstPort r)"

definition kuiniu_encode :: "DecodeResult \<Rightarrow> byte list \<Rightarrow> int \<Rightarrow> byte list" where
  "kuiniu_encode r salt msgLen = kuiniu_Encode (d_Seq r) salt (d_Ts r) msgLen (d_SrcIP r) (d_DstIP r)
     (d_SrcPort r) (d_DstPort r) (d_LastSentCount r) (d_LastStartSrcPort r) (d_LastStartDstPort r)"

definition kuiniu_ok :: "DecodeResult \<Rightarrow> bool" where
  "kuiniu_ok r \<longleftrightarrow> in_i64 (d_Ts r) \<and> length (d_SrcIP r) = 4 \<and> length (d_DstIP r) = 4"

lemma length_kuiniu_magicFlag [simp]: "length kuiniu_magicFlag = 8"
  by (simp add: kuiniu_magicFlag_def)

lemma salt_body_cut:
  "take (min (m - h) (length salt)) salt @ replicate (m - (h + min (m - h) (length salt))) 0 = salt_body (m - h) salt"
  by (simp add: salt_body_def min_def)

lemma kuiniu_encode_bytes:
  assumes "kuiniu_ok r"
  shows "kuiniu_encode r salt msgLen = kuiniu_head r @ salt_body (nat msgLen - 44) salt"
  using assms
  by (cases "msgLen < 44")
     (simp_all add: kuiniu_encode_def kuiniu_Encode_def kuiniu_head_def kuiniu_ok_def header_lengths
        copy_skip salt_body_cut copy_salt salt_body_short Let_def copy_into_def)

lemma decode_kuiniu_head: "kuiniu_ok r \<Longrightarrow> kuiniu_Decode (kuiniu_head r @ rest) = r"
  by (simp add: kuiniu_Decode_def kuiniu_head_def kuiniu_ok_def header_lengths slice_field go_ints
      Let_def copy_into_def copy_salt salt_body_short)

lemma kuiniu_head_decode:
  assumes "kuiniu_IsValid d" shows "kuiniu_head (kuiniu_Decode d) = take 44 d"
proof -
  have l: "44 \<le> length d" and m: "kuiniu_magicFlag = slice 0 8 d"
    using assms by (simp_all add: kuiniu_IsValid_def header_lengths)
  have "take 44 d = slice 0 8 d @ slice 8 16 d @ slice 16 24 d @ slice 24 28 d @ slice 28 32 d @
      slice 32 36 d @ slice 36 38 d @ slice 38 40 d @ slice 40 42 d @ slice 42 44 d"
    using l take_split_slice [of 0 8 d] take_split_slice [of 8 16 d] take_split_slice [of 16 24 d]
      take_split_slice [of 24 28 d] take_split_slice [of 28 32 d] take_split_slice [of 32 36 d]
      take_split_slice [of 36 38 d] take_split_slice [of 38 40 d] take_split_slice [of 40 42 d]
      take_split_slice [of 42 44 d] by simp
  then show ?thesis
    using l m by (simp add: kuiniu_Decode_def kuiniu_head_def header_lengths be_bytes_slice Let_def
        copy_into_def copy_salt salt_body_short)
qed

interpretation kuiniu_codec:
  probe_codec kuiniu_magicFlag kuiniu_MsgHeaderLen kuiniu_ok kuiniu_head kuiniu_encode kuiniu_Decode kuiniu_IsValid
proof
  fix r :: DecodeResult and rest salt :: "byte list" and msgLen :: int
  assume ok: "kuiniu_ok r"
  show "kuiniu_encode r salt msgLen = kuiniu_head r @ salt_body (nat msgLen - kuiniu_MsgHeaderLen) salt"
    using ok by (simp add: kuiniu_encode_bytes header_lengths)
  show "length (kuiniu_head r) = kuiniu_MsgHeaderLen"
    using ok by (simp add: kuiniu_head_def header_lengths kuiniu_ok_def)
  show "take (length kuiniu_magicFlag) (kuiniu_head r) = kuiniu_magicFlag"
    by (simp add: kuiniu_head_def)
  show "kuiniu_Decode (kuiniu_head r @ rest) = r" using ok by (rule decode_kuiniu_head)
next
  show "length kuiniu_magicFlag \<le> kuiniu_MsgHeaderLen" by (simp add: header_lengths)
next
  fix d
  show "kuiniu_IsValid d \<longleftrightarrow>
      kuiniu_MsgHeaderLen \<le> length d \<and> take (length kuiniu_magicFlag) d = kuiniu_magicFlag"
    by (auto simp: kuiniu_IsValid_def header_lengths slice_def)
  assume "kuiniu_MsgHeaderLen \<le> length d"
  then show "kuiniu_ok (kuiniu_Decode d)"
    by (simp add: kuiniu_ok_def kuiniu_Decode_def Let_def copy_into_def)
next
  fix d
  assume "kuiniu_IsValid d"
  then show "kuiniu_head (kuiniu_Decode d) = take kuiniu_MsgHeaderLen d"
    by (simp add: kuiniu_head_decode header_lengths)
qed


subsection \<open>evr\<close>

type_synonym evr_fields = "u64 \<times> int \<times> byte list"

definition evr_head :: "evr_fields \<Rightarrow> byte list" where
  "evr_head f = (case f of (seq, ts, ip) \<Rightarrow>
     evr_magicFlag @ be_bytes 8 seq @ be_bytes 8 (u64_of_i64 ts) @ ip)"

definition evr_encode :: "evr_fields \<Rightarrow> byte list \<Rightarrow> int \<Rightarrow> byte list" where
  "evr_encode f salt msgLen = (case f of (seq, ts, ip) \<Rightarrow> EncodeWithSrcIP seq salt ts msgLen (be_word ip))"

definition evr_ok :: "evr_fields \<Rightarrow> bool" where
  "evr_ok f \<longleftrightarrow> in_i64 (fst (snd f)) \<and> length (snd (snd f)) = 4"

lemma length_evr_magicFlag [simp]: "length evr_magicFlag = 8"
  by (simp add: evr_magicFlag_def)

lemma be_bytes_4_word: "length ip = 4 \<Longrightarrow> be_bytes 4 (be_word ip :: u32) = ip"
  using be_bytes_word [where 'a = 32, of ip] by simp

lemma evr_encode_bytes:
  "evr_ok f \<Longrightarrow> evr_encode f salt msgLen = evr_head f @ salt_body (nat msgLen - 28) salt"
  by (cases f; cases "msgLen < 28")
     (simp_all add: evr_encode_def EncodeWithSrcIP_def evr_head_def evr_ok_def header_lengths
        buffer_writes be_bytes_4_word)

lemma decode_evr_head: "evr_ok f \<Longrightarrow> DecodeWithSrcIP (evr_head f @ rest) = f"
  by (cases f) (simp add: DecodeWithSrcIP_def evr_head_def evr_ok_def header_lengths slice_field go_ints
      be_bytes_4_word copy_salt salt_body_short)

lemma evr_head_decode:
  assumes "evr_IsValid d" shows "evr_head (DecodeWithSrcIP d) = take 28 d"
proof -
  have l: "28 \<le> length d" and m: "evr_magicFlag = slice 0 8 d"
    using assms by (simp_all add: evr_IsValid_def header_lengths)
  have "take 28 d = slice 0 8 d @ slice 8 16 d @ slice 16 24 d @ slice 24 28 d"
    using l take_split_slice [of 0 8 d] take_split_slice [of 8 16 d] take_split_slice [of 16 24 d]
      take_split_slice [of 24 28 d] by simp
  then show ?thesis
    using l m by (simp add: DecodeWithSrcIP_def evr_head_def header_lengths be_bytes_slice copy_salt
        salt_body_short)
qed

interpretation evr_codec:
  probe_codec evr_magicFlag evr_MsgHeaderLen evr_ok evr_head evr_encode DecodeWithSrcIP evr_IsValid
proof
  fix f :: evr_fields and rest salt :: "byte list" and msgLen :: int
  assume ok: "evr_ok f"
  show "evr_encode f salt msgLen = evr_head f @ salt_body (nat msgLen - evr_MsgHeaderLen) salt"
    using ok by (simp add: evr_encode_bytes header_lengths)
  show "length (evr_head f) = evr_MsgHeaderLen"
    using ok by (cases f) (simp add: evr_head_def header_lengths evr_ok_def)
  show "take (length evr_magicFlag) (evr_head f) = evr_magicFlag"
    by (cases f) (simp add: evr_head_def)
  show "DecodeWithSrcIP (evr_head f @ rest) = f" using ok by (rule decode_evr_head)
next
  show "length evr_magicFlag \<le> evr_MsgHeaderLen" by (simp add: header_lengths)
next
  fix d
  show "evr_IsValid d \<longleftrightarrow> evr_MsgHeaderLen \<le> length d \<and> take (length evr_magicFlag) d = evr_magicFlag"
    by (auto simp: evr_IsValid_def header_lengths slice_def)
  assume "evr_MsgHeaderLen \<le> length d"
  then show "evr_ok (DecodeWithSrcIP d)" by (simp add: evr_ok_def DecodeWithSrcIP_def)
next
  fix d
  assume "evr_IsValid d"
  then show "evr_head (DecodeWithSrcIP d) = take evr_MsgHeaderLen d"
    by (simp add: evr_head_decode header_lengths)
qed

section \<open>Properties\<close>

text \<open>
  C32. Damage is confined to the salt: whatever happens to the bytes after the 32-byte header of a
  bitflip probe, the receiver accepts it, reads the sequence number, timestamp, count and start
  ports the sender wrote, and finds the body different from the salt exactly when the payload was
  changed.
\<close>

theorem sonar_damage_confined:
  assumes "in_i64 ts" "length d = length (Encode seq salt ts msgLen c sp dp)"
    and "take MsgHeaderLen d = take MsgHeaderLen (Encode seq salt ts msgLen c sp dp)"
  shows "IsValid d \<and> Decode d = (seq, ts, c, sp, dp) \<and>
    (drop MsgHeaderLen d = salt_body (nat msgLen - MsgHeaderLen) salt \<longleftrightarrow> d = Encode seq salt ts msgLen c sp dp)"
  using sonar_codec.damaged_body [of "(seq, ts, c, sp, dp)" d salt msgLen] assms
  by (simp add: sonar_encode_def sonar_ok_def)

theorem sonar_damage_confined_witness:
  "let d = (Encode 5 [0, 0, 0] 77 35 9 10 11)[33 := 4] in
     IsValid d \<and> Decode d = (5, 77, 9, 10, 11) \<and>
     (drop MsgHeaderLen d = salt_body (nat 35 - MsgHeaderLen) [0, 0, 0] \<longleftrightarrow> d = Encode 5 [0, 0, 0] 77 35 9 10 11)"
  unfolding Let_def
  by (rule sonar_damage_confined) (simp_all add: in_i64_def header_lengths)

text \<open>
  The kuiniu format is a bijection between field values and headers: a message with IPv4 addresses
  decodes to the fields it was made from and is accepted, and every accepted payload is the
  encoding, at its own length, of the fields it decodes to.
\<close>

theorem kuiniu_format_bijective:
  "(\<forall>r salt msgLen. kuiniu_ok r \<longrightarrow>
      kuiniu_IsValid (kuiniu_encode r salt msgLen) \<and> kuiniu_Decode (kuiniu_encode r salt msgLen) = r) \<and>
   (\<forall>d. kuiniu_IsValid d \<longrightarrow>
      d = kuiniu_encode (kuiniu_Decode d) (drop kuiniu_MsgHeaderLen d) (int (length d)))"
  using kuiniu_codec.encode_valid kuiniu_codec.decode_encode kuiniu_codec.accepted_is_encoded by simp

definition demo_kuiniu :: DecodeResult where
  "demo_kuiniu = \<lparr>d_Seq = 1, d_Ts = 2, d_LastSentCount = 3, d_SrcIP = [10, 0, 0, 1], d_DstIP = [10, 0, 0, 2],
     d_SrcPort = 100, d_DstPort = 200, d_LastStartSrcPort = 100, d_LastStartDstPort = 150\<rparr>"

theorem kuiniu_format_bijective_witness:
  "kuiniu_ok demo_kuiniu \<and> kuiniu_IsValid (kuiniu_encode demo_kuiniu [1] 50) \<and>
   kuiniu_Decode (kuiniu_encode demo_kuiniu [1] 50) = demo_kuiniu"
proof -
  have "kuiniu_ok demo_kuiniu" by (simp add: kuiniu_ok_def demo_kuiniu_def in_i64_def)
  then show ?thesis using kuiniu_format_bijective by blast
qed

text \<open>
  The three probes cannot be mistaken for one another: no payload is accepted by two of the
  formats, so a socket that sees another tool's traffic drops it.
\<close>

theorem formats_disjoint:
  "\<not> (IsValid d \<and> kuiniu_IsValid d) \<and> \<not> (IsValid d \<and> evr_IsValid d) \<and> \<not> (kuiniu_IsValid d \<and> evr_IsValid d)"
proof -
  have "magicFlag \<noteq> kuiniu_magicFlag" "magicFlag \<noteq> evr_magicFlag" "kuiniu_magicFlag \<noteq> evr_magicFlag"
    by (simp_all add: magicFlag_def kuiniu_magicFlag_def evr_magicFlag_def)
  then show ?thesis
    unfolding IsValid_def kuiniu_IsValid_def evr_IsValid_def header_lengths by metis
qed

text \<open>
  The EVR payload round-trips: seq, timestamp and the embedded inner source address come back from
  every message length and salt, and the message has the requested length, but never less than the
  header.
\<close>

theorem evr_payload_roundtrip:
  assumes "in_i64 ts"
  shows "DecodeWithSrcIP (EncodeWithSrcIP seq salt ts msgLen srcIP) = (seq, ts, be_bytes 4 srcIP) \<and>
    evr_IsValid (EncodeWithSrcIP seq salt ts msgLen srcIP) \<and>
    length (EncodeWithSrcIP seq salt ts msgLen srcIP) = max 28 (nat msgLen)"
proof -
  have ok: "evr_ok (seq, ts, be_bytes 4 srcIP)" using assms by (simp add: evr_ok_def)
  have "evr_encode (seq, ts, be_bytes 4 srcIP) salt msgLen = EncodeWithSrcIP seq salt ts msgLen srcIP"
    by (simp add: evr_encode_def)
  then show ?thesis
    using evr_codec.decode_encode [OF ok, of salt msgLen] evr_codec.encode_valid [OF ok, of salt msgLen]
      evr_codec.encode_length [OF ok, of salt msgLen]
    by (simp add: header_lengths)
qed

theorem evr_payload_roundtrip_witness:
  "DecodeWithSrcIP (EncodeWithSrcIP 5 [1, 2] 77 64 0x0A000001) = (5, 77, be_bytes 4 (0x0A000001 :: u32)) \<and>
    evr_IsValid (EncodeWithSrcIP 5 [1, 2] 77 64 0x0A000001) \<and>
    length (EncodeWithSrcIP 5 [1, 2] 77 64 0x0A000001) = max 28 (nat 64)"
  by (rule evr_payload_roundtrip) (simp add: in_i64_def)

end
