(* ===== verification/Util_Salts.thy ===== *)
theory Util_Salts
  imports Prelude
begin

text \<open>
  The salt patterns of \<open>util/salts.go\<close>, with which the probes fill their payloads, and why the
  fourth pattern is there: it is blind to no change of the payload, and with it damage that the
  Internet checksum cannot see still reaches the receiver's comparison.
\<close>

section \<open>The patterns\<close>

record Salts =
  s_salts :: "byte list list"
  s_msgLen :: int

definition ComplementaryBytes :: "nat \<Rightarrow> byte list" where
  "ComplementaryBytes n = map (\<lambda>i. if (i div 2) mod 2 = 0 then 0xAA else 0x55) [0..<n]"

text \<open>\<open>bytes.Repeat\<close> and \<open>make\<close> panic on a negative length.\<close>

definition NewSalts :: "int \<Rightarrow> Salts option" where
  "NewSalts msgLen =
     (if msgLen < 0 then None
      else Some \<lparr>s_salts = [replicate (nat msgLen) 0xFF, replicate (nat msgLen) 0x00,
                   replicate (nat msgLen) 0x5A, ComplementaryBytes (nat msgLen)],
                 s_msgLen = msgLen\<rparr>)"

definition Get :: "Salts \<Rightarrow> u64 \<Rightarrow> byte list" where
  "Get s seq = s_salts s ! unat (seq mod 4)"

definition CheckBitflip :: "byte list \<Rightarrow> byte list \<Rightarrow> bool" where
  "CheckBitflip data salt \<longleftrightarrow> data \<noteq> salt"


section \<open>The pattern of a sequence number\<close>

lemma length_ComplementaryBytes [simp]: "length (ComplementaryBytes n) = n"
  by (simp add: ComplementaryBytes_def)

lemma nth_ComplementaryBytes:
  "i < n \<Longrightarrow> ComplementaryBytes n ! i = (if (i div 2) mod 2 = 0 then 0xAA else 0x55)"
  by (simp add: ComplementaryBytes_def)

lemma take_ComplementaryBytes: "k \<le> n \<Longrightarrow> take k (ComplementaryBytes n) = ComplementaryBytes k"
  by (simp add: ComplementaryBytes_def take_map)

lemma unat_mod_4: "unat (seq mod 4) = unat seq mod 4" for seq :: u64
  by (simp add: unat_mod)

lemma Get_cases:
  assumes "NewSalts n = Some s"
  shows "Get s seq = [replicate (nat n) 0xFF, replicate (nat n) 0x00, replicate (nat n) 0x5A,
           ComplementaryBytes (nat n)] ! (unat seq mod 4)"
  using assms by (auto simp: NewSalts_def Get_def unat_mod_4 split: if_splits)

lemma below_4: "x mod 4 = 0 \<or> x mod 4 = 1 \<or> x mod 4 = 2 \<or> x mod 4 = (3::nat)"
  by presburger

lemma length_Get [simp]: "NewSalts n = Some s \<Longrightarrow> length (Get s seq) = nat n"
  using below_4 [of "unat seq"] by (auto simp: Get_cases)

text \<open>Salts of different sizes agree on their common prefix, so a receiver may compare with a
  longer pattern.\<close>

lemma take_Get:
  assumes "NewSalts n = Some s" "NewSalts m = Some s'" "k \<le> nat n" "k \<le> nat m"
  shows "take k (Get s seq) = take k (Get s' seq)"
  using below_4 [of "unat seq"] assms
  by (auto simp: Get_cases [OF assms(1)] Get_cases [OF assms(2)] take_ComplementaryBytes min_def)


section \<open>Checksums\<close>

text \<open>The sum of the 16-bit words of a byte string; the Internet checksum is a function of it
  modulo 65535.\<close>

definition word_sum :: "byte list \<Rightarrow> int" where
  "word_sum bs = (\<Sum>i<length bs. (if even i then 256 else 1) * uint (bs ! i))"

text \<open>The same bits inverted in two adjacent 16-bit words.\<close>

definition flip_pair :: "nat \<Rightarrow> byte \<Rightarrow> byte list \<Rightarrow> byte list" where
  "flip_pair i m bs = bs[i := bs ! i XOR m, i + 2 := bs ! (i + 2) XOR m]"

lemma length_flip_pair [simp]: "length (flip_pair i m bs) = length bs"
  by (simp add: flip_pair_def)

lemma nth_flip_pair:
  "i + 2 < length bs \<Longrightarrow> j < length bs \<Longrightarrow>
     flip_pair i m bs ! j = (if j = i \<or> j = i + 2 then bs ! j XOR m else bs ! j)"
  by (auto simp: flip_pair_def nth_list_update)

lemma word_sum_flip_pair:
  assumes i: "i + 2 < length bs"
  shows "word_sum (flip_pair i m bs) = word_sum bs + (if even i then 256 else 1) *
     (uint (bs ! i XOR m) + uint (bs ! (i + 2) XOR m) - uint (bs ! i) - uint (bs ! (i + 2)))"
proof -
  let ?w = "\<lambda>j. if even j then 256 else (1::int)"
  let ?A = "{..<length bs}" and ?B = "{i, i + 2}"
  have split: "(\<Sum>j\<in>?A. ?w j * g j) = (\<Sum>j\<in>?A - ?B. ?w j * g j) + ?w i * (g i + g (i + 2))" for g
  proof -
    have "(\<Sum>j\<in>?A. ?w j * g j) = (\<Sum>j\<in>?A - ?B. ?w j * g j) + (\<Sum>j\<in>?B. ?w j * g j)"
      using i by (intro sum.subset_diff) auto
    also have "(\<Sum>j\<in>?B. ?w j * g j) = ?w i * (g i + g (i + 2))" by (simp add: algebra_simps)
    finally show ?thesis .
  qed
  have "(\<Sum>j\<in>?A - ?B. ?w j * uint (flip_pair i m bs ! j)) = (\<Sum>j\<in>?A - ?B. ?w j * uint (bs ! j))"
    using i by (intro sum.cong) (auto simp: nth_flip_pair)
  then show ?thesis
    using i split [of "\<lambda>j. uint (flip_pair i m bs ! j)"] split [of "\<lambda>j. uint (bs ! j)"]
    by (simp add: word_sum_def nth_flip_pair algebra_simps)
qed

lemma uint_xor_complement: "uint (b XOR m) + uint (NOT b XOR m) = uint b + uint (NOT b)" for b m :: byte
proof -
  have "NOT b XOR m = NOT (b XOR m)" by (rule bit_eqI) (auto simp: bit_simps)
  moreover have "uint x + uint (NOT x) = 255" for x :: byte
  proof -
    have n: "NOT x = word_of_int (255 - uint x)" by (simp add: not_eq_complement)
    have "0 \<le> 255 - uint x" "255 - uint x < 256" using uint_bounded [of x] uint_ge_0 [of x] by (simp, linarith)
    then have "uint (word_of_int (255 - uint x) :: byte) = 255 - uint x"
      by (simp only: uint_word_of_int) simp
    then show ?thesis by (simp only: n)
  qed
  ultimately show ?thesis by simp
qed

lemma uint_xor_ne: "m \<noteq> 0 \<Longrightarrow> uint (b XOR m) \<noteq> uint b" for b m :: byte
proof
  assume m: "m \<noteq> 0" and "uint (b XOR m) = uint b"
  then have "b XOR m = b" by (metis word_of_int_uint)
  then have "b XOR (b XOR m) = b XOR b" by simp
  then show False using m by (simp add: xor.assoc [symmetric])
qed

text \<open>
  Why there is a complementary pattern. Inverting the same bits of two adjacent 16-bit words of it
  leaves the sum over which the Internet checksum is formed unchanged, so the damage passes every
  checksum on the way, and the comparison at the receiver reports it.
\<close>

theorem complementary_flip_only_seen_by_salt:
  assumes "NewSalts n = Some s" "unat seq mod 4 = 3" "i + 2 < nat n" "m \<noteq> 0"
  shows "word_sum (flip_pair i m (Get s seq)) = word_sum (Get s seq) \<and>
         CheckBitflip (flip_pair i m (Get s seq)) (Get s seq)"
proof -
  let ?b = "ComplementaryBytes (nat n)"
  have g: "Get s seq = ?b" using assms by (simp add: Get_cases)
  have c: "?b ! (i + 2) = NOT (?b ! i)" using assms(3) by (auto simp: nth_ComplementaryBytes mod_Suc)
  have "word_sum (flip_pair i m ?b) = word_sum ?b"
    using assms(3) c uint_xor_complement [of "?b ! i" m] by (simp add: word_sum_flip_pair)
  moreover have "flip_pair i m ?b ! i \<noteq> ?b ! i"
    using assms(3,4) uint_xor_ne [of m "?b ! i"] by (auto simp: nth_flip_pair)
  ultimately show ?thesis by (auto simp: g CheckBitflip_def)
qed

theorem complementary_flip_only_seen_by_salt_witness:
  "\<exists>s. NewSalts 4 = Some s \<and> word_sum (flip_pair 1 0x10 (Get s 7)) = word_sum (Get s 7) \<and>
       CheckBitflip (flip_pair 1 0x10 (Get s 7)) (Get s 7)"
proof -
  obtain s where s: "NewSalts 4 = Some s" by (simp add: NewSalts_def)
  show ?thesis
    using complementary_flip_only_seen_by_salt [OF s, of 7 1 "0x10"] s by auto
qed

lemma dvd_cancel_65535: "j * k = 65536 \<Longrightarrow> 65535 dvd k * d \<Longrightarrow> 65535 dvd d" for d j k :: int
proof -
  assume "j * k = 65536" "65535 dvd k * d"
  then have "d = j * (k * d) - 65535 * d" by (simp add: mult.assoc [symmetric])
  then show ?thesis using \<open>65535 dvd k * d\<close> by (metis dvd_diff dvd_mult dvd_triv_left)
qed

text \<open>
  On the three uniform patterns the same damage does change the sum modulo 65535, so the checksum
  catches it: the complementary pattern is what makes the class of errors observable.
\<close>

theorem uniform_flip_changes_checksum:
  assumes "NewSalts n = Some s" "unat seq mod 4 \<noteq> 3" "i + 2 < nat n" "m \<noteq> 0"
  shows "word_sum (flip_pair i m (Get s seq)) mod 65535 \<noteq> word_sum (Get s seq) mod 65535"
proof
  define bs where "bs = Get s seq"
  define d where "d = uint (bs ! i XOR m) - uint (bs ! i)"
  have l: "i + 2 < length bs" using assms by (simp add: bs_def)
  have e: "bs ! (i + 2) = bs ! i"
    using below_4 [of "unat seq"] assms by (auto simp: bs_def Get_cases)
  have b: "0 \<le> uint x" "uint x < 256" for x :: byte using uint_bounded [of x] by simp_all
  have d: "d \<noteq> 0" "\<bar>d\<bar> < 256"
    using uint_xor_ne [OF assms(4), of "bs ! i"] b [of "bs ! i XOR m"] b [of "bs ! i"]
    unfolding d_def by linarith+
  assume "word_sum (flip_pair i m (Get s seq)) mod 65535 = word_sum (Get s seq) mod 65535"
  then have "(word_sum bs + (if even i then 512 else 2) * d) mod 65535 = word_sum bs mod 65535"
    using l e by (simp add: word_sum_flip_pair bs_def [symmetric] d_def algebra_simps split: if_splits)
  then have k: "65535 dvd (if even i then 512 else 2) * d"
    by (simp only: mod_eq_dvd_iff add_diff_cancel_left')
  have "65535 dvd d"
    by (rule dvd_cancel_65535 [OF _ k, of "if even i then 128 else 32768"]) simp
  then show False using d dvd_imp_le_int [of d 65535] by auto
qed

theorem uniform_flip_changes_checksum_witness:
  "\<exists>s. NewSalts 4 = Some s \<and> word_sum (flip_pair 1 0x10 (Get s 6)) mod 65535 \<noteq> word_sum (Get s 6) mod 65535"
proof -
  obtain s where s: "NewSalts 4 = Some s" by (simp add: NewSalts_def)
  show ?thesis
    using uniform_flip_changes_checksum [OF s, of 6 1 "0x10"] s by auto
qed

end
