(* ===== verification/Net_Env.thy ===== *)
theory Net_Env
  imports Go_Strings Stat_Ports
begin

text \<open>
  What the configuration code of the tools uses of Go's \<open>net\<close> and \<open>os\<close> packages. The predicates
  on addresses are written out on their bytes. What depends on the machine the program runs on (its
  host name, the resolver, its interfaces) and the textual address, MAC and duration syntax are the
  fields of an environment, an argument of every definition that uses them.
\<close>

section \<open>net.IP\<close>

type_synonym IP = "byte list"

definition v4InV6Prefix :: "byte list" where
  "v4InV6Prefix = replicate 10 0 @ [0xff, 0xff]"

definition To4 :: "IP \<Rightarrow> IP option" where
  "To4 ip = (if length ip = 4 then Some ip
     else if length ip = 16 \<and> take 12 ip = v4InV6Prefix then Some (drop 12 ip) else None)"

definition To16 :: "IP \<Rightarrow> IP option" where
  "To16 ip = (if length ip = 4 then Some (v4InV6Prefix @ ip) else if length ip = 16 then Some ip else None)"

definition IPv6loopback :: IP where
  "IPv6loopback = replicate 15 0 @ [1]"

definition IP_Equal :: "IP \<Rightarrow> IP \<Rightarrow> bool" where
  "IP_Equal ip x \<longleftrightarrow>
     (if length ip = length x then ip = x
      else if length ip = 4 \<and> length x = 16 then take 12 x = v4InV6Prefix \<and> ip = drop 12 x
      else if length ip = 16 \<and> length x = 4 then take 12 ip = v4InV6Prefix \<and> drop 12 ip = x
      else False)"

definition IsLoopback :: "IP \<Rightarrow> bool" where
  "IsLoopback ip \<longleftrightarrow> (case To4 ip of Some ip4 \<Rightarrow> ip4 ! 0 = 127 | None \<Rightarrow> IP_Equal ip IPv6loopback)"

definition IsLinkLocalUnicast :: "IP \<Rightarrow> bool" where
  "IsLinkLocalUnicast ip \<longleftrightarrow>
     (case To4 ip of Some ip4 \<Rightarrow> ip4 ! 0 = 169 \<and> ip4 ! 1 = 254
      | None \<Rightarrow> length ip = 16 \<and> ip ! 0 = 0xfe \<and> ip ! 1 AND 0xc0 = 0x80)"

definition IsMulticast :: "IP \<Rightarrow> bool" where
  "IsMulticast ip \<longleftrightarrow>
     (case To4 ip of Some ip4 \<Rightarrow> ip4 ! 0 AND 0xf0 = 0xe0 | None \<Rightarrow> length ip = 16 \<and> ip ! 0 = 0xff)"

definition IsUnspecified :: "IP \<Rightarrow> bool" where
  "IsUnspecified ip \<longleftrightarrow> IP_Equal ip (v4InV6Prefix @ [0, 0, 0, 0]) \<or> IP_Equal ip (replicate 16 0)"

definition IsGlobalUnicast :: "IP \<Rightarrow> bool" where
  "IsGlobalUnicast ip \<longleftrightarrow> (length ip = 4 \<or> length ip = 16) \<and>
     \<not> IP_Equal ip (v4InV6Prefix @ [255, 255, 255, 255]) \<and> \<not> IsUnspecified ip \<and> \<not> IsLoopback ip \<and>
     \<not> IsMulticast ip \<and> \<not> IsLinkLocalUnicast ip"


section \<open>The environment\<close>

text \<open>The addresses of an interface: \<open>None\<close> when asking for them fails; an address that is not
  a \<open>*net.IPNet\<close> is \<open>None\<close> in the list.\<close>

record iface =
  if_Name :: string
  if_Up :: bool
  if_Loopback :: bool
  if_Addrs :: "IP option list option"

record net_env =
  e_Hostname :: "string option"
  e_LookupHost :: "string \<Rightarrow> string list option"
  e_ParseIP :: "string \<Rightarrow> IP option"
  e_IPString :: "IP \<Rightarrow> string"
  e_Interfaces :: "iface list option"
  e_ParseDuration :: "string \<Rightarrow> int option"
  e_ParseMAC :: "string \<Rightarrow> byte list option"

datatype cfg_error =
    HostnameFailed
  | LookupFailed string
  | NoAddress string
  | InterfacesFailed
  | NoInterfaceAddress
  | NoZone string
  | InvalidRole string
  | InvalidAddress string
  | NotIPv6 string
  | NotIPv4 string
  | NoInterface string
  | BadMsgLen int
  | BadPortRange string
  | BadMinPort string num_error
  | BadMaxPort string num_error
  | MinAboveMax string
  | PortOutOfRange string
  | BadDuration string
  | MissingAddrs
  | CountMismatch nat nat
  | BadTarget string
  | NoTargets
  | BadMAC string
  | BadVNI
  | BadMaxHops int
  | BadQueries int
  | BadTimeout int
  | BadParallel int
  | PortZero
  | PortsForICMP
  | UnknownProtocol string

definition second :: int where "second = 1000000000"

definition valid_ip4 :: "net_env \<Rightarrow> string \<Rightarrow> bool" where
  "valid_ip4 env addr \<longleftrightarrow> (case e_ParseIP env addr of None \<Rightarrow> False | Some ip \<Rightarrow> To4 ip \<noteq> None)"

definition valid_ip6 :: "net_env \<Rightarrow> string \<Rightarrow> bool" where
  "valid_ip6 env addr \<longleftrightarrow> (case e_ParseIP env addr of None \<Rightarrow> False | Some ip \<Rightarrow> To4 ip = None \<and> To16 ip \<noteq> None)"

text \<open>The first address accepted by a test, as the resolving loops return it.\<close>

definition first_addr :: "net_env \<Rightarrow> (IP \<Rightarrow> bool) \<Rightarrow> string list \<Rightarrow> string option" where
  "first_addr env P addrs =
     List.find (\<lambda>addr. case e_ParseIP env addr of None \<Rightarrow> False | Some ip \<Rightarrow> P ip) addrs"


section \<open>Reading a port range\<close>

definition ParsePortRange :: "string \<Rightarrow> cfg_error + PortRange" where
  "ParsePortRange s0 =
     (let s = TrimSpace s0;
          parts = Split CHR '','' s
      in if length parts \<noteq> 2 then Inl (BadPortRange s)
         else case Atoi (TrimSpace (parts ! 0)) of
           Inl e \<Rightarrow> Inl (BadMinPort s e)
         | Inr portMin \<Rightarrow>
             (case Atoi (TrimSpace (parts ! 1)) of
                Inl e \<Rightarrow> Inl (BadMaxPort s e)
              | Inr portMax \<Rightarrow>
                  if portMin > portMax then Inl (MinAboveMax s)
                  else if portMin < 1 \<or> portMax > 65535 then Inl (PortOutOfRange s)
                  else Inr \<lparr>pr_Min = portMin, pr_Max = portMax\<rparr>))"

definition valid_range :: "PortRange \<Rightarrow> bool" where
  "valid_range pr \<longleftrightarrow> 1 \<le> pr_Min pr \<and> pr_Min pr \<le> pr_Max pr \<and> pr_Max pr \<le> 65535"

definition zero_range :: PortRange where
  "zero_range = \<lparr>pr_Min = 0, pr_Max = 0\<rparr>"

lemma ParsePortRange_sound: "ParsePortRange s = Inr pr \<Longrightarrow> valid_range pr"
  by (auto simp: ParsePortRange_def valid_range_def Let_def split: if_splits sum.splits)

lemma comma_not_space: "\<not> is_space CHR '',''"
  by (simp add: is_space_def)

lemma digits_trim: "\<forall>c \<in> set s. is_digit c \<or> c = CHR '','' \<Longrightarrow> TrimSpace s = s"
  by (rule TrimSpace_id) (auto dest: is_digit_not_space simp: comma_not_space)

text \<open>
  Reading a port range: every range within 1..65535 written as \<open>min,max\<close> is read back as written,
  and whatever text is accepted denotes a range with \<open>1 \<le> Min \<le> Max \<le> 65535\<close>.
\<close>

theorem port_range_roundtrip:
  "(valid_range pr \<longrightarrow>
      ParsePortRange (int_dec (pr_Min pr) @ CHR '','' # int_dec (pr_Max pr)) = Inr pr) \<and>
   (ParsePortRange s = Inr pr \<longrightarrow> valid_range pr)"
proof (intro conjI impI)
  assume v: "valid_range pr"
  define a where "a = nat (pr_Min pr)"
  define b where "b = nat (pr_Max pr)"
  have pr: "pr = \<lparr>pr_Min = int a, pr_Max = int b\<rparr>"
    using v by (cases pr) (simp add: a_def b_def valid_range_def)
  have t: "TrimSpace (nat_dec a @ CHR '','' # nat_dec b) = nat_dec a @ CHR '','' # nat_dec b"
    using nat_dec_digits by (intro digits_trim) auto
  have "Split CHR '','' (nat_dec a @ CHR '','' # nat_dec b) = [nat_dec a, nat_dec b]"
    by (simp add: Split_append_sep Split_nosep nat_dec_not_in)
  then show "ParsePortRange (int_dec (pr_Min pr) @ CHR '','' # int_dec (pr_Max pr)) = Inr pr"
    using v t by (simp add: pr int_dec_def ParsePortRange_def Let_def Atoi_nat_dec valid_range_def)
next
  assume "ParsePortRange s = Inr pr"
  then show "valid_range pr" by (rule ParsePortRange_sound)
qed

theorem port_range_roundtrip_witness:
  "ParsePortRange (int_dec 43500 @ CHR '','' # int_dec 43599) = Inr \<lparr>pr_Min = 43500, pr_Max = 43599\<rparr>"
  using port_range_roundtrip [of "\<lparr>pr_Min = 43500, pr_Max = 43599\<rparr>"] by (simp add: valid_range_def)

end
