(* ===== verification/Config_Sonar.thy ===== *)
theory Config_Sonar
  imports Net_Env
begin

text \<open>
  The configurations of the bitflip tools, \<open>sonar/config/config.go\<close> and
  \<open>sonar6/config/config.go\<close>: their defaults and checks, as functions from a configuration to an
  error or the completed configuration.
\<close>

section \<open>Configurations\<close>

definition RoleServer :: string where "RoleServer = ''server''"
definition RoleClient :: string where "RoleClient = ''client''"

record Config =
  c_Role :: string
  c_ClientAddr :: string
  c_ClientAddrs :: "string list"
  c_ServerAddrs :: "string list"
  c_TOS :: int
  c_ClientPortRange :: PortRange
  c_ServerPortRange :: PortRange
  c_RateInSpan :: int
  c_Span :: int
  c_Delay :: int
  c_MsgLen :: int
  c_Count :: int
  c_SendDuration :: int
  c_Verbose :: bool

record Config6 = Config +
  c_ServerZone :: string
  c_ClientZone :: string

definition ServerAddr :: "'a Config_scheme \<Rightarrow> string" where
  "ServerAddr c = (case c_ServerAddrs c of [] \<Rightarrow> [] | a # _ \<Rightarrow> a)"

definition resolveLocalIP :: "net_env \<Rightarrow> cfg_error + string" where
  "resolveLocalIP env =
     (case e_Hostname env of
        None \<Rightarrow> Inl HostnameFailed
      | Some hostname \<Rightarrow>
          (case e_LookupHost env hostname of
             None \<Rightarrow> Inl (LookupFailed hostname)
           | Some addrs \<Rightarrow>
               (case first_addr env (\<lambda>ip. \<not> IsLoopback ip) addrs of
                  Some addr \<Rightarrow> Inr addr
                | None \<Rightarrow> (case addrs of a # _ \<Rightarrow> Inr a | [] \<Rightarrow> Inl (NoAddress hostname)))))"

text \<open>The defaults shared by the two tools.\<close>

definition port_defaults :: "'a Config_scheme \<Rightarrow> 'a Config_scheme" where
  "port_defaults c =
     (let c = (if pr_Min (c_ClientPortRange c) = 0 \<and> pr_Max (c_ClientPortRange c) = 0
               then c\<lparr>c_ClientPortRange := \<lparr>pr_Min = 43500, pr_Max = 43599\<rparr>\<rparr> else c)
      in if pr_Min (c_ServerPortRange c) = 0 \<and> pr_Max (c_ServerPortRange c) = 0
         then c\<lparr>c_ServerPortRange := \<lparr>pr_Min = 43500, pr_Max = 43509\<rparr>\<rparr> else c)"

definition rate_defaults :: "'a Config_scheme \<Rightarrow> 'a Config_scheme" where
  "rate_defaults c =
     (let c = (if c_RateInSpan c = 0 then c\<lparr>c_RateInSpan := 5000\<rparr> else c);
          c = (if c_Span c = 0 then c\<lparr>c_Span := second\<rparr> else c)
      in if c_Delay c = 0 then c\<lparr>c_Delay := 3 * second\<rparr> else c)"

definition check_msgLen :: "'a Config_scheme \<Rightarrow> cfg_error + 'a Config_scheme" where
  "check_msgLen c =
     (if c_Role c = RoleClient \<and> c_MsgLen c \<le> 0 then Inl (BadMsgLen (c_MsgLen c))
      else if c_Role c = RoleServer \<and> c_MsgLen c \<le> 0 then Inr (c\<lparr>c_MsgLen := 1024\<rparr>)
      else Inr c)"


section \<open>sonar\<close>

definition check_server :: "net_env \<Rightarrow> Config \<Rightarrow> cfg_error + Config" where
  "check_server env c =
     (if c_Role c = RoleServer then
        (let r = (if ServerAddr c = [] then
                    (case resolveLocalIP env of Inl e \<Rightarrow> Inl e | Inr ip \<Rightarrow> Inr (c\<lparr>c_ServerAddrs := [ip]\<rparr>))
                  else Inr c)
         in case r of
              Inl e \<Rightarrow> Inl e
            | Inr c1 \<Rightarrow> if e_ParseIP env (ServerAddr c1) = None then Inl (InvalidAddress (ServerAddr c1)) else Inr c1)
      else Inr c)"

definition check_client :: "net_env \<Rightarrow> Config \<Rightarrow> cfg_error + Config" where
  "check_client env c =
     (if c_ClientAddr c = [] then
        (case resolveLocalIP env of Inl e \<Rightarrow> Inl e | Inr ip \<Rightarrow> Inr (c\<lparr>c_ClientAddr := ip\<rparr>))
      else Inr c)"

definition Validate :: "net_env \<Rightarrow> Config \<Rightarrow> cfg_error + Config" where
  "Validate env c =
     (if c_Role c \<noteq> RoleServer \<and> c_Role c \<noteq> RoleClient then Inl (InvalidRole (c_Role c))
      else case check_server env c of
        Inl e \<Rightarrow> Inl e
      | Inr c1 \<Rightarrow>
          (case check_client env c1 of
             Inl e \<Rightarrow> Inl e
           | Inr c2 \<Rightarrow> check_msgLen (rate_defaults (port_defaults c2))))"


section \<open>sonar6\<close>

definition validateIPv6 :: "net_env \<Rightarrow> string \<Rightarrow> cfg_error option" where
  "validateIPv6 env addr =
     (case e_ParseIP env addr of
        None \<Rightarrow> Some (InvalidAddress addr)
      | Some ip \<Rightarrow>
          if To4 ip \<noteq> None then Some (NotIPv6 addr)
          else if To16 ip = None then Some (NotIPv6 addr)
          else None)"

definition has_addr :: "IP \<Rightarrow> iface \<Rightarrow> bool" where
  "has_addr ip ifc \<longleftrightarrow>
     (case if_Addrs ifc of None \<Rightarrow> False | Some addrs \<Rightarrow> (\<exists>a \<in> set addrs. case a of None \<Rightarrow> False | Some x \<Rightarrow> IP_Equal x ip))"

definition resolveLinkLocalZone :: "net_env \<Rightarrow> string \<Rightarrow> cfg_error + string" where
  "resolveLinkLocalZone env addr =
     (case e_ParseIP env addr of
        None \<Rightarrow> Inl (InvalidAddress addr)
      | Some ip \<Rightarrow>
          if \<not> IsLinkLocalUnicast ip then Inr []
          else case e_Interfaces env of
            None \<Rightarrow> Inl InterfacesFailed
          | Some ifaces \<Rightarrow>
              (case List.find (has_addr ip) ifaces of
                 Some ifc \<Rightarrow> Inr (if_Name ifc)
               | None \<Rightarrow> Inl (NoZone addr)))"

definition resolveLocalIPv6 :: "net_env \<Rightarrow> cfg_error + string" where
  "resolveLocalIPv6 env =
     (case e_Hostname env of
        None \<Rightarrow> Inl HostnameFailed
      | Some hostname \<Rightarrow>
          (case e_LookupHost env hostname of
             None \<Rightarrow> Inl (LookupFailed hostname)
           | Some addrs \<Rightarrow>
               (case first_addr env (\<lambda>ip. To4 ip = None \<and> To16 ip \<noteq> None \<and> \<not> IsLoopback ip) addrs of
                  Some addr \<Rightarrow> Inr addr
                | None \<Rightarrow> Inl (NoAddress hostname))))"

definition check_server6 :: "net_env \<Rightarrow> Config6 \<Rightarrow> cfg_error + Config6" where
  "check_server6 env c =
     (case (if c_Role c = RoleServer \<and> ServerAddr c = [] then
              (case resolveLocalIPv6 env of Inl e \<Rightarrow> Inl e | Inr ip \<Rightarrow> Inr (c\<lparr>c_ServerAddrs := [ip]\<rparr>))
            else Inr c) of
        Inl e \<Rightarrow> Inl e
      | Inr c1 \<Rightarrow>
          (case List.find (\<lambda>a. validateIPv6 env a \<noteq> None) (c_ServerAddrs c1) of
             Some a \<Rightarrow> Inl (the (validateIPv6 env a))
           | None \<Rightarrow>
               if ServerAddr c1 \<noteq> [] then
                 (case resolveLinkLocalZone env (ServerAddr c1) of
                    Inl e \<Rightarrow> Inl e
                  | Inr zone \<Rightarrow> Inr (c1\<lparr>c_ServerZone := zone\<rparr>))
               else Inr c1))"

definition check_client6 :: "net_env \<Rightarrow> Config6 \<Rightarrow> cfg_error + Config6" where
  "check_client6 env c =
     (case (if c_Role c = RoleClient \<and> c_ClientAddr c = [] then
              (case resolveLocalIPv6 env of Inl e \<Rightarrow> Inl e | Inr ip \<Rightarrow> Inr (c\<lparr>c_ClientAddr := ip\<rparr>))
            else Inr c) of
        Inl e \<Rightarrow> Inl e
      | Inr c1 \<Rightarrow>
          if c_ClientAddr c1 \<noteq> [] then
            (case validateIPv6 env (c_ClientAddr c1) of
               Some e \<Rightarrow> Inl e
             | None \<Rightarrow>
                 (case resolveLinkLocalZone env (c_ClientAddr c1) of
                    Inl e \<Rightarrow> Inl e
                  | Inr zone \<Rightarrow> Inr (c1\<lparr>c_ClientZone := zone\<rparr>)))
          else Inr c1)"

definition Validate6 :: "net_env \<Rightarrow> Config6 \<Rightarrow> cfg_error + Config6" where
  "Validate6 env c =
     (if c_Role c \<noteq> RoleServer \<and> c_Role c \<noteq> RoleClient then Inl (InvalidRole (c_Role c))
      else case check_server6 env c of
        Inl e \<Rightarrow> Inl e
      | Inr c1 \<Rightarrow>
          (case check_client6 env c1 of
             Inl e \<Rightarrow> Inl e
           | Inr c2 \<Rightarrow> check_msgLen (rate_defaults (port_defaults c2))))"

section \<open>What validation establishes\<close>

text \<open>Each stage leaves its own postcondition, changes only its own fields, and does nothing on a
  configuration that already meets it.\<close>

lemma defaults_fields [simp]:
  "c_Role (port_defaults c) = c_Role c" "c_Role (rate_defaults c) = c_Role c"
  "c_ServerAddrs (port_defaults c) = c_ServerAddrs c" "c_ServerAddrs (rate_defaults c) = c_ServerAddrs c"
  "c_ClientAddr (port_defaults c) = c_ClientAddr c" "c_ClientAddr (rate_defaults c) = c_ClientAddr c"
  "c_MsgLen (port_defaults c) = c_MsgLen c" "c_MsgLen (rate_defaults c) = c_MsgLen c"
  "c_ClientPortRange (rate_defaults c) = c_ClientPortRange c" "c_ServerPortRange (rate_defaults c) = c_ServerPortRange c"
  by (simp_all add: port_defaults_def rate_defaults_def Let_def)

lemma defaults_zones [simp]:
  "c_ServerZone (port_defaults c) = c_ServerZone c" "c_ServerZone (rate_defaults c) = c_ServerZone c"
  "c_ClientZone (port_defaults c) = c_ClientZone c" "c_ClientZone (rate_defaults c) = c_ClientZone c"
  by (simp_all add: port_defaults_def rate_defaults_def Let_def)

lemma check_msgLen_fields:
  assumes "check_msgLen c = Inr c'"
  shows "c_Role c' = c_Role c" "c_ServerAddrs c' = c_ServerAddrs c" "c_ClientAddr c' = c_ClientAddr c"
    "c_ClientPortRange c' = c_ClientPortRange c" "c_ServerPortRange c' = c_ServerPortRange c"
    "c_RateInSpan c' = c_RateInSpan c" "c_Span c' = c_Span c" "c_Delay c' = c_Delay c"
    "c_Role c = RoleServer \<or> c_Role c = RoleClient \<Longrightarrow> 0 < c_MsgLen c'"
  using assms by (auto simp: check_msgLen_def split: if_splits)

lemma check_msgLen_zones:
  assumes "check_msgLen c = Inr c'"
  shows "c_ServerZone c' = c_ServerZone c" "c_ClientZone c' = c_ClientZone c"
  using assms by (auto simp: check_msgLen_def split: if_splits)

definition ranges_given :: "'a Config_scheme \<Rightarrow> bool" where
  "ranges_given c \<longleftrightarrow> (c_ClientPortRange c = zero_range \<or> valid_range (c_ClientPortRange c)) \<and>
     (c_ServerPortRange c = zero_range \<or> valid_range (c_ServerPortRange c))"

text \<open>What the clients, servers and statistics need of a configuration.\<close>

definition runnable :: "'a Config_scheme \<Rightarrow> bool" where
  "runnable c \<longleftrightarrow> (c_Role c = RoleServer \<or> c_Role c = RoleClient) \<and>
     valid_range (c_ClientPortRange c) \<and> valid_range (c_ServerPortRange c) \<and>
     c_RateInSpan c \<noteq> 0 \<and> c_Span c \<noteq> 0 \<and> c_Delay c \<noteq> 0 \<and> 0 < c_MsgLen c"

lemma defaults_runnable:
  assumes "c_Role c = RoleServer \<or> c_Role c = RoleClient" "ranges_given c"
    and "check_msgLen (rate_defaults (port_defaults c)) = Inr c'"
  shows "runnable c'"
proof -
  note f = check_msgLen_fields [OF assms(3)]
  have "valid_range (c_ClientPortRange c') \<and> valid_range (c_ServerPortRange c')"
    using assms(2) f by (auto simp: port_defaults_def Let_def ranges_given_def zero_range_def valid_range_def)
  moreover have "c_RateInSpan c' \<noteq> 0" "c_Span c' \<noteq> 0" "c_Delay c' \<noteq> 0"
    using f by (auto simp: rate_defaults_def Let_def second_def)
  ultimately show ?thesis using f(1,9) assms(1) by (simp add: runnable_def)
qed

lemma defaults_idempotent:
  assumes "runnable c"
  shows "check_msgLen (rate_defaults (port_defaults c)) = Inr c"
proof -
  have "port_defaults c = c" "rate_defaults c = c"
    using assms by (auto simp: port_defaults_def rate_defaults_def Let_def runnable_def valid_range_def)
  then show ?thesis using assms by (simp add: check_msgLen_def runnable_def)
qed

lemma check_server_fields:
  assumes "check_server env c = Inr c1"
  shows "c_Role c1 = c_Role c" "ranges_given c1 = ranges_given c" "c_ClientAddr c1 = c_ClientAddr c"
    "c_Role c = RoleServer \<Longrightarrow> e_ParseIP env (ServerAddr c1) \<noteq> None"
  using assms by (auto simp: check_server_def Let_def ranges_given_def split: if_splits sum.splits)

lemma check_server_stable:
  assumes "check_server env c = Inr c1" "c_Role c' = c_Role c1" "c_ServerAddrs c' = c_ServerAddrs c1"
  shows "check_server env c' = Inr c'"
proof -
  have a: "ServerAddr c' = ServerAddr c1" using assms(3) by (simp add: ServerAddr_def)
  show ?thesis
  proof (cases "c_Role c = RoleServer \<and> ServerAddr c1 = []")
    case True
    then obtain ip where ip: "resolveLocalIP env = Inr ip" "c_ServerAddrs c1 = [ip]"
      using assms(1) by (auto simp: check_server_def Let_def ServerAddr_def split: if_splits sum.splits list.splits)
    then have "c'\<lparr>c_ServerAddrs := [ip]\<rparr> = c'" using assms(3) by simp
    then show ?thesis using True ip a assms check_server_fields(1,4) [OF assms(1)]
      by (simp add: check_server_def Let_def ServerAddr_def)
  next
    case False
    then show ?thesis using a assms(2) check_server_fields(1,4) [OF assms(1)]
      by (auto simp: check_server_def Let_def)
  qed
qed

lemma check_client_fields:
  assumes "check_client env c = Inr c1"
  shows "c_Role c1 = c_Role c" "ranges_given c1 = ranges_given c" "c_ServerAddrs c1 = c_ServerAddrs c"
  using assms by (auto simp: check_client_def ranges_given_def split: if_splits sum.splits)

lemma check_client_stable:
  assumes "check_client env c = Inr c1" "c_ClientAddr c' = c_ClientAddr c1"
  shows "check_client env c' = Inr c'"
proof -
  have "c'\<lparr>c_ClientAddr := c_ClientAddr c1\<rparr> = c'" using assms(2) by (metis Config.surjective Config.update_convs(2))
  then show ?thesis using assms by (auto simp: check_client_def split: if_splits sum.splits)
qed

lemma Validate_runnable:
  assumes "Validate env c = Inr c'" "ranges_given c"
  shows "runnable c' \<and> (c_Role c' = RoleServer \<longrightarrow> e_ParseIP env (ServerAddr c') \<noteq> None) \<and>
    Validate env c' = Inr c'"
proof -
  obtain c1 c2 where s: "check_server env c = Inr c1" and k: "check_client env c1 = Inr c2"
    and m: "check_msgLen (rate_defaults (port_defaults c2)) = Inr c'"
    and r: "c_Role c = RoleServer \<or> c_Role c = RoleClient"
    using assms(1) by (auto simp: Validate_def split: if_splits sum.splits)
  note f = check_msgLen_fields [OF m] check_client_fields [OF k] check_server_fields [OF s]
  have run: "runnable c'" using defaults_runnable [OF _ _ m] f r assms(2) by simp
  have "ServerAddr c' = ServerAddr c1" using f by (simp add: ServerAddr_def)
  moreover have "check_server env c' = Inr c'" using check_server_stable [OF s] f by simp
  moreover have "check_client env c' = Inr c'" using check_client_stable [OF k] f by simp
  ultimately show ?thesis using run defaults_idempotent [OF run] f r by (simp add: Validate_def)
qed


definition demo_env :: net_env where
  "demo_env = \<lparr>e_Hostname = Some ''h'', e_LookupHost = (\<lambda>_. Some [''10.0.0.1'']),
     e_ParseIP = (\<lambda>s. if s = ''10.0.0.1'' then Some (v4InV6Prefix @ [10, 0, 0, 1])
                      else if s = ''fe80::1'' then Some (0xfe # 0x80 # replicate 13 0 @ [1]) else None),
     e_IPString = (\<lambda>_. ''''), e_Interfaces = Some [\<lparr>if_Name = ''eth0'', if_Up = True, if_Loopback = False,
        if_Addrs = Some [Some (0xfe # 0x80 # replicate 13 0 @ [1])]\<rparr>],
     e_ParseDuration = (\<lambda>_. None), e_ParseMAC = (\<lambda>_. None)\<rparr>"

definition demo_config :: Config where
  "demo_config = \<lparr>c_Role = RoleServer, c_ClientAddr = '''', c_ClientAddrs = [], c_ServerAddrs = [], c_TOS = 0,
     c_ClientPortRange = zero_range, c_ServerPortRange = zero_range, c_RateInSpan = 0, c_Span = 0, c_Delay = 0,
     c_MsgLen = 0, c_Count = 0, c_SendDuration = 0, c_Verbose = False\<rparr>"


lemma validateIPv6_None: "validateIPv6 env a = None \<longleftrightarrow> valid_ip6 env a"
  by (auto simp: validateIPv6_def valid_ip6_def split: option.splits)

text \<open>A zone is given exactly to link-local addresses, and names an interface that owns the address.\<close>

definition zone_of :: "net_env \<Rightarrow> string \<Rightarrow> string \<Rightarrow> bool" where
  "zone_of env addr zone \<longleftrightarrow>
     (case e_ParseIP env addr of None \<Rightarrow> False
      | Some ip \<Rightarrow>
          if IsLinkLocalUnicast ip
          then \<exists>ifaces ifc. e_Interfaces env = Some ifaces \<and> ifc \<in> set ifaces \<and> has_addr ip ifc \<and> zone = if_Name ifc
          else zone = [])"

lemma resolveLinkLocalZone_sound: "resolveLinkLocalZone env addr = Inr zone \<Longrightarrow> zone_of env addr zone"
  by (auto simp: resolveLinkLocalZone_def zone_of_def dest!: find_set split: option.splits if_splits)

lemma check_server6_post:
  assumes "check_server6 env c = Inr c1"
  shows "c_Role c1 = c_Role c" "ranges_given c1 = ranges_given c" "c_ClientAddr c1 = c_ClientAddr c"
    "\<forall>a \<in> set (c_ServerAddrs c1). valid_ip6 env a"
    "ServerAddr c1 \<noteq> [] \<Longrightarrow> zone_of env (ServerAddr c1) (c_ServerZone c1)"
proof -
  have z: "ServerAddr (c\<lparr>c_ServerZone := z\<rparr>) = ServerAddr c" for c :: Config6 and z by (simp add: ServerAddr_def)
  show "c_Role c1 = c_Role c" "ranges_given c1 = ranges_given c" "c_ClientAddr c1 = c_ClientAddr c"
    using assms by (auto simp: check_server6_def ranges_given_def split: sum.splits if_splits option.splits)
  show "\<forall>a \<in> set (c_ServerAddrs c1). valid_ip6 env a"
    using assms by (auto simp: check_server6_def find_None_iff validateIPv6_None
        split: sum.splits if_splits option.splits)
  show "ServerAddr c1 \<noteq> [] \<Longrightarrow> zone_of env (ServerAddr c1) (c_ServerZone c1)"
    using assms by (auto simp: check_server6_def z resolveLinkLocalZone_sound split: sum.splits if_splits option.splits)
qed

lemma check_client6_post:
  assumes "check_client6 env c = Inr c1"
  shows "c_Role c1 = c_Role c" "ranges_given c1 = ranges_given c" "c_ServerAddrs c1 = c_ServerAddrs c"
    "c_ServerZone c1 = c_ServerZone c"
    "c_ClientAddr c1 \<noteq> [] \<Longrightarrow> valid_ip6 env (c_ClientAddr c1) \<and> zone_of env (c_ClientAddr c1) (c_ClientZone c1)"
  using assms by (auto simp: check_client6_def ranges_given_def validateIPv6_None resolveLinkLocalZone_sound
      split: sum.splits if_splits option.splits)

text \<open>
  The IPv6 tool accepts only IPv6 addresses and attaches zones correctly: after validation every
  server address and the client address are IPv6 and not IPv4-mapped, and the zone of each is the
  name of an interface owning it when it is link-local and empty otherwise.
\<close>

theorem validated_config6_addresses:
  assumes "Validate6 env c = Inr c'" "ranges_given c"
  shows "runnable c' \<and> (\<forall>a \<in> set (c_ServerAddrs c'). valid_ip6 env a) \<and>
    (ServerAddr c' \<noteq> [] \<longrightarrow> zone_of env (ServerAddr c') (c_ServerZone c')) \<and>
    (c_ClientAddr c' \<noteq> [] \<longrightarrow> valid_ip6 env (c_ClientAddr c') \<and> zone_of env (c_ClientAddr c') (c_ClientZone c'))"
proof -
  obtain c1 c2 where s: "check_server6 env c = Inr c1" and k: "check_client6 env c1 = Inr c2"
    and m: "check_msgLen (rate_defaults (port_defaults c2)) = Inr c'"
    and r: "c_Role c = RoleServer \<or> c_Role c = RoleClient"
    using assms(1) by (auto simp: Validate6_def split: if_splits sum.splits)
  note f = check_msgLen_fields [OF m] check_msgLen_zones [OF m] check_client6_post [OF k] check_server6_post [OF s]
  have "runnable c'" using defaults_runnable [OF _ _ m] f r assms(2) by simp
  moreover have "ServerAddr c' = ServerAddr c1" using f by (simp add: ServerAddr_def)
  ultimately show ?thesis using f by simp
qed

definition demo_config6 :: Config6 where
  "demo_config6 = Config.extend (demo_config\<lparr>c_Role := RoleClient, c_ClientAddr := ''fe80::1'',
     c_ServerAddrs := [''fe80::1''], c_MsgLen := 64\<rparr>) (Config6.fields '''' '''')"

theorem validated_config6_addresses_witness:
  "\<exists>c'. Validate6 demo_env demo_config6 = Inr c' \<and> c_ServerZone c' = ''eth0'' \<and> runnable c' \<and>
     (\<forall>a \<in> set (c_ServerAddrs c'). valid_ip6 demo_env a)"
proof -
  have "254 # 128 # replicate 10 0 \<noteq> replicate 10 0 @ [255, 255 :: byte]"
    by (rule notI, drule arg_cong [where f = hd]) simp
  then have "\<exists>c'. Validate6 demo_env demo_config6 = Inr c' \<and> c_ServerZone c' = ''eth0''"
    by (simp add: Validate6_def check_server6_def check_client6_def check_msgLen_def rate_defaults_def
        port_defaults_def demo_env_def demo_config6_def demo_config_def ServerAddr_def resolveLinkLocalZone_def
        validateIPv6_def has_addr_def IP_Equal_def IsLinkLocalUnicast_def To4_def To16_def v4InV6Prefix_def
        RoleServer_def RoleClient_def zero_range_def Let_def Config.defs Config6.defs)
  then obtain c' where c': "Validate6 demo_env demo_config6 = Inr c'" "c_ServerZone c' = ''eth0''" by blast
  have "ranges_given demo_config6"
    by (simp add: ranges_given_def demo_config6_def demo_config_def Config.defs Config6.defs)
  then show ?thesis using validated_config6_addresses [OF c'(1)] c' by blast
qed

end
