(* ===== verification/Bpf_Filters.thy ===== *)
theory Bpf_Filters
  imports Prelude
begin

text \<open>
  The classic BPF programs the receiving sockets install: \<open>portRangeBPF\<close> of
  \<open>sonar/client/client.go\<close> and \<open>kuiniu/transport/udp.go\<close>, \<open>portRangeBPF\<close> of
  \<open>sonar6/client/client.go\<close>, \<open>innerPortBPF\<close> of \<open>evr/agent/agent.go\<close>, and \<open>emptyBPF\<close>.
  The machine that runs them is the kernel's; what the programs rely on is the documented meaning
  of the instructions of \<open>golang.org/x/net/bpf\<close>, stated by the locale \<open>bpf_machine\<close>.
\<close>

section \<open>Programs\<close>

datatype JumpTest = JumpEqual | JumpGreaterOrEqual | JumpLessOrEqual

text \<open>The skip for a true condition is left at zero by every program.\<close>

datatype Instruction =
    LoadAbsolute nat nat
  | LoadIndirect nat nat
  | JumpIf JumpTest u32 nat
  | RetConstant u32

definition portRangeBPF :: "int \<Rightarrow> int \<Rightarrow> int \<Rightarrow> Instruction list" where
  "portRangeBPF minPort maxPort tos =
     [LoadIndirect 9 1,
      JumpIf JumpEqual 17 4,
      LoadIndirect 1 1,
      JumpIf JumpEqual (word_of_int tos) 4,
      LoadAbsolute 22 2,
      JumpIf JumpGreaterOrEqual (word_of_int minPort) 2,
      JumpIf JumpLessOrEqual (word_of_int maxPort) 1,
      RetConstant 0xffff,
      RetConstant 0]"

definition kuiniu_portRangeBPF :: "int \<Rightarrow> int \<Rightarrow> int \<Rightarrow> Instruction list" where
  "kuiniu_portRangeBPF minPort maxPort tos =
     [LoadIndirect 9 1,
      JumpIf JumpEqual 17 4,
      LoadIndirect 1 1,
      JumpIf JumpEqual (word_of_int tos) 4,
      LoadAbsolute 22 2,
      JumpIf JumpGreaterOrEqual (word_of_int minPort) 2,
      JumpIf JumpLessOrEqual (word_of_int maxPort) 1,
      RetConstant 0xffff,
      RetConstant 0]"

definition sonar6_portRangeBPF :: "int \<Rightarrow> int \<Rightarrow> Instruction list" where
  "sonar6_portRangeBPF minPort maxPort =
     [LoadAbsolute 2 2,
      JumpIf JumpGreaterOrEqual (word_of_int minPort) 2,
      JumpIf JumpLessOrEqual (word_of_int maxPort) 1,
      RetConstant 0xffff,
      RetConstant 0]"

definition innerPortBPF :: "int \<Rightarrow> int \<Rightarrow> Instruction list" where
  "innerPortBPF innerPort tos =
     [LoadIndirect 9 1,
      JumpIf JumpEqual 17 5,
      LoadIndirect 1 1,
      JumpIf JumpEqual (word_of_int tos) 3,
      LoadAbsolute 22 2,
      JumpIf JumpEqual (word_of_int innerPort) 1,
      RetConstant 0xffff,
      RetConstant 0]"

definition emptyBPF :: "Instruction list" where
  "emptyBPF = [RetConstant 0]"


section \<open>The machine\<close>

text \<open>A load reads bytes of the packet, most significant first; one that leaves the packet ends the
  program with 0, and so does running off its end.\<close>

definition bpf_load :: "byte list \<Rightarrow> nat \<Rightarrow> nat \<Rightarrow> u32 option" where
  "bpf_load pkt off sz = (if off + sz \<le> length pkt then Some (be_word (slice off (off + sz) pkt)) else None)"

fun jump_test :: "JumpTest \<Rightarrow> u32 \<Rightarrow> u32 \<Rightarrow> bool" where
  "jump_test JumpEqual a v \<longleftrightarrow> a = v"
| "jump_test JumpGreaterOrEqual a v \<longleftrightarrow> a \<ge> v"
| "jump_test JumpLessOrEqual a v \<longleftrightarrow> a \<le> v"

text \<open>\<open>exec prog a x pkt\<close> runs the rest of a program with the registers A and X; the result is the
  number of bytes accepted.\<close>

locale bpf_machine =
  fixes exec :: "Instruction list \<Rightarrow> u32 \<Rightarrow> u32 \<Rightarrow> byte list \<Rightarrow> u32"
  assumes exec_ret: "exec (RetConstant v # prog) a x pkt = v"
    and exec_abs: "exec (LoadAbsolute off sz # prog) a x pkt =
      (case bpf_load pkt off sz of None \<Rightarrow> 0 | Some v \<Rightarrow> exec prog v x pkt)"
    and exec_ind: "exec (LoadIndirect off sz # prog) a x pkt =
      (case bpf_load pkt (unat x + off) sz of None \<Rightarrow> 0 | Some v \<Rightarrow> exec prog v x pkt)"
    and exec_jump: "exec (JumpIf t v sf # prog) a x pkt =
      exec (drop (if jump_test t a v then 0 else sf) prog) a x pkt"
begin

lemmas exec_simps = exec_ret exec_abs exec_ind exec_jump

lemma empty_rejects: "exec emptyBPF a x pkt = 0"
  by (simp add: emptyBPF_def exec_simps)

text \<open>The programs start with both registers zero.\<close>

lemma sonar6_accepts:
  "exec (sonar6_portRangeBPF minPort maxPort) 0 0 pkt \<noteq> 0 \<longleftrightarrow>
     (case bpf_load pkt 2 2 of None \<Rightarrow> False
      | Some port \<Rightarrow> word_of_int minPort \<le> port \<and> port \<le> word_of_int maxPort)"
  by (simp add: sonar6_portRangeBPF_def exec_simps split: option.splits)

lemma inner_accepts:
  "exec (innerPortBPF innerPort tos) 0 0 pkt \<noteq> 0 \<longleftrightarrow>
     bpf_load pkt 9 1 = Some 17 \<and> bpf_load pkt 1 1 = Some (word_of_int tos) \<and>
     bpf_load pkt 22 2 = Some (word_of_int innerPort)"
  by (simp add: innerPortBPF_def exec_simps split: option.splits)

lemma sonar_accepts:
  "exec (portRangeBPF minPort maxPort tos) 0 0 pkt \<noteq> 0 \<longleftrightarrow>
     (case bpf_load pkt 9 1 of None \<Rightarrow> False
      | Some proto \<Rightarrow>
          if proto = 17
          then bpf_load pkt 1 1 = Some (word_of_int tos) \<and>
               (case bpf_load pkt 22 2 of None \<Rightarrow> False
                | Some port \<Rightarrow> word_of_int minPort \<le> port \<and> port \<le> word_of_int maxPort)
          else proto \<le> word_of_int maxPort)"
  by (simp add: portRangeBPF_def exec_simps split: option.splits)

end

text \<open>A machine with these laws.\<close>

function bpf_exec :: "Instruction list \<Rightarrow> u32 \<Rightarrow> u32 \<Rightarrow> byte list \<Rightarrow> u32" where
  "bpf_exec [] a x pkt = 0"
| "bpf_exec (RetConstant v # prog) a x pkt = v"
| "bpf_exec (LoadAbsolute off sz # prog) a x pkt =
     (case bpf_load pkt off sz of None \<Rightarrow> 0 | Some v \<Rightarrow> bpf_exec prog v x pkt)"
| "bpf_exec (LoadIndirect off sz # prog) a x pkt =
     (case bpf_load pkt (unat x + off) sz of None \<Rightarrow> 0 | Some v \<Rightarrow> bpf_exec prog v x pkt)"
| "bpf_exec (JumpIf t v sf # prog) a x pkt = bpf_exec (drop (if jump_test t a v then 0 else sf) prog) a x pkt"
  by pat_completeness auto
termination
  by (relation "measure (\<lambda>(prog, a, x, pkt). length prog)") auto

interpretation vm: bpf_machine bpf_exec
  by unfold_locales simp_all

section \<open>What the filters accept\<close>

text \<open>Fields of an IPv4 packet without options, as delivered to a raw socket.\<close>

definition ip_proto :: "byte list \<Rightarrow> int" where "ip_proto pkt = uint (pkt ! 9)"

definition ip_tos :: "byte list \<Rightarrow> int" where "ip_tos pkt = uint (pkt ! 1)"

definition port_at :: "nat \<Rightarrow> byte list \<Rightarrow> int" where
  "port_at off pkt = 256 * uint (pkt ! off) + uint (pkt ! (off + 1))"

lemma bpf_load_1: "off < length pkt \<Longrightarrow> bpf_load pkt off (Suc 0) = Some (ucast (pkt ! off))"
  by (simp add: bpf_load_def slice_def be_word_def take_Suc_conv_app_nth)

lemma uint_ucast_byte [simp]: "uint (ucast b :: u32) = uint b" for b :: byte
  by (simp add: unsigned_ucast_eq take_bit_int_eq_self_iff uint_byte_bounds
      order.strict_trans2 [OF uint_byte_bounds(2)])

lemma uint_push_or: "uint (push_bit 8 (ucast a) OR ucast b :: u32) = 256 * uint a + uint b" for a b :: byte
proof -
  have "push_bit 8 (ucast a) OR ucast b = (push_bit 8 (ucast a) + ucast b :: u32)"
  proof (rule disjunctive_add [symmetric])
    fix n show "\<not> bit (push_bit 8 (ucast a) :: u32) n \<or> \<not> bit (ucast b :: u32) n"
      by (auto simp: bit_simps dest: bit_imp_le_length)
  qed
  also have "\<dots> = word_of_int (256 * uint a + uint b)" by (simp add: push_bit_eq_mult)
  also have "uint \<dots> = 256 * uint a + uint b"
    using uint_byte_bounds [of a] uint_byte_bounds [of b] by (intro uint_of_int_id) simp_all
  finally show ?thesis .
qed

lemma bpf_load_2:
  "off + 2 \<le> length pkt \<Longrightarrow> \<exists>v. bpf_load pkt off 2 = Some v \<and> uint v = port_at off pkt"
proof -
  assume l: "off + 2 \<le> length pkt"
  then have "slice off (off + 2) pkt = [pkt ! off, pkt ! (off + 1)]"
    by (simp add: slice_def numeral_2_eq_2 take_Suc_conv_app_nth)
  then show ?thesis using l uint_push_or [of "pkt ! off" "pkt ! (off + 1)"]
    by (simp add: bpf_load_def be_word_def port_at_def)
qed

text \<open>
  The filter of the EVR agent is exact: it accepts an IPv4 packet without options exactly when
  the packet is UDP, carries the configured TOS and is addressed to the configured inner port.
\<close>

theorem evr_filter_exact:
  assumes "bpf_machine exec" "24 \<le> length pkt" "0 \<le> innerPort" "innerPort < 65536" "0 \<le> tos" "tos < 256"
  shows "exec (innerPortBPF innerPort tos) 0 0 pkt \<noteq> 0 \<longleftrightarrow>
     ip_proto pkt = 17 \<and> ip_tos pkt = tos \<and> port_at 22 pkt = innerPort"
proof -
  obtain v where v: "bpf_load pkt 22 2 = Some v" "uint v = port_at 22 pkt"
    using bpf_load_2 [of 22 pkt] assms(2) by auto
  have "bpf_load pkt 9 1 = Some 17 \<longleftrightarrow> ip_proto pkt = 17"
    using assms(2) word_of_int_eq [of 17 "ucast (pkt ! 9) :: u32"] by (simp add: bpf_load_1 ip_proto_def)
  moreover have "bpf_load pkt 1 1 = Some (word_of_int tos) \<longleftrightarrow> ip_tos pkt = tos"
    using assms(2,5,6) by (simp add: bpf_load_1 ip_tos_def word_of_int_eq)
  moreover have "bpf_load pkt 22 2 = Some (word_of_int innerPort) \<longleftrightarrow> port_at 22 pkt = innerPort"
    using assms(3,4) v by (simp add: word_of_int_eq)
  ultimately show ?thesis using bpf_machine.inner_accepts [OF assms(1)] by simp
qed

definition demo_udp :: "byte list" where
  "demo_udp = [0x45, 0, 0, 36, 0, 0, 0, 0, 64, 17, 0, 0, 10, 0, 0, 1, 10, 0, 0, 2, 0, 9, 0x1F, 0x90, 0, 16, 0, 0]"

theorem evr_filter_exact_witness:
  "bpf_exec (innerPortBPF 8080 0) 0 0 demo_udp \<noteq> 0 \<longleftrightarrow>
     ip_proto demo_udp = 17 \<and> ip_tos demo_udp = 0 \<and> port_at 22 demo_udp = 8080"
  by (rule evr_filter_exact [OF vm.bpf_machine_axioms]) (simp_all add: demo_udp_def)

text \<open>
  What the filter of the IPv4 clients lets through. UDP packets pass exactly when their TOS and
  destination port match. The jump of the protocol test is two short, however: it lands on the
  comparison with the upper port, with the protocol number still in the register, so that every
  packet that is not UDP passes as well once the upper port is at least 255.
\<close>

theorem sonar_filter_accepts:
  assumes "bpf_machine exec" "24 \<le> length pkt" "0 \<le> minPort" "minPort < 65536"
    and "255 \<le> maxPort" "maxPort < 65536" "0 \<le> tos" "tos < 256"
  shows "exec (portRangeBPF minPort maxPort tos) 0 0 pkt \<noteq> 0 \<longleftrightarrow>
     (if ip_proto pkt = 17
      then ip_tos pkt = tos \<and> minPort \<le> port_at 22 pkt \<and> port_at 22 pkt \<le> maxPort
      else True)"
proof -
  obtain v where v: "bpf_load pkt 22 2 = Some v" "uint v = port_at 22 pkt"
    using bpf_load_2 [of 22 pkt] assms(2) by auto
  have p: "bpf_load pkt 9 1 = Some (ucast (pkt ! 9))" using assms(2) by (simp add: bpf_load_1)
  have e: "(ucast (pkt ! 9) :: u32) = 17 \<longleftrightarrow> ip_proto pkt = 17"
    using word_of_int_eq [of 17 "ucast (pkt ! 9) :: u32"] by (simp add: ip_proto_def)
  have "bpf_load pkt 1 1 = Some (word_of_int tos) \<longleftrightarrow> ip_tos pkt = tos"
    using assms(2,7,8) by (simp add: bpf_load_1 ip_tos_def word_of_int_eq)
  moreover have "(ucast (pkt ! 9) :: u32) \<le> word_of_int maxPort"
    using assms(5,6) uint_byte_bounds [of "pkt ! 9"] by (simp add: word_of_int_le)
  ultimately show ?thesis
    using bpf_machine.sonar_accepts [OF assms(1), of minPort maxPort tos pkt] v p e assms(3-6)
    by (simp add: le_word_of_int word_of_int_le)
qed

theorem sonar_filter_accepts_witness:
  "bpf_exec (portRangeBPF 8000 8100 0) 0 0 demo_udp \<noteq> 0 \<longleftrightarrow>
     (if ip_proto demo_udp = 17
      then ip_tos demo_udp = 0 \<and> 8000 \<le> port_at 22 demo_udp \<and> port_at 22 demo_udp \<le> 8100 else True)"
  by (rule sonar_filter_accepts [OF vm.bpf_machine_axioms]) (simp_all add: demo_udp_def)

lemma kuiniu_portRangeBPF_same: "kuiniu_portRangeBPF = portRangeBPF"
  by (simp add: fun_eq_iff kuiniu_portRangeBPF_def portRangeBPF_def)

lemma sonar6_filter_accepts:
  assumes "bpf_machine exec" "4 \<le> length pkt" "0 \<le> minPort" "minPort < 65536" "0 \<le> maxPort" "maxPort < 65536"
  shows "exec (sonar6_portRangeBPF minPort maxPort) 0 0 pkt \<noteq> 0 \<longleftrightarrow>
     minPort \<le> port_at 2 pkt \<and> port_at 2 pkt \<le> maxPort"
proof -
  obtain v where v: "bpf_load pkt 2 2 = Some v" "uint v = port_at 2 pkt"
    using bpf_load_2 [of 2 pkt] assms(2) by auto
  then show ?thesis using bpf_machine.sonar6_accepts [OF assms(1), of minPort maxPort pkt] assms(3-6)
    by (simp add: le_word_of_int word_of_int_le)
qed

end
