(* ===== verification/Sonar6_Codec.thy ===== *)
theory Sonar6_Codec
  imports Prelude
begin

text \<open>
  \<open>sonar6/codec/simple.go\<close>: the IPv6 packet builder's argument check and the walk over the
  extension headers of an IPv6 packet. The walk is compared with the chain RFC 8200 describes.
\<close>

section \<open>Building packets\<close>

datatype codec6_error =
    BadAddressLen nat nat
  | BuildFailed string
  | HeaderTooShort nat
  | ExtTruncated nat nat
  | ExtLengthExceeds nat nat nat
  | FragmentTruncated nat nat

text \<open>The packet builder of the library \<open>goscapy\<close> is the argument \<open>build\<close>.\<close>

definition EncodeUDPPacket6 ::
    "(byte list \<Rightarrow> byte list \<Rightarrow> byte \<Rightarrow> byte \<Rightarrow> u16 \<Rightarrow> u16 \<Rightarrow> byte list \<Rightarrow> string + byte list) \<Rightarrow>
     byte list \<Rightarrow> byte list \<Rightarrow> u16 \<Rightarrow> u16 \<Rightarrow> byte \<Rightarrow> int \<Rightarrow> byte list \<Rightarrow> codec6_error + byte list" where
  "EncodeUDPPacket6 build localIP remoteIP localPort remotePort trafficClass hopLimit payload =
     (if length localIP \<noteq> 16 \<or> length remoteIP \<noteq> 16
      then Inl (BadAddressLen (length localIP) (length remoteIP))
      else case build localIP remoteIP trafficClass (word_of_int hopLimit) localPort remotePort payload of
             Inl e \<Rightarrow> Inl (BuildFailed e)
           | Inr d \<Rightarrow> Inr d)"


section \<open>Walking the extension headers\<close>

definition ipv6HeaderLen :: nat where "ipv6HeaderLen = 40"

definition isUpperLayerProtocol :: "byte \<Rightarrow> bool" where
  "isUpperLayerProtocol proto \<longleftrightarrow> proto = 6 \<or> proto = 17 \<or> proto = 58"

text \<open>The length is computed in \<open>uint8\<close>: \<open>hdrExtLen + 1\<close> wraps.\<close>

definition parseStandardExtHeader :: "byte list \<Rightarrow> nat \<Rightarrow> codec6_error + (byte \<times> nat)" where
  "parseStandardExtHeader data offset =
     (if offset + 2 > length data then Inl (ExtTruncated offset (length data - offset))
      else
        let nh = data ! offset;
            hdrExtLen = data ! (offset + 1);
            extLen = unat (hdrExtLen + 1) * 8
        in if offset + extLen > length data
           then Inl (ExtLengthExceeds offset extLen (length data - offset))
           else Inr (nh, offset + extLen))"

text \<open>One turn of the loop: stop with a result, or go on with the next header.\<close>

definition ext_turn :: "byte list \<Rightarrow> byte \<Rightarrow> nat \<Rightarrow> (codec6_error + (byte \<times> nat)) + (byte \<times> nat)" where
  "ext_turn data nextHeader offset =
     (if nextHeader = 0 \<or> nextHeader = 43 \<or> nextHeader = 60 then
        (case parseStandardExtHeader data offset of Inl e \<Rightarrow> Inl (Inl e) | Inr s \<Rightarrow> Inr s)
      else if nextHeader = 44 then
        (if offset + 8 > length data then Inl (Inl (FragmentTruncated offset (length data - offset)))
         else Inr (data ! offset, offset + 8))
      else if nextHeader = 59 then Inl (Inr (59, offset))
      else if isUpperLayerProtocol nextHeader then Inl (Inr (nextHeader, offset))
      else (case parseStandardExtHeader data offset of Inl e \<Rightarrow> Inl (Inl e) | Inr s \<Rightarrow> Inr s))"

partial_function (option) ext_loop :: "byte list \<Rightarrow> byte \<Rightarrow> nat \<Rightarrow> (codec6_error + (byte \<times> nat)) option" where
  "ext_loop data nextHeader offset =
     (case ext_turn data nextHeader offset of
        Inl r \<Rightarrow> Some r
      | Inr s \<Rightarrow> ext_loop data (fst s) (snd s))"

declare ext_loop.simps [code]

definition ParseExtensionHeaders :: "byte list \<Rightarrow> (codec6_error + (byte \<times> nat)) option" where
  "ParseExtensionHeaders data =
     (if length data < ipv6HeaderLen then Some (Inl (HeaderTooShort (length data)))
      else ext_loop data (data ! 6) ipv6HeaderLen)"


section \<open>The chain of RFC 8200\<close>

text \<open>A header announces its length in units of 8 bytes, not counting the first; the fragment header
  has 8 bytes. The chain ends at an upper-layer protocol or at \<open>No Next Header\<close>.\<close>

definition ends_chain :: "byte \<Rightarrow> bool" where
  "ends_chain nh \<longleftrightarrow> nh = 6 \<or> nh = 17 \<or> nh = 58 \<or> nh = 59"

definition ext_size :: "byte list \<Rightarrow> byte \<Rightarrow> nat \<Rightarrow> nat" where
  "ext_size data nh offset = (if nh = 44 then 8 else (unat (data ! (offset + 1)) + 1) * 8)"

inductive rfc_chain :: "byte list \<Rightarrow> byte \<Rightarrow> nat \<Rightarrow> byte \<Rightarrow> nat \<Rightarrow> bool" for data where
  chain_end: "ends_chain nh \<Longrightarrow> rfc_chain data nh offset nh offset"
| chain_ext: "\<not> ends_chain nh \<Longrightarrow> offset + 2 \<le> length data \<Longrightarrow>
    offset + ext_size data nh offset \<le> length data \<Longrightarrow>
    rfc_chain data (data ! offset) (offset + ext_size data nh offset) p o' \<Longrightarrow>
    rfc_chain data nh offset p o'"

inductive_cases rfc_chain_ends: "rfc_chain data nh offset p o'"

text \<open>A length field of 255 cannot be represented by the loop; it sits at the second byte of a
  header, and headers start at multiples of 8.\<close>

definition no_wrap :: "byte list \<Rightarrow> bool" where
  "no_wrap data \<longleftrightarrow> (\<forall>i<length data. i mod 8 = 1 \<longrightarrow> data ! i \<noteq> 255)"

lemma unat_succ_byte: "b \<noteq> 255 \<Longrightarrow> unat (b + 1) = unat b + 1" for b :: byte
proof -
  assume "b \<noteq> 255"
  then have "unat b \<noteq> unat (255 :: byte)" by (metis unsigned_word_eqI)
  moreover have "unat b < 256" using unsigned_less [of b, where ?'a = nat] by simp
  ultimately show ?thesis by (simp add: unat_word_ariths(1))
qed

lemma ext_turn_cases:
  assumes "no_wrap data" "offset mod 8 = 0"
  shows "ends_chain nh \<Longrightarrow> ext_turn data nh offset = Inl (Inr (nh, offset))"
    and "\<not> ends_chain nh \<Longrightarrow> offset + 2 \<le> length data \<Longrightarrow> offset + ext_size data nh offset \<le> length data \<Longrightarrow>
      ext_turn data nh offset = Inr (data ! offset, offset + ext_size data nh offset)"
    and "\<not> ends_chain nh \<Longrightarrow> \<not> (offset + 2 \<le> length data \<and> offset + ext_size data nh offset \<le> length data) \<Longrightarrow>
      \<exists>e. ext_turn data nh offset = Inl (Inl e)"
proof -
  have w: "unat (data ! (offset + 1) + 1) = unat (data ! (offset + 1)) + 1" if "offset + 2 \<le> length data"
    using assms that by (intro unat_succ_byte) (auto simp: no_wrap_def mod_Suc)
  show "ends_chain nh \<Longrightarrow> ext_turn data nh offset = Inl (Inr (nh, offset))"
    by (auto simp: ext_turn_def ends_chain_def isUpperLayerProtocol_def)
  show "\<not> ends_chain nh \<Longrightarrow> offset + 2 \<le> length data \<Longrightarrow> offset + ext_size data nh offset \<le> length data \<Longrightarrow>
      ext_turn data nh offset = Inr (data ! offset, offset + ext_size data nh offset)"
    using w by (auto simp: ext_turn_def ends_chain_def isUpperLayerProtocol_def parseStandardExtHeader_def
        ext_size_def Let_def split: if_splits)
  show "\<not> ends_chain nh \<Longrightarrow> \<not> (offset + 2 \<le> length data \<and> offset + ext_size data nh offset \<le> length data) \<Longrightarrow>
      \<exists>e. ext_turn data nh offset = Inl (Inl e)"
    using w by (auto simp: ext_turn_def ends_chain_def isUpperLayerProtocol_def parseStandardExtHeader_def
        ext_size_def Let_def split: if_splits)
qed

lemma rfc_chain_unfold:
  "rfc_chain data nh offset p o' \<longleftrightarrow>
     (if ends_chain nh then p = nh \<and> o' = offset
      else offset + 2 \<le> length data \<and> offset + ext_size data nh offset \<le> length data \<and>
        rfc_chain data (data ! offset) (offset + ext_size data nh offset) p o')"
  by (subst rfc_chain.simps) auto

lemma ext_size_props: "0 < ext_size data nh offset" "ext_size data nh offset mod 8 = 0"
  by (simp_all add: ext_size_def)

lemma ext_loop_correct:
  assumes "no_wrap data" "offset mod 8 = 0"
  shows "\<exists>r. ext_loop data nh offset = Some r \<and> (\<forall>p o'. r = Inr (p, o') \<longleftrightarrow> rfc_chain data nh offset p o')"
  using assms(2)
proof (induction "length data - offset" arbitrary: nh offset rule: less_induct)
  case less
  show ?case
  proof (cases "ends_chain nh")
    case True
    then show ?thesis using ext_turn_cases(1) [OF assms(1) less.prems True]
      by (subst ext_loop.simps) (simp add: rfc_chain_unfold [of data nh], blast)
  next
    case ext: False
    let ?o = "offset + ext_size data nh offset"
    show ?thesis
    proof (cases "offset + 2 \<le> length data \<and> ?o \<le> length data")
      case True
      have "length data - ?o < length data - offset" using True ext_size_props(1) [of data nh offset] by linarith
      moreover have "?o mod 8 = 0" using less.prems ext_size_props(2) [of data nh offset] by presburger
      ultimately obtain r where "ext_loop data (data ! offset) ?o = Some r"
          "\<forall>p o'. r = Inr (p, o') \<longleftrightarrow> rfc_chain data (data ! offset) ?o p o'"
        using less.hyps [of ?o "data ! offset"] by auto
      then show ?thesis using True ext ext_turn_cases(2) [OF assms(1) less.prems ext]
        by (subst ext_loop.simps) (simp add: rfc_chain_unfold [of data nh])
    next
      case False
      then obtain e where "ext_turn data nh offset = Inl (Inl e)"
        using ext_turn_cases(3) [OF assms(1) less.prems ext] by blast
      then show ?thesis using ext False by (subst ext_loop.simps) (auto simp: rfc_chain_unfold [of data nh])
    qed
  qed
qed


text \<open>A packet with a hop-by-hop header before UDP.\<close>

definition demo_packet6 :: "byte list" where
  "demo_packet6 = replicate 40 0 @ [17, 0, 0, 0, 0, 0, 0, 0] @ replicate 8 0"


lemma ext_loop_stuck:
  assumes "ext_turn data nh offset = Inr (nh, offset)"
  shows "ext_loop data nh offset = None"
proof -
  have "\<not> (d = data \<and> n = nh \<and> k = offset)" if "ext_loop d n k = Some r" for d n k r
    by (rule ext_loop.raw_induct [where P = "\<lambda>d n k r. \<not> (d = data \<and> n = nh \<and> k = offset)", OF _ that])
       (clarsimp simp: assms, blast)
  then show ?thesis by (cases "ext_loop data nh offset") auto
qed

text \<open>
  The length computation wraps in \<open>uint8\<close>: a packet of 42 bytes or more whose first extension header
  announces the maximal length 255 and names a further extension header makes the walk loop
  forever, whatever follows.
\<close>

theorem extension_walk_diverges:
  assumes "42 \<le> length data" "data ! 41 = 255"
    and "\<not> ends_chain (data ! 6)" "data ! 6 \<noteq> 44" "\<not> ends_chain (data ! 40)" "data ! 40 \<noteq> 44"
  shows "ParseExtensionHeaders data = None"
proof -
  have t: "ext_turn data nh 40 = Inr (data ! 40, 40)" if "\<not> ends_chain nh" "nh \<noteq> 44" for nh
    using that assms(1,2)
    by (auto simp: ext_turn_def ends_chain_def isUpperLayerProtocol_def parseStandardExtHeader_def Let_def)
  have "ext_loop data (data ! 6) 40 = ext_loop data (data ! 40) 40"
    using assms(3,4) by (subst ext_loop.simps) (simp add: t)
  also have "\<dots> = None" using assms(5,6) by (intro ext_loop_stuck) (simp add: t)
  finally show ?thesis using assms(1) by (simp add: ParseExtensionHeaders_def ipv6HeaderLen_def)
qed

theorem extension_walk_diverges_witness:
  "ParseExtensionHeaders (replicate 40 0 @ [0, 255]) = None"
  by (rule extension_walk_diverges) (simp_all add: nth_append ends_chain_def)

end
