(* ===== verification/Sonar_Client.thy ===== *)
theory Sonar_Client
  imports Stat_Report Probe_Codecs Util_Salts Config_Sonar Bpf_Filters Sonar6_Codec
begin

text \<open>
  The bitflip client, \<open>sonar/client/client.go\<close>, and its IPv6 twin \<open>sonar6/client/client.go\<close>:
  peers, the send loop, the split of the client ports over the receiving sockets, and the handler
  of received packets. A peer holds the position of its statistics in the processor's list, so that
  the client and the processor see the same object. The library \<open>goscapy\<close> that builds and dissects
  packets is an argument; clock readings and the results of socket calls are inputs of a step.
\<close>

section \<open>State\<close>

record peer =
  pe_serverAddr :: string
  pe_stat :: nat
  pe_seq :: u64
  pe_localIP :: "IP option"
  pe_serverIP :: "IP option"
  pe_msgLen :: int
  pe_clientPortRange :: PortRange
  pe_serverPortRange :: PortRange
  pe_ports :: u32

text \<open>The maps of the send loop, all keyed by the peer: the bucket being filled, the count and first
  ports of the previous bucket (announced to the server) and of the current one.\<close>

record send_vars =
  sv_bucketID :: int
  sv_lastSent :: u32
  sv_curSent :: u32
  sv_lastStartSrcPort :: u16
  sv_lastStartDstPort :: u16
  sv_curStartSrcPort :: u16
  sv_curStartDstPort :: u16

record Client =
  cl_conf :: Config
  cl_peers :: "(string, peer) gomap"
  cl_salts :: Salts
  cl_proc :: Processor
  cl_delayBitflip :: int

definition set_stat :: "nat \<Rightarrow> udpStat \<Rightarrow> Processor \<Rightarrow> Processor" where
  "set_stat i s p = p\<lparr>p_stats := (p_stats p)[i := s]\<rparr>"

text \<open>Calling a recording method of the statistics at a position; \<open>None\<close> is a panic.\<close>

definition call_stat :: "(udpStat \<Rightarrow> udpStat option) \<Rightarrow> nat \<Rightarrow> Processor \<Rightarrow> Processor option" where
  "call_stat f i p =
     (if i < length (p_stats p) then map_option (\<lambda>s. set_stat i s p) (f (p_stats p ! i)) else None)"


section \<open>Setting up\<close>

definition new_peer :: "net_env \<Rightarrow> Config \<Rightarrow> u64 \<Rightarrow> nat \<Rightarrow> string \<Rightarrow> peer" where
  "new_peer env conf seq st addr =
     \<lparr>pe_serverAddr = addr, pe_stat = st, pe_seq = seq, pe_localIP = e_ParseIP env (c_ClientAddr conf),
      pe_serverIP = e_ParseIP env addr, pe_msgLen = c_MsgLen conf,
      pe_clientPortRange = c_ClientPortRange conf, pe_serverPortRange = c_ServerPortRange conf,
      pe_ports = packPorts (u16_of_int (pr_Min (c_ClientPortRange conf))) (u16_of_int (pr_Min (c_ServerPortRange conf)))\<rparr>"

text \<open>\<open>seqs\<close> are the random initial sequence numbers.\<close>

fun initPeers :: "net_env \<Rightarrow> (nat \<Rightarrow> u64) \<Rightarrow> string list \<Rightarrow> Client \<Rightarrow> Client" where
  "initPeers env seqs [] c = c"
| "initPeers env seqs (addr # addrs) c =
     (let st = length (p_stats (cl_proc c));
          p = new_peer env (cl_conf c) (seqs st) st addr;
          s = NewStat (c_ClientAddr (cl_conf c)) addr (c_ClientPortRange (cl_conf c)) (c_ServerPortRange (cl_conf c))
                (c_RateInSpan (cl_conf c)) (c_Span (cl_conf c)) (c_Delay (cl_conf c)) True
      in initPeers env seqs addrs
           (c\<lparr>cl_peers := AList.update addr p (cl_peers c), cl_proc := AddStat s (cl_proc c)\<rparr>))"

definition NewClient :: "net_env \<Rightarrow> (nat \<Rightarrow> u64) \<Rightarrow> Config \<Rightarrow> Processor \<Rightarrow> Client option" where
  "NewClient env seqs conf proc =
     (let conf = (if c_MsgLen conf < int MsgHeaderLen then conf\<lparr>c_MsgLen := int MsgHeaderLen\<rparr> else conf)
      in case NewSalts (c_MsgLen conf - int MsgHeaderLen) of
           None \<Rightarrow> None
         | Some salts \<Rightarrow>
             Some (initPeers env seqs (c_ServerAddrs conf)
               \<lparr>cl_conf = conf, cl_peers = [], cl_salts = salts, cl_proc = proc, cl_delayBitflip = 10 * second\<rparr>))"


section \<open>The send loop\<close>

definition init_vars :: "Config \<Rightarrow> send_vars" where
  "init_vars conf =
     \<lparr>sv_bucketID = 0, sv_lastSent = 0, sv_curSent = word_of_int (c_RateInSpan conf),
      sv_lastStartSrcPort = 0, sv_lastStartDstPort = 0,
      sv_curStartSrcPort = u16_of_int (pr_Min (c_ClientPortRange conf)),
      sv_curStartDstPort = u16_of_int (pr_Min (c_ServerPortRange conf))\<rparr>"

text \<open>The next port pair of a peer, and the bookkeeping of one probe sent at \<open>bucketID\<close>.\<close>

definition next_ports :: "peer \<Rightarrow> u16 \<times> u16" where
  "next_ports p =
     (let (localPort, serverPort) = unpackPorts (pe_ports p)
      in GetNextPorts_sonar localPort serverPort (pe_clientPortRange p) (pe_serverPortRange p))"

definition advance_peer :: "peer \<Rightarrow> peer" where
  "advance_peer p = p\<lparr>pe_seq := pe_seq p + 1, pe_ports := packPorts (fst (next_ports p)) (snd (next_ports p))\<rparr>"

definition advance_vars :: "int \<Rightarrow> u16 \<times> u16 \<Rightarrow> send_vars \<Rightarrow> send_vars" where
  "advance_vars bid ports v =
     (if bid \<noteq> sv_bucketID v then
        \<lparr>sv_bucketID = bid, sv_lastSent = sv_curSent v, sv_curSent = 1,
         sv_lastStartSrcPort = sv_curStartSrcPort v, sv_lastStartDstPort = sv_curStartDstPort v,
         sv_curStartSrcPort = fst ports, sv_curStartDstPort = snd ports\<rparr>
      else v\<lparr>sv_curSent := sv_curSent v + 1\<rparr>)"

text \<open>The inputs of one probe: the clock, the time since the loop started, and whether setting the
  deadline and writing succeed.\<close>

record send_io =
  io_ts :: int
  io_since :: int
  io_deadline_ok :: bool
  io_write_ok :: bool

record sender_state =
  ss_client :: Client
  ss_vars :: "(string, send_vars) gomap"
  ss_count :: int
  ss_wire :: "(string \<times> byte list) list"

datatype send_result = Continue | ReachedLimit

type_synonym builder = "IP option \<Rightarrow> IP option \<Rightarrow> u16 \<Rightarrow> u16 \<Rightarrow> byte \<Rightarrow> byte list \<Rightarrow> byte list option"

text \<open>\<open>EncodeUDPPacket\<close> hands over to the packet builder; the type of service is not used.\<close>

definition EncodeUDPPacket ::
    "builder \<Rightarrow> IP option \<Rightarrow> IP option \<Rightarrow> u16 \<Rightarrow> u16 \<Rightarrow> byte \<Rightarrow> int \<Rightarrow> byte list \<Rightarrow> byte list option" where
  "EncodeUDPPacket build localIP remoteIP localPort remotePort tos ttl payload =
     build localIP remoteIP localPort remotePort (word_of_int ttl) payload"

definition probe_payload :: "Client \<Rightarrow> peer \<Rightarrow> send_vars \<Rightarrow> int \<Rightarrow> byte list" where
  "probe_payload c p v ts =
     Encode (pe_seq p) (Get (cl_salts c) (pe_seq p)) ts (pe_msgLen p) (sv_lastSent v)
       (sv_lastStartSrcPort v) (sv_lastStartDstPort v)"

text \<open>One turn of the inner loop, for the peer under \<open>key\<close>; \<open>None\<close> is a panic.\<close>

definition send_probe :: "builder \<Rightarrow> send_io \<Rightarrow> string \<Rightarrow> sender_state \<Rightarrow> (sender_state \<times> send_result) option" where
  "send_probe build io key st =
     (let c = ss_client st; conf = cl_conf c
      in case map_of (cl_peers c) key of None \<Rightarrow> None | Some p0 \<Rightarrow>
         let p = advance_peer p0;
             ports = next_ports p0;
             c = c\<lparr>cl_peers := AList.update key p (cl_peers c)\<rparr>
         in if c_Span conf = 0 then None
            else
              let v0 = (case map_of (ss_vars st) key of None \<Rightarrow> init_vars conf | Some v \<Rightarrow> v);
                  v = advance_vars (i64 (io_ts io sdiv c_Span conf)) ports v0;
                  st = st\<lparr>ss_client := c, ss_vars := AList.update key v (ss_vars st)\<rparr>;
                  payload = probe_payload c p v (io_ts io)
              in case EncodeUDPPacket build (pe_localIP p) (pe_serverIP p) (fst ports) (snd ports)
                        (word_of_int (c_TOS conf)) 64 payload of
                   None \<Rightarrow> Some (st, Continue)
                 | Some data \<Rightarrow>
                     let st = st\<lparr>ss_count := ss_count st + 1\<rparr>
                     in if c_Count conf > 0 \<and> ss_count st > c_Count conf then Some (st, ReachedLimit)
                        else if c_SendDuration conf > 0 \<and> io_since io > c_SendDuration conf then Some (st, ReachedLimit)
                        else
                          (case call_stat (Stat_Put (fst ports) (snd ports) (pe_seq p) (io_ts io)) (pe_stat p) (cl_proc c) of
                             None \<Rightarrow> None
                           | Some proc \<Rightarrow>
                               let st = st\<lparr>ss_client := c\<lparr>cl_proc := proc\<rparr>\<rparr>
                               in if \<not> io_deadline_ok io then Some (st, Continue)
                                  else if io_write_ok io then Some (st\<lparr>ss_wire := ss_wire st @ [(key, data)]\<rparr>, Continue)
                                  else
                                    (case call_stat (Stat_Delete (pe_seq p) (io_ts io)) (pe_stat p) proc of
                                       None \<Rightarrow> None
                                     | Some proc' \<Rightarrow> Some (st\<lparr>ss_client := c\<lparr>cl_proc := proc'\<rparr>\<rparr>, Continue))))"

text \<open>The loop over a run of probes: which peer each is for (the order Go's map iteration chooses)
  and its inputs. It stops when a limit is reached.\<close>

fun serveWrite :: "builder \<Rightarrow> (string \<times> send_io) list \<Rightarrow> sender_state \<Rightarrow> (sender_state \<times> send_result) option" where
  "serveWrite build [] st = Some (st, Continue)"
| "serveWrite build ((key, io) # rest) st =
     (case send_probe build io key st of
        None \<Rightarrow> None
      | Some (st', ReachedLimit) \<Rightarrow> Some (st', ReachedLimit)
      | Some (st', Continue) \<Rightarrow> serveWrite build rest st')"

definition start_sending :: "Client \<Rightarrow> sender_state" where
  "start_sending c = \<lparr>ss_client = c, ss_vars = [], ss_count = 0, ss_wire = []\<rparr>"


section \<open>The receiving sockets\<close>

text \<open>The sub-ranges of the client ports, one per socket. The step is at least 1 for a non-empty
  range; \<open>n\<close> bounds the turns.\<close>

fun port_chunks :: "nat \<Rightarrow> int \<Rightarrow> int \<Rightarrow> int \<Rightarrow> (int \<times> int) list" where
  "port_chunks 0 i portMax portsPerG = []"
| "port_chunks (Suc n) i portMax portsPerG =
     (if i \<le> portMax
      then (i, if i + portsPerG - 1 > portMax then portMax else i + portsPerG - 1) #
           port_chunks n (i + portsPerG) portMax portsPerG
      else [])"

definition serveRead_chunks :: "PortRange \<Rightarrow> (int \<times> int) list" where
  "serveRead_chunks pr =
     (let portCount = pr_Max pr - pr_Min pr + 1;
          gcount = min portCount 8;
          portsPerG = (portCount + gcount - 1) sdiv gcount
      in port_chunks (nat portCount) (pr_Min pr) (pr_Max pr) portsPerG)"

definition serveRead_filters :: "Config \<Rightarrow> Instruction list list" where
  "serveRead_filters conf =
     map (\<lambda>(lo, hi). portRangeBPF lo hi (c_TOS conf)) (serveRead_chunks (c_ClientPortRange conf))"


section \<open>Received packets\<close>

definition detectBitflip :: "int \<Rightarrow> Client \<Rightarrow> bool" where
  "detectBitflip sinceStartup c \<longleftrightarrow> \<not> sinceStartup \<le> cl_delayBitflip c"

text \<open>\<open>dissect\<close> gives the payload of a packet, if it has one.\<close>

definition handlePacket ::
    "(byte list \<Rightarrow> byte list option) \<Rightarrow> int \<Rightarrow> int \<Rightarrow> string \<Rightarrow> byte list \<Rightarrow> Client \<Rightarrow> Client option" where
  "handlePacket dissect now sinceStartup remote pkt c =
     (case dissect pkt of
        None \<Rightarrow> Some c
      | Some payload \<Rightarrow>
          if payload = [] \<or> \<not> IsValid payload then Some c
          else
            (case Decode payload of (seq, ts, _, _, _) \<Rightarrow>
               (case map_of (cl_peers c) remote of
                  None \<Rightarrow> Some c
                | Some p \<Rightarrow>
                    let differs = (int (length payload) = c_MsgLen (cl_conf c) \<and>
                                   Get (cl_salts c) seq \<noteq> drop MsgHeaderLen payload);
                        hasBitflip = (differs \<and> detectBitflip sinceStartup c)
                    in if hasBitflip then Some c
                       else map_option (\<lambda>proc. c\<lparr>cl_proc := proc\<rparr>)
                              (call_stat (Stat_Received seq ts (i64 (now - ts)) hasBitflip) (pe_stat p) (cl_proc c)))))"

text \<open>The loop of one receiving socket over the outcomes of its reads, \<open>None\<close> for an error; it exits at the tenth
  error in a row. A read carries the clock, the time since start-up, the sender and the packet. The flag
  tells whether the loop is still running.\<close>

fun readLoop ::
    "(byte list \<Rightarrow> byte list option) \<Rightarrow> nat \<Rightarrow> (int \<times> int \<times> string \<times> byte list) option list \<Rightarrow> Client \<Rightarrow> (Client \<times> bool) option" where
  "readLoop dissect errCount [] c = Some (c, True)"
| "readLoop dissect errCount (None # reads) c =
     (if 10 \<le> Suc errCount then Some (c, False) else readLoop dissect (Suc errCount) reads c)"
| "readLoop dissect errCount (Some (now, since, remote, pkt) # reads) c =
     (case handlePacket dissect now since remote pkt c of None \<Rightarrow> None | Some c' \<Rightarrow> readLoop dissect 0 reads c')"

lemma call_stat_length: "call_stat f i p = Some p' \<Longrightarrow> length (p_stats p') = length (p_stats p)"
  by (auto simp: call_stat_def set_stat_def split: if_splits)


section \<open>The split of the ports\<close>

lemma div_eq_iff_between: "0 < g \<Longrightarrow> x div g = k \<longleftrightarrow> k * g \<le> x \<and> x < (k + 1) * g" for g k x :: int
proof
  assume g: "0 < g" and k: "x div g = k"
  have "k * g + x mod g = x" "0 \<le> x mod g" "x mod g < g" using g k div_mult_mod_eq [of x g] by simp_all
  then show "k * g \<le> x \<and> x < (k + 1) * g" unfolding distrib_right mult_1 by linarith
next
  assume "0 < g" "k * g \<le> x \<and> x < (k + 1) * g"
  then show "x div g = k" by (intro int_div_pos_eq [of x g k "x - k * g"]) (auto simp: algebra_simps)
qed

lemma le_mult_pos: "0 < g \<Longrightarrow> int k \<le> int k * g" for g :: int
  using mult_left_mono [of 1 g "int k"] by simp

lemma port_chunks_nth:
  assumes "0 < g" "k < length (port_chunks n i M g)"
  shows "port_chunks n i M g ! k = (i + int k * g, min M (i + (int k + 1) * g - 1)) \<and> i + int k * g \<le> M"
  using assms(2)
proof (induction n arbitrary: i k)
  case (Suc n)
  then have i: "i \<le> M" by (auto split: if_splits)
  show ?case
  proof (cases k)
    case 0
    then show ?thesis using i by simp
  next
    case (Suc j)
    then show ?thesis using i Suc.IH [of j "i + g"] Suc.prems by (simp add: algebra_simps)
  qed
qed simp

lemma port_chunks_length:
  assumes "0 < g"
  shows "k < length (port_chunks n i M g) \<longleftrightarrow> k < n \<and> i + int k * g \<le> M"
proof (induction n arbitrary: i k)
  case (Suc n)
  have mono: "i + int k * g \<le> M \<Longrightarrow> i \<le> M" using le_mult_pos [OF assms, of k] by linarith
  show ?case
  proof (cases k)
    case 0
    then show ?thesis by simp
  next
    case (Suc j)
    then show ?thesis using Suc.IH [of j "i + g"] mono by (auto simp: algebra_simps)
  qed
qed simp

lemma chunk_step:
  assumes "valid_range pr"
  defines "N \<equiv> pr_Max pr - pr_Min pr + 1"
  shows "0 < (N + min N 8 - 1) sdiv min N 8" and "N \<le> 8 * ((N + min N 8 - 1) sdiv min N 8)"
proof -
  have N: "0 < N" using assms by (simp add: valid_range_def)
  define d where "d = min N 8"
  have d: "0 < d" "d \<le> 8" "d \<le> N" using N by (auto simp: d_def)
  have q: "(N + d - 1) sdiv d = (N + d - 1) div d" using N d by (simp add: sdiv_nonneg)
  have "N + d - 1 = d * ((N + d - 1) div d) + (N + d - 1) mod d" by simp
  moreover have "(N + d - 1) mod d < d" using d by simp
  ultimately have le: "N \<le> d * ((N + d - 1) div d)" by linarith
  show pos: "0 < (N + min N 8 - 1) sdiv min N 8"
    using q d le N unfolding d_def [symmetric] by (metis linorder_not_less mult_nonneg_nonpos order.strict_implies_order order.strict_trans2)
  then have "d * ((N + d - 1) div d) \<le> 8 * ((N + d - 1) div d)"
    using q d unfolding d_def [symmetric] by (intro mult_right_mono) auto
  then show "N \<le> 8 * ((N + min N 8 - 1) sdiv min N 8)" using le q unfolding d_def [symmetric] by linarith
qed

lemma serveRead_chunks_cover:
  assumes v: "valid_range pr"
  shows "length (serveRead_chunks pr) \<le> 8"
    and "pr_Min pr \<le> port \<Longrightarrow> port \<le> pr_Max pr \<Longrightarrow>
      \<exists>!k. k < length (serveRead_chunks pr) \<and>
        fst (serveRead_chunks pr ! k) \<le> port \<and> port \<le> snd (serveRead_chunks pr ! k)"
    and "k < length (serveRead_chunks pr) \<Longrightarrow>
      pr_Min pr \<le> fst (serveRead_chunks pr ! k) \<and> fst (serveRead_chunks pr ! k) \<le> pr_Max pr \<and>
      snd (serveRead_chunks pr ! k) \<le> pr_Max pr \<and> pr_Min pr \<le> snd (serveRead_chunks pr ! k)"
proof -
  define N where "N = pr_Max pr - pr_Min pr + 1"
  define g where "g = (N + min N 8 - 1) sdiv min N 8"
  have g: "0 < g" "N \<le> 8 * g" using chunk_step [OF v] by (simp_all add: N_def g_def)
  have c: "serveRead_chunks pr = port_chunks (nat N) (pr_Min pr) (pr_Max pr) g"
    by (simp add: serveRead_chunks_def Let_def N_def g_def)
  note nth = port_chunks_nth [OF g(1), of _ "nat N" "pr_Min pr" "pr_Max pr"]
  note len = port_chunks_length [OF g(1), of _ "nat N" "pr_Min pr" "pr_Max pr"]
  show "length (serveRead_chunks pr) \<le> 8"
  proof (rule ccontr)
    assume "\<not> ?thesis"
    then have "8 < length (serveRead_chunks pr)" by simp
    then have "pr_Min pr + 8 * g \<le> pr_Max pr" using len [of 8] unfolding c by simp
    then show False using g(2) by (simp add: N_def)
  qed
  show "pr_Min pr \<le> port \<Longrightarrow> port \<le> pr_Max pr \<Longrightarrow> \<exists>!k. k < length (serveRead_chunks pr) \<and>
      fst (serveRead_chunks pr ! k) \<le> port \<and> port \<le> snd (serveRead_chunks pr ! k)"
  proof -
    assume p: "pr_Min pr \<le> port" "port \<le> pr_Max pr"
    have iff: "k < length (serveRead_chunks pr) \<and> fst (serveRead_chunks pr ! k) \<le> port \<and>
        port \<le> snd (serveRead_chunks pr ! k) \<longleftrightarrow> int k = (port - pr_Min pr) div g" for k
    proof -
      have d: "(port - pr_Min pr) div g = int k \<longleftrightarrow> int k * g \<le> port - pr_Min pr \<and> port - pr_Min pr < (int k + 1) * g"
        using g(1) by (rule div_eq_iff_between)
      have n: "int k * g \<le> port - pr_Min pr \<Longrightarrow> k < length (serveRead_chunks pr)"
        using le_mult_pos [OF g(1), of k] p len [of k] unfolding c N_def by linarith
      show ?thesis
      proof
        assume a: "k < length (serveRead_chunks pr) \<and> fst (serveRead_chunks pr ! k) \<le> port \<and>
          port \<le> snd (serveRead_chunks pr ! k)"
        then have "int k * g \<le> port - pr_Min pr \<and> port - pr_Min pr < (int k + 1) * g"
          using nth [of k] unfolding c by simp
        then show "int k = (port - pr_Min pr) div g" using d by simp
      next
        assume "int k = (port - pr_Min pr) div g"
        then have b: "int k * g \<le> port - pr_Min pr" "port - pr_Min pr < (int k + 1) * g" using d by simp_all
        then show "k < length (serveRead_chunks pr) \<and> fst (serveRead_chunks pr ! k) \<le> port \<and>
          port \<le> snd (serveRead_chunks pr ! k)"
          using n nth [of k] p unfolding c by simp
      qed
    qed
    have "int (nat ((port - pr_Min pr) div g)) = (port - pr_Min pr) div g"
      using p g(1) by (simp add: pos_imp_zdiv_nonneg_iff)
    then show ?thesis unfolding iff by (metis of_nat_eq_iff)
  qed
  show "k < length (serveRead_chunks pr) \<Longrightarrow>
      pr_Min pr \<le> fst (serveRead_chunks pr ! k) \<and> fst (serveRead_chunks pr ! k) \<le> pr_Max pr \<and>
      snd (serveRead_chunks pr ! k) \<le> pr_Max pr \<and> pr_Min pr \<le> snd (serveRead_chunks pr ! k)"
    using nth [of k] g(1) v le_mult_pos [OF g(1), of k] unfolding c
    by (auto simp: min_def valid_range_def distrib_right)
qed

text \<open>
  The receiving sockets share the client ports without overlap: at most eight of them are opened,
  and with the filters of the IPv6 client every UDP packet addressed to a port of the range reaches
  exactly one of them, and a packet for any other port reaches none.
\<close>

theorem sockets_share_ports:
  assumes "bpf_machine exec" "valid_range pr" "4 \<le> length pkt"
  shows "length (serveRead_chunks pr) \<le> 8 \<and>
    (if pr_Min pr \<le> port_at 2 pkt \<and> port_at 2 pkt \<le> pr_Max pr
     then \<exists>!k. k < length (serveRead_chunks pr) \<and>
       exec (sonar6_portRangeBPF (fst (serveRead_chunks pr ! k)) (snd (serveRead_chunks pr ! k))) 0 0 pkt \<noteq> 0
     else \<forall>(lo, hi) \<in> set (serveRead_chunks pr). exec (sonar6_portRangeBPF lo hi) 0 0 pkt = 0)"
proof -
  note ch = serveRead_chunks_cover [OF assms(2)]
  have e: "exec (sonar6_portRangeBPF (fst (serveRead_chunks pr ! k)) (snd (serveRead_chunks pr ! k))) 0 0 pkt \<noteq> 0 \<longleftrightarrow>
      fst (serveRead_chunks pr ! k) \<le> port_at 2 pkt \<and> port_at 2 pkt \<le> snd (serveRead_chunks pr ! k)"
    if "k < length (serveRead_chunks pr)" for k
    using ch(3) [OF that] assms(2) by (intro sonar6_filter_accepts [OF assms(1,3)]) (auto simp: valid_range_def)
  have "\<exists>!k. k < length (serveRead_chunks pr) \<and>
       exec (sonar6_portRangeBPF (fst (serveRead_chunks pr ! k)) (snd (serveRead_chunks pr ! k))) 0 0 pkt \<noteq> 0"
    if "pr_Min pr \<le> port_at 2 pkt" "port_at 2 pkt \<le> pr_Max pr"
    using ch(2) [OF that] e by (metis (no_types, lifting))
  moreover have "exec (sonar6_portRangeBPF lo hi) 0 0 pkt = 0"
    if out: "\<not> (pr_Min pr \<le> port_at 2 pkt \<and> port_at 2 pkt \<le> pr_Max pr)" and m: "(lo, hi) \<in> set (serveRead_chunks pr)" for lo hi
  proof -
    obtain k where k: "k < length (serveRead_chunks pr)" "serveRead_chunks pr ! k = (lo, hi)"
      using m by (auto simp: in_set_conv_nth)
    then show ?thesis using e [OF k(1)] ch(3) [OF k(1)] out by auto
  qed
  ultimately show ?thesis using ch(1) by auto
qed

theorem sockets_share_ports_witness:
  "length (serveRead_chunks \<lparr>pr_Min = 43500, pr_Max = 43599\<rparr>) \<le> 8 \<and>
   (\<exists>!k. k < length (serveRead_chunks \<lparr>pr_Min = 43500, pr_Max = 43599\<rparr>) \<and>
     bpf_exec (sonar6_portRangeBPF (fst (serveRead_chunks \<lparr>pr_Min = 43500, pr_Max = 43599\<rparr> ! k))
       (snd (serveRead_chunks \<lparr>pr_Min = 43500, pr_Max = 43599\<rparr> ! k))) 0 0 [0, 9, 0xA9, 0xF0, 0, 8, 0, 0] \<noteq> 0)"
  using sockets_share_ports [OF vm.bpf_machine_axioms, of "\<lparr>pr_Min = 43500, pr_Max = 43599\<rparr>" "[0, 9, 0xA9, 0xF0, 0, 8, 0, 0]"]
  by (simp add: valid_range_def port_at_def)

section \<open>What the client announces\<close>

text \<open>The probes to one peer, newest first, as the buckets they fall in and their ports, cut into the
  runs that share a bucket.\<close>

fun spans :: "(int \<times> 'p) list \<Rightarrow> (int \<times> 'p list) list" where
  "spans [] = []"
| "spans ((b, p) # h) =
     (case spans h of
        [] \<Rightarrow> [(b, [p])]
      | (b', ps) # gs \<Rightarrow> if b = b' then (b', p # ps) # gs else (b, [p]) # (b', ps) # gs)"

definition vars_after :: "Config \<Rightarrow> (int \<times> u16 \<times> u16) list \<Rightarrow> send_vars" where
  "vars_after conf h = foldr (\<lambda>(b, p). advance_vars b p) h (init_vars conf)"

lemma spans_nonempty: "(b, ps) \<in> set (spans h) \<Longrightarrow> ps \<noteq> []"
  by (induction h arbitrary: b ps rule: spans.induct) (auto split: list.splits if_splits)

lemma spans_Nil: "spans h = [] \<longleftrightarrow> h = []"
  by (cases h rule: spans.cases) (auto split: list.splits)

lemma spans_ids: "(b, ps) \<in> set (spans h) \<Longrightarrow> \<exists>p. (b, p) \<in> set h"
  by (induction h arbitrary: b ps rule: spans.induct) (fastforce split: list.splits if_splits)+

lemma vars_current:
  assumes "\<forall>(b, p) \<in> set h. b \<noteq> 0" "spans h = (b, ps) # gs"
  shows "sv_bucketID (vars_after conf h) = b \<and> sv_curSent (vars_after conf h) = of_nat (length ps) \<and>
    (sv_curStartSrcPort (vars_after conf h), sv_curStartDstPort (vars_after conf h)) = last ps"
  using assms
proof (induction h arbitrary: b ps gs)
  case (Cons x h)
  obtain b1 p where x: "x = (b1, p)" by (cases x)
  show ?case
  proof (cases "spans h")
    case Nil
    then have "h = []" by (simp add: spans_Nil)
    then show ?thesis using Cons.prems x by (auto simp: vars_after_def advance_vars_def init_vars_def)
  next
    case (Cons y gs')
    obtain b' qs where y: "y = (b', qs)" by (cases y)
    have ih: "sv_bucketID (vars_after conf h) = b'" "sv_curSent (vars_after conf h) = of_nat (length qs)"
      "(sv_curStartSrcPort (vars_after conf h), sv_curStartDstPort (vars_after conf h)) = last qs"
      using Cons.IH [of b' qs gs'] Cons.prems Cons y by simp_all
    have "qs \<noteq> []" using spans_nonempty [of b' qs h] Cons y by simp
    then show ?thesis using ih Cons y Cons.prems x
      by (auto simp: vars_after_def advance_vars_def split: if_splits)
  qed
qed simp

lemma vars_previous:
  assumes "\<forall>(b, p) \<in> set h. b \<noteq> 0" "spans h = (b, ps) # (b', qs) # gs"
  shows "sv_lastSent (vars_after conf h) = of_nat (length qs) \<and>
    (sv_lastStartSrcPort (vars_after conf h), sv_lastStartDstPort (vars_after conf h)) = last qs"
  using assms
proof (induction h arbitrary: b ps)
  case (Cons x h)
  obtain b1 p where x: "x = (b1, p)" by (cases x)
  obtain b2 rs hs where s: "spans h = (b2, rs) # hs"
    using Cons.prems(2) x by (auto split: list.splits)
  show ?case
  proof (cases "b1 = b2")
    case True
    then have "hs = (b', qs) # gs" using Cons.prems(2) x s by simp
    then have "sv_lastSent (vars_after conf h) = of_nat (length qs) \<and>
        (sv_lastStartSrcPort (vars_after conf h), sv_lastStartDstPort (vars_after conf h)) = last qs"
      using Cons.IH [of b2 rs] Cons.prems(1) s by simp
    moreover have "sv_bucketID (vars_after conf h) = b2" using vars_current [of h b2 rs hs] Cons.prems(1) s by simp
    ultimately show ?thesis using True x by (simp add: vars_after_def advance_vars_def)
  next
    case False
    then have "(b2, rs) = (b', qs)" using Cons.prems(2) x s by simp
    then show ?thesis using False x s vars_current [of h b2 rs hs] Cons.prems(1)
      by (simp add: vars_after_def advance_vars_def)
  qed
qed simp

lemma send_probe_effect:
  assumes "send_probe build io k st = Some (st', r)"
  obtains p where "map_of (cl_peers (ss_client st)) k = Some p" "c_Span (cl_conf (ss_client st)) \<noteq> 0"
    "cl_conf (ss_client st') = cl_conf (ss_client st)"
    "cl_peers (ss_client st') = AList.update k (advance_peer p) (cl_peers (ss_client st))"
    "ss_vars st' = AList.update k (advance_vars (i64 (io_ts io sdiv c_Span (cl_conf (ss_client st)))) (next_ports p)
       (case map_of (ss_vars st) k of None \<Rightarrow> init_vars (cl_conf (ss_client st)) | Some v \<Rightarrow> v)) (ss_vars st)"
proof -
  obtain p where p: "map_of (cl_peers (ss_client st)) k = Some p" "c_Span (cl_conf (ss_client st)) \<noteq> 0"
    using assms by (cases "map_of (cl_peers (ss_client st)) k") (auto simp: send_probe_def Let_def split: if_splits)
  show ?thesis
  proof (rule that [OF p])
    show "cl_conf (ss_client st') = cl_conf (ss_client st)"
      using assms p by (auto simp: send_probe_def Let_def split: option.splits if_splits)
    show "cl_peers (ss_client st') = AList.update k (advance_peer p) (cl_peers (ss_client st))"
      using assms p by (auto simp: send_probe_def Let_def split: option.splits if_splits)
    show "ss_vars st' = AList.update k (advance_vars (i64 (io_ts io sdiv c_Span (cl_conf (ss_client st)))) (next_ports p)
       (case map_of (ss_vars st) k of None \<Rightarrow> init_vars (cl_conf (ss_client st)) | Some v \<Rightarrow> v)) (ss_vars st)"
      using assms p unfolding send_probe_def Let_def by (auto split: option.splits if_splits)
  qed
qed

text \<open>The probes of a run that go to one peer, newest first: their buckets, and the ports the odometer
  gives them after \<open>p\<close>.\<close>

fun probe_log :: "(u16 \<times> u16 \<Rightarrow> u16 \<times> u16) \<Rightarrow> int \<Rightarrow> string \<Rightarrow> (string \<times> send_io) list \<Rightarrow> u16 \<times> u16 \<Rightarrow>
    (int \<times> u16 \<times> u16) list \<Rightarrow> (int \<times> u16 \<times> u16) list" where
  "probe_log nxt spn key [] p h = h"
| "probe_log nxt spn key ((k, io) # rest) p h =
     (if k = key then probe_log nxt spn key rest (nxt p) ((i64 (io_ts io sdiv spn), nxt p) # h)
      else probe_log nxt spn key rest p h)"

lemma advance_peer_ports:
  "unpackPorts (pe_ports (advance_peer p)) = next_ports p"
  "next_ports p = next_pair (pe_clientPortRange p) (pe_serverPortRange p) (unpackPorts (pe_ports p))"
  "pe_clientPortRange (advance_peer p) = pe_clientPortRange p" "pe_serverPortRange (advance_peer p) = pe_serverPortRange p"
  by (simp_all add: advance_peer_def next_ports_def next_pair_def GetNextPorts_copies case_prod_beta)

lemma serveWrite_vars:
  assumes "serveWrite build ios st = Some (st', Continue)"
    and "map_of (cl_peers (ss_client st)) key = Some p"
    and "conf = cl_conf (ss_client st)"
    and "(case map_of (ss_vars st) key of None \<Rightarrow> init_vars conf | Some v \<Rightarrow> v) = vars_after conf h"
  shows "(case map_of (ss_vars st') key of None \<Rightarrow> init_vars conf | Some v \<Rightarrow> v) =
    vars_after conf (probe_log (next_pair (pe_clientPortRange p) (pe_serverPortRange p)) (c_Span conf) key ios
      (unpackPorts (pe_ports p)) h)"
  using assms
proof (induction ios arbitrary: st p h)
  case (Cons x ios)
  obtain k io where x: "x = (k, io)" by (cases x)
  obtain st1 where s1: "send_probe build io k st = Some (st1, Continue)" and rest: "serveWrite build ios st1 = Some (st', Continue)"
    using Cons.prems(1) x by (auto split: option.splits send_result.splits)
  obtain q where q: "map_of (cl_peers (ss_client st)) k = Some q" "cl_conf (ss_client st1) = conf"
    "cl_peers (ss_client st1) = AList.update k (advance_peer q) (cl_peers (ss_client st))"
    "ss_vars st1 = AList.update k (advance_vars (i64 (io_ts io sdiv c_Span conf)) (next_ports q)
       (case map_of (ss_vars st) k of None \<Rightarrow> init_vars conf | Some v \<Rightarrow> v)) (ss_vars st)"
    using send_probe_effect [OF s1] Cons.prems(3) by metis
  show ?case
  proof (cases "k = key")
    case True
    then have "q = p" using q(1) Cons.prems(2) by simp
    then have "(case map_of (ss_vars st1) key of None \<Rightarrow> init_vars conf | Some v \<Rightarrow> v) =
        vars_after conf ((i64 (io_ts io sdiv c_Span conf), next_ports p) # h)"
      using q(4) Cons.prems(4) True by (simp add: vars_after_def update_conv')
    moreover have "map_of (cl_peers (ss_client st1)) key = Some (advance_peer p)"
      using q(3) True \<open>q = p\<close> by (simp add: update_conv')
    ultimately show ?thesis
      using Cons.IH [OF rest, of "advance_peer p"] q(2) x True by (simp add: advance_peer_ports)
  next
    case False
    then have "map_of (cl_peers (ss_client st1)) key = Some p" "map_of (ss_vars st1) key = map_of (ss_vars st) key"
      using q(3,4) Cons.prems(2) by (simp_all add: update_conv')
    then show ?thesis using Cons.IH [OF rest, of p h] q(2) x False Cons.prems(4) by simp
  qed
qed simp

text \<open>The ports of each span are a run of the odometer.\<close>

lemma probe_log_linked:
  "successively (\<lambda>a b. a = nxt b) (map snd h) \<Longrightarrow> (h \<noteq> [] \<Longrightarrow> snd (hd h) = p) \<Longrightarrow>
     successively (\<lambda>a b. a = nxt b) (map snd (probe_log nxt spn key ios p h))"
proof (induction ios arbitrary: p h)
  case (Cons x ios)
  obtain k io where x: "x = (k, io)" by (cases x)
  show ?case
  proof (cases "k = key")
    case True
    then show ?thesis
      using x Cons.IH [of "(i64 (io_ts io sdiv spn), nxt p) # h" "nxt p"] Cons.prems
      by (cases h) auto
  next
    case False
    then show ?thesis using x Cons.IH [of h p] Cons.prems by simp
  qed
qed simp

lemma concat_spans: "concat (map snd (spans h)) = map snd h"
  by (induction h rule: spans.induct) (auto split: list.splits)

lemma successively_part: "successively P (concat xss) \<Longrightarrow> xs \<in> set xss \<Longrightarrow> successively P xs"
  by (induction xss) (auto simp: successively_append_iff)

lemma linked_is_run:
  "successively (\<lambda>a b. a = next_pair cr sr b) qs \<Longrightarrow> qs \<noteq> [] \<Longrightarrow>
     rev qs = port_run cr sr (last qs) (length qs) \<and> hd qs = (next_pair cr sr ^^ (length qs - 1)) (last qs)"
proof (induction qs)
  case (Cons a qs)
  show ?case
  proof (cases qs)
    case Nil
    then show ?thesis by (simp add: port_run_def)
  next
    case (Cons b bs)
    then have "a = next_pair cr sr (hd qs)" using Cons.prems by simp
    moreover have "rev qs = port_run cr sr (last qs) (length qs) \<and> hd qs = (next_pair cr sr ^^ (length qs - 1)) (last qs)"
      using Cons.IH Cons.prems Cons by simp
    ultimately show ?thesis using Cons by (simp add: port_run_def)
  qed
qed simp


definition demo_conf :: Config where
  "demo_conf = demo_config\<lparr>c_Role := RoleClient, c_ClientAddr := ''10.0.0.1'', c_ServerAddrs := [''10.0.0.1''],
     c_ClientPortRange := \<lparr>pr_Min = 10, pr_Max = 13\<rparr>, c_ServerPortRange := \<lparr>pr_Min = 20, pr_Max = 23\<rparr>,
     c_RateInSpan := 4, c_Span := 10, c_Delay := 30, c_MsgLen := 36\<rparr>"

definition demo_peer :: peer where
  "demo_peer = new_peer demo_env demo_conf 7 0 ''10.0.0.1''"

definition demo_client :: Client where
  "demo_client = \<lparr>cl_conf = demo_conf, cl_peers = [(''10.0.0.1'', demo_peer)],
     cl_salts = \<lparr>s_salts = [replicate 4 0xFF, replicate 4 0, replicate 4 0x5A, ComplementaryBytes 4], s_msgLen = 4\<rparr>,
     cl_proc = \<lparr>p_stats = [NewStat ''10.0.0.1'' ''10.0.0.1'' \<lparr>pr_Min = 10, pr_Max = 13\<rparr> \<lparr>pr_Min = 20, pr_Max = 23\<rparr> 4 10 30 True],
                p_span = 10, p_delay = 30\<rparr>, cl_delayBitflip = 10 * second\<rparr>"

definition demo_io :: "int \<Rightarrow> string \<times> send_io" where
  "demo_io ts = (''10.0.0.1'', \<lparr>io_ts = ts, io_since = 0, io_deadline_ok = True, io_write_ok = True\<rparr>)"

lemma demo_log:
  "probe_log (next_pair (pe_clientPortRange demo_peer) (pe_serverPortRange demo_peer)) (c_Span (cl_conf demo_client))
     ''10.0.0.1'' [demo_io 15, demo_io 17, demo_io 25] (unpackPorts (pe_ports demo_peer)) [] =
   [(2, 10, 23), (1, 10, 22), (1, 10, 21)]"
  by code_simp


section \<open>Echoes\<close>

lemma Stat_Received_table:
  assumes "well_formed (us_bkts s)" "0 \<le> ts" "in_i64 ts"
  shows "\<exists>s'. Stat_Received seq ts rtt bf s = Some s' \<and> well_formed (us_bkts s') \<and>
    table_of (us_bkts s') = table_received (ts div bs_span (us_bkts s)) seq rtt bf (table_of (us_bkts s))"
  using bk.received_law [OF assms, of seq rtt bf] by (auto simp: Stat_Received_def lift_bkts_def)

lemma call_stat_Received:
  assumes "i < length (p_stats proc)" "well_formed (us_bkts (p_stats proc ! i))" "0 \<le> ts" "in_i64 ts"
  shows "\<exists>proc'. call_stat (Stat_Received seq ts rtt bf) i proc = Some proc' \<and>
    length (p_stats proc') = length (p_stats proc) \<and> (\<forall>j. j \<noteq> i \<longrightarrow> p_stats proc' ! j = p_stats proc ! j) \<and>
    well_formed (us_bkts (p_stats proc' ! i)) \<and>
    table_of (us_bkts (p_stats proc' ! i)) = table_received (ts div bs_span (us_bkts (p_stats proc ! i))) seq rtt bf
      (table_of (us_bkts (p_stats proc ! i)))"
proof -
  obtain s' where "Stat_Received seq ts rtt bf (p_stats proc ! i) = Some s'" "well_formed (us_bkts s')"
    "table_of (us_bkts s') = table_received (ts div bs_span (us_bkts (p_stats proc ! i))) seq rtt bf (table_of (us_bkts (p_stats proc ! i)))"
    using Stat_Received_table [OF assms(2-4)] by blast
  then show ?thesis using assms(1) by (auto simp: call_stat_def set_stat_def)
qed

text \<open>The client and the payload of one of its probes.\<close>

definition salted :: "Client \<Rightarrow> bool" where
  "salted c \<longleftrightarrow> 32 \<le> c_MsgLen (cl_conf c) \<and> NewSalts (c_MsgLen (cl_conf c) - 32) = Some (cl_salts c)"

lemma salted_body:
  assumes "salted c"
  shows "salt_body (nat (c_MsgLen (cl_conf c)) - MsgHeaderLen) (Get (cl_salts c) seq) = Get (cl_salts c) seq"
proof -
  have "length (Get (cl_salts c) seq) = nat (c_MsgLen (cl_conf c)) - MsgHeaderLen"
    using assms by (auto simp: salted_def header_lengths nat_diff_distrib)
  then show ?thesis by (simp add: salt_body_full)
qed

lemma NewClient_salted: "NewClient env seqs conf proc = Some c \<Longrightarrow> salted c"
proof -
  have "cl_conf (initPeers env seqs as c0) = cl_conf c0 \<and> cl_salts (initPeers env seqs as c0) = cl_salts c0" for as c0
    by (induction as arbitrary: c0) (simp_all add: Let_def)
  then show "NewClient env seqs conf proc = Some c \<Longrightarrow> salted c"
    by (auto simp: NewClient_def Let_def salted_def header_lengths split: option.splits)
qed

text \<open>
  C12. A clean echo is always recorded. When the payload of a probe comes back unchanged, at any time and
  whatever the start-up delay, the client records a reception in the bucket of the probe's own
  timestamp, with the elapsed time and no bit flip; the statistics of the other peers are untouched.
\<close>

theorem clean_echo_recorded:
  assumes "salted c" "dissect pkt = Some (Encode seq (Get (cl_salts c) seq) ts (c_MsgLen (cl_conf c)) n sp dp)"
    and "map_of (cl_peers c) remote = Some q" "pe_stat q < length (p_stats (cl_proc c))"
    and "well_formed (us_bkts (p_stats (cl_proc c) ! pe_stat q))" "0 \<le> ts" "in_i64 ts"
  shows "\<exists>c'. handlePacket dissect now since remote pkt c = Some c' \<and>
    (\<forall>j. j \<noteq> pe_stat q \<longrightarrow> p_stats (cl_proc c') ! j = p_stats (cl_proc c) ! j) \<and>
    table_of (us_bkts (p_stats (cl_proc c') ! pe_stat q)) =
      table_received (ts div bs_span (us_bkts (p_stats (cl_proc c) ! pe_stat q))) seq (i64 (now - ts)) False
        (table_of (us_bkts (p_stats (cl_proc c) ! pe_stat q)))"
proof -
  let ?d = "Encode seq (Get (cl_salts c) seq) ts (c_MsgLen (cl_conf c)) n sp dp"
  let ?f = "(seq, ts, n, sp, dp)"
  have ok: "sonar_ok ?f" using assms(7) by (simp add: sonar_ok_def)
  have e: "sonar_encode ?f (Get (cl_salts c) seq) (c_MsgLen (cl_conf c)) = ?d" by (simp add: sonar_encode_def)
  have "IsValid ?d" "Decode ?d = ?f"
    using sonar_codec.encode_valid [OF ok] sonar_codec.decode_encode [OF ok] e by metis+
  moreover have "drop MsgHeaderLen ?d = Get (cl_salts c) seq"
    using sonar_codec.encode_body [OF ok, of "Get (cl_salts c) seq" "c_MsgLen (cl_conf c)"] salted_body [OF assms(1)] e by simp
  moreover have "?d \<noteq> []" using \<open>IsValid ?d\<close> by (auto simp: IsValid_def header_lengths)
  ultimately have "handlePacket dissect now since remote pkt c = map_option (\<lambda>proc. c\<lparr>cl_proc := proc\<rparr>)
      (call_stat (Stat_Received seq ts (i64 (now - ts)) False) (pe_stat q) (cl_proc c))"
    using assms(2,3) by (simp add: handlePacket_def)
  then show ?thesis using call_stat_Received [OF assms(4-7)] by fastforce
qed

lemma demo_salted: "salted demo_client"
  by (simp add: salted_def demo_client_def demo_conf_def NewSalts_def)

lemma demo_stat_well_formed: "well_formed (us_bkts (p_stats (cl_proc demo_client) ! 0))"
  by (simp add: demo_client_def NewStat_def well_formed_def buckets_inv_new) (simp add: newBuckets_def)

theorem clean_echo_recorded_witness:
  "\<exists>c'. handlePacket Some 22 0 ''10.0.0.1'' (Encode 8 (Get (cl_salts demo_client) 8) 15 36 0 0 0) demo_client = Some c' \<and>
    table_of (us_bkts (p_stats (cl_proc c') ! 0)) =
      table_received 1 8 7 False (table_of (us_bkts (p_stats (cl_proc demo_client) ! 0)))"
  using clean_echo_recorded [OF demo_salted, of Some _ 8 15 0 0 0 "''10.0.0.1''" demo_peer 22 0] demo_stat_well_formed
  by (auto simp: demo_client_def demo_conf_def demo_peer_def new_peer_def in_i64_def i64_id NewStat_def newBuckets_def)

text \<open>
  C38. A damaged echo is dropped, not recorded. Once the start-up delay has passed, a payload of the
  probe's length with the probe's header and any change in its body leaves the client as it was:
  the probe stays unanswered and will be counted as lost, and no bit flip reaches the statistics.
\<close>

theorem damaged_echo_dropped:
  assumes "salted c" "dissect pkt = Some d" "in_i64 ts"
    and "length d = length (Encode seq (Get (cl_salts c) seq) ts (c_MsgLen (cl_conf c)) n sp dp)"
    and "take MsgHeaderLen d = take MsgHeaderLen (Encode seq (Get (cl_salts c) seq) ts (c_MsgLen (cl_conf c)) n sp dp)"
    and "d \<noteq> Encode seq (Get (cl_salts c) seq) ts (c_MsgLen (cl_conf c)) n sp dp"
    and "cl_delayBitflip c < since"
  shows "handlePacket dissect now since remote pkt c = Some c"
proof -
  let ?f = "(seq, ts, n, sp, dp)"
  have ok: "sonar_ok ?f" using assms(3) by (simp add: sonar_ok_def)
  have e: "sonar_encode ?f (Get (cl_salts c) seq) (c_MsgLen (cl_conf c)) =
      Encode seq (Get (cl_salts c) seq) ts (c_MsgLen (cl_conf c)) n sp dp" by (simp add: sonar_encode_def)
  have d: "Decode d = ?f" "drop MsgHeaderLen d \<noteq> Get (cl_salts c) seq"
    using sonar_codec.damaged_body [OF ok, of d "Get (cl_salts c) seq" "c_MsgLen (cl_conf c)"] assms(4-6)
      salted_body [OF assms(1), of seq] unfolding e by auto
  have "int (length d) = c_MsgLen (cl_conf c)"
    using assms(1,4) sonar_codec.encode_length [OF ok, of "Get (cl_salts c) seq" "c_MsgLen (cl_conf c)"]
    unfolding e by (auto simp: salted_def header_lengths max_def)
  then show ?thesis using d assms(2,7)
    by (auto simp: handlePacket_def detectBitflip_def Let_def split: option.splits)
qed

theorem damaged_echo_dropped_witness:
  "handlePacket Some 22 20000000000 ''10.0.0.1''
     ((Encode 8 (Get (cl_salts demo_client) 8) 15 36 0 0 0)[34 := 0xFE]) demo_client = Some demo_client"
proof (rule damaged_echo_dropped [OF demo_salted refl, where seq = 8 and ts = 15 and n = 0 and sp = 0 and dp = 0])
  let ?e = "Encode 8 (Get (cl_salts demo_client) 8) 15 36 0 0 0"
  have m: "c_MsgLen (cl_conf demo_client) = 36" by (simp add: demo_client_def demo_conf_def)
  show "in_i64 15" by (simp add: in_i64_def)
  show "length (?e[34 := 0xFE]) = length (Encode 8 (Get (cl_salts demo_client) 8) 15 (c_MsgLen (cl_conf demo_client)) 0 0 0)"
    by (simp add: m)
  show "take MsgHeaderLen (?e[34 := 0xFE]) =
      take MsgHeaderLen (Encode 8 (Get (cl_salts demo_client) 8) 15 (c_MsgLen (cl_conf demo_client)) 0 0 0)"
    by (simp add: m header_lengths)
  have "(?e[34 := 0xFE]) ! 34 \<noteq> ?e ! 34" by code_simp
  then show "?e[34 := 0xFE] \<noteq> Encode 8 (Get (cl_salts demo_client) 8) 15 (c_MsgLen (cl_conf demo_client)) 0 0 0"
    unfolding m by metis
  show "cl_delayBitflip demo_client < 20000000000" by (simp add: demo_client_def second_def)
qed

end
