(* ===== verification/Sonar_Server.thy ===== *)
theory Sonar_Server
  imports Sonar_Client
begin

text \<open>
  The bitflip echo server, \<open>sonar/server/server.go\<close> and \<open>sonar6/server/server.go\<close>: its per-client
  statistics, created on demand, and the handling of one received datagram. The map of statistics
  holds positions in the processor's list. A datagram's echo is part of the result.
\<close>

section \<open>State\<close>

record Server =
  se_conf :: Config
  se_stats :: "(string, nat) gomap"
  se_localIP :: "IP option"
  se_salts :: Salts
  se_proc :: Processor

definition new_server_stat :: "Config \<Rightarrow> string \<Rightarrow> udpStat" where
  "new_server_stat conf addr =
     NewServerStat addr (ServerAddr conf) (c_ClientPortRange conf) (c_ServerPortRange conf)
       (c_RateInSpan conf) (c_Span conf) (c_Delay conf) True"

text \<open>Registering the statistics of a client under a key.\<close>

definition register :: "string \<Rightarrow> string \<Rightarrow> Server \<Rightarrow> Server" where
  "register key addr s =
     s\<lparr>se_stats := AList.update key (length (p_stats (se_proc s))) (se_stats s),
       se_proc := AddStat (new_server_stat (se_conf s) addr) (se_proc s)\<rparr>"

definition server_conf :: "Config \<Rightarrow> Config" where
  "server_conf conf = (if c_MsgLen conf < int MsgHeaderLen then conf\<lparr>c_MsgLen := int MsgHeaderLen\<rparr> else conf)"

definition New :: "net_env \<Rightarrow> Config \<Rightarrow> Processor \<Rightarrow> Server option" where
  "New env conf0 proc =
     (let conf = server_conf conf0
      in case NewSalts (c_MsgLen conf - int MsgHeaderLen) of
           None \<Rightarrow> None
         | Some salts \<Rightarrow>
             Some (fold (\<lambda>addr. register addr addr) (c_ClientAddrs conf)
               \<lparr>se_conf = conf, se_stats = [], se_localIP = e_ParseIP env (ServerAddr conf), se_salts = salts,
                se_proc = proc\<rparr>))"

text \<open>The IPv6 server refuses an unparsable address (the second \<open>None\<close>: it returns nil) and
  registers the configured clients under the canonical form of their addresses.\<close>

definition ip_text :: "net_env \<Rightarrow> IP option \<Rightarrow> string" where
  "ip_text env ip = (case ip of None \<Rightarrow> ''<nil>'' | Some b \<Rightarrow> e_IPString env b)"

definition New6 :: "net_env \<Rightarrow> Config \<Rightarrow> Processor \<Rightarrow> Server option option" where
  "New6 env conf0 proc =
     (let conf = server_conf conf0
      in case e_ParseIP env (ServerAddr conf) of
           None \<Rightarrow> Some None
         | Some localIP \<Rightarrow>
             (case NewSalts (c_MsgLen conf - int MsgHeaderLen) of
                None \<Rightarrow> None
              | Some salts \<Rightarrow>
                  Some (Some (fold (\<lambda>addr. register (ip_text env (e_ParseIP env addr)) addr) (c_ClientAddrs conf)
                    \<lparr>se_conf = conf, se_stats = [], se_localIP = Some localIP, se_salts = salts, se_proc = proc\<rparr>))))"

text \<open>The ports \<open>Run\<close> starts a reader on.\<close>

definition Run_ports :: "Config \<Rightarrow> int list" where
  "Run_ports conf = [pr_Min (c_ServerPortRange conf)..pr_Max (c_ServerPortRange conf)]"


section \<open>One datagram\<close>

definition getOrCreateStat :: "string \<Rightarrow> Server \<Rightarrow> Server \<times> nat" where
  "getOrCreateStat clientIP s =
     (case map_of (se_stats s) clientIP of
        Some st \<Rightarrow> (s, st)
      | None \<Rightarrow> (register clientIP clientIP s, length (p_stats (se_proc s))))"

definition server_bitflip :: "Server \<Rightarrow> u64 \<Rightarrow> byte list \<Rightarrow> bool" where
  "server_bitflip s seq data \<longleftrightarrow>
     int (length data) = c_MsgLen (se_conf s) \<and> Get (se_salts s) seq \<noteq> drop MsgHeaderLen data"

definition readPackets :: "int \<Rightarrow> int \<Rightarrow> string \<Rightarrow> int \<Rightarrow> byte list \<Rightarrow> Server \<Rightarrow> (Server \<times> byte list option) option" where
  "readPackets now port remoteIP remotePort data s =
     (if length data < MsgHeaderLen \<or> \<not> IsValid data then Some (s, None)
      else
        (case Decode data of (seq, ts, lastSentCount, lastStartSrcPort, lastStartDstPort) \<Rightarrow>
           let hasBitflip = server_bitflip s seq data;
               (s, st) = getOrCreateStat remoteIP s
           in case call_stat (Stat_Put (word_of_int remotePort) (word_of_int port) seq ts) st (se_proc s) of
                None \<Rightarrow> None
              | Some proc \<Rightarrow>
                  (case call_stat (Stat_ReceivedAndFix seq ts (i64 (now - ts)) lastSentCount lastStartSrcPort
                          lastStartDstPort hasBitflip) st proc of
                     None \<Rightarrow> None
                   | Some proc' \<Rightarrow> Some (s\<lparr>se_proc := proc'\<rparr>, Some data))))"


text \<open>A run over the datagrams the readers receive, in the order they handle them.\<close>

record datagram =
  dg_now :: int
  dg_port :: int
  dg_remoteIP :: string
  dg_remotePort :: int
  dg_data :: "byte list"

fun serve :: "datagram list \<Rightarrow> Server \<Rightarrow> (Server \<times> byte list list) option" where
  "serve [] s = Some (s, [])"
| "serve (d # ds) s =
     (case readPackets (dg_now d) (dg_port d) (dg_remoteIP d) (dg_remotePort d) (dg_data d) s of
        None \<Rightarrow> None
      | Some (s', echo) \<Rightarrow>
          (case serve ds s' of
             None \<Rightarrow> None
           | Some (s'', echoes) \<Rightarrow> Some (s'', (case echo of None \<Rightarrow> [] | Some e \<Rightarrow> [e]) @ echoes)))"


section \<open>One statistics object per client\<close>

text \<open>Every client has one position of its own in the processor's list, where its statistics are
  kept with the span of the configuration.\<close>

definition server_inv :: "Server \<Rightarrow> bool" where
  "server_inv s \<longleftrightarrow> map_ok (se_stats s) \<and> distinct (map snd (se_stats s)) \<and>
     (\<forall>(k, i) \<in> set (se_stats s). i < length (p_stats (se_proc s)) \<and> us_serverSide (p_stats (se_proc s) ! i) \<and>
        bs_span (us_bkts (p_stats (se_proc s) ! i)) = c_Span (se_conf s))"

lemma distinct_snd_update:
  "distinct (map snd m) \<Longrightarrow> v \<notin> snd ` set m \<Longrightarrow> distinct (map snd (AList.update k v m))"
proof (induction m)
  case (Cons x m)
  then show ?case using set_update_subset [of k v m] by (cases x) (auto simp: image_iff)
qed simp

lemma register_inv:
  assumes "server_inv s"
  shows "server_inv (register key addr s)"
proof -
  have "length (p_stats (se_proc s)) \<notin> snd ` set (se_stats s)"
    using assms by (force simp: server_inv_def)
  then have "distinct (map snd (AList.update key (length (p_stats (se_proc s))) (se_stats s)))"
    using assms by (intro distinct_snd_update) (simp_all add: server_inv_def)
  then show ?thesis
    using assms set_update_subset [of key "length (p_stats (se_proc s))" "se_stats s"]
    by (auto simp: server_inv_def register_def AddStat_def map_ok_def distinct_update nth_append
        new_server_stat_def NewServerStat_def newBuckets_def)
qed

lemma New_inv:
  assumes "New env conf proc = Some s"
  shows "server_inv s \<and> c_Span (se_conf s) = c_Span conf"
proof -
  have fold: "server_inv t \<Longrightarrow> server_inv (fold (\<lambda>a. register a a) as t) \<and>
      se_conf (fold (\<lambda>a. register a a) as t) = se_conf t" for as t
    by (induction as arbitrary: t) (simp_all add: register_inv, simp add: register_def)
  obtain t as where t: "s = fold (\<lambda>a. register a a) as t" "se_conf t = server_conf conf" "se_stats t = []"
    using assms by (auto simp: New_def Let_def split: option.splits)
  have "server_inv t" using t(3) by (simp add: server_inv_def map_ok_def)
  then show ?thesis using fold [of t as] t(1,2) by (simp add: server_conf_def)
qed

lemma getOrCreate_post:
  assumes "server_inv s" "getOrCreateStat ip s = (s', st)"
  shows "server_inv s'" "map_of (se_stats s') ip = Some st" "se_conf s' = se_conf s" "se_salts s' = se_salts s"
    "\<forall>k i. map_of (se_stats s) k = Some i \<longrightarrow> map_of (se_stats s') k = Some i"
  using assms register_inv [OF assms(1), of ip ip]
  by (auto simp: getOrCreateStat_def register_def update_conv' split: option.splits)

lemma inv_position:
  assumes "server_inv s" "map_of (se_stats s) k = Some i"
  shows "i < length (p_stats (se_proc s))" "us_serverSide (p_stats (se_proc s) ! i)"
    "bs_span (us_bkts (p_stats (se_proc s) ! i)) = c_Span (se_conf s)"
  using assms by (auto simp: server_inv_def dest!: map_of_SomeD)

text \<open>The recording calls fail only on a zero span, and keep the span and the side.\<close>

lemma span_put: "buckets_put cp sp seq ts bs = Some bs' \<Longrightarrow> bs_span bs' = bs_span bs"
  by (auto simp: buckets_put_def span_modify span_ensure split: option.splits)

lemma span_fix: "buckets_receivedAndFix seq ts rtt n sp dp bf bs = Some bs' \<Longrightarrow> bs_span bs' = bs_span bs"
  by (auto simp: buckets_receivedAndFix_def Let_def span_modify span_ensure split: option.splits if_splits)

lemma Stat_Put_total:
  assumes "bs_span (us_bkts s) \<noteq> 0"
  shows "\<exists>s'. Stat_Put cp sp seq ts s = Some s' \<and> us_serverSide s' = us_serverSide s \<and>
    bs_span (us_bkts s') = bs_span (us_bkts s)"
proof -
  have "\<exists>bs. buckets_put cp sp seq ts (us_bkts s) = Some bs" using assms by (simp add: buckets_put_def bucketID_def)
  then show ?thesis using span_put by (fastforce simp: Stat_Put_def lift_bkts_def)
qed

lemma Stat_ReceivedAndFix_total:
  assumes "bs_span (us_bkts s) \<noteq> 0"
  shows "\<exists>s'. Stat_ReceivedAndFix seq ts rtt n sp dp bf s = Some s' \<and> us_serverSide s' = us_serverSide s \<and>
    bs_span (us_bkts s') = bs_span (us_bkts s)"
proof -
  have "\<exists>bs. buckets_receivedAndFix seq ts rtt n sp dp bf (us_bkts s) = Some bs"
    using assms by (simp add: buckets_receivedAndFix_def bucketID_def Let_def)
  then show ?thesis using span_fix by (fastforce simp: Stat_ReceivedAndFix_def lift_bkts_def)
qed

lemma call_stat_total:
  assumes inv: "server_inv s" and i: "map_of (se_stats s) k = Some i"
    and f: "\<exists>t'. f (p_stats (se_proc s) ! i) = Some t' \<and> us_serverSide t' = us_serverSide (p_stats (se_proc s) ! i) \<and>
      bs_span (us_bkts t') = bs_span (us_bkts (p_stats (se_proc s) ! i))"
  shows "\<exists>proc'. call_stat f i (se_proc s) = Some proc' \<and> server_inv (s\<lparr>se_proc := proc'\<rparr>)"
proof -
  obtain t' where t': "f (p_stats (se_proc s) ! i) = Some t'" "us_serverSide t' = us_serverSide (p_stats (se_proc s) ! i)"
      "bs_span (us_bkts t') = bs_span (us_bkts (p_stats (se_proc s) ! i))" using f by blast
  have "call_stat f i (se_proc s) = Some (set_stat i t' (se_proc s))"
    using t'(1) inv_position(1) [OF inv i] by (simp add: call_stat_def)
  moreover have "server_inv (s\<lparr>se_proc := set_stat i t' (se_proc s)\<rparr>)"
    using inv t'(2,3) inv_position [OF inv i] by (auto simp: server_inv_def set_stat_def nth_list_update)
  ultimately show ?thesis by blast
qed

lemma readPackets_total:
  assumes inv: "server_inv s" and spn: "c_Span (se_conf s) \<noteq> 0"
  shows "\<exists>s'. readPackets now port ip rport data s = Some (s', if IsValid data then Some data else None) \<and>
    server_inv s' \<and> se_conf s' = se_conf s \<and>
    (\<forall>k i. map_of (se_stats s) k = Some i \<longrightarrow> map_of (se_stats s') k = Some i) \<and>
    (IsValid data \<longrightarrow> map_of (se_stats s') ip \<noteq> None)"
proof (cases "IsValid data")
  case False
  then show ?thesis using inv by (simp add: readPackets_def)
next
  case True
  then have l: "\<not> length data < MsgHeaderLen" by (simp add: IsValid_def header_lengths)
  obtain seq ts n sp dp where d: "Decode data = (seq, ts, n, sp, dp)" by (cases "Decode data")
  obtain s1 st where g: "getOrCreateStat ip s = (s1, st)" by (cases "getOrCreateStat ip s")
  note post = getOrCreate_post [OF inv g]
  have spn1: "c_Span (se_conf s1) \<noteq> 0" using spn post(3) by simp
  obtain proc where p: "call_stat (Stat_Put (word_of_int rport) (word_of_int port) seq ts) st (se_proc s1) = Some proc"
      "server_inv (s1\<lparr>se_proc := proc\<rparr>)"
    using call_stat_total [OF post(1,2), of "Stat_Put (word_of_int rport) (word_of_int port) seq ts"]
      Stat_Put_total [of "p_stats (se_proc s1) ! st"] inv_position(3) [OF post(1,2)] spn1 by auto
  let ?s2 = "s1\<lparr>se_proc := proc\<rparr>"
  have st2: "map_of (se_stats ?s2) ip = Some st" using post(2) by simp
  obtain proc' where p': "call_stat (Stat_ReceivedAndFix seq ts (i64 (now - ts)) n sp dp (server_bitflip s seq data)) st
      (se_proc ?s2) = Some proc'" "server_inv (?s2\<lparr>se_proc := proc'\<rparr>)"
    using call_stat_total [OF p(2) st2, of "Stat_ReceivedAndFix seq ts (i64 (now - ts)) n sp dp (server_bitflip s seq data)"]
      Stat_ReceivedAndFix_total [of "p_stats (se_proc ?s2) ! st"] inv_position(3) [OF p(2) st2] spn1 by auto
  have "readPackets now port ip rport data s = Some (s1\<lparr>se_proc := proc'\<rparr>, Some data)"
    using True l d g p(1) p'(1) by (simp add: readPackets_def)
  then show ?thesis using True p'(2) post by simp
qed

lemma serve_total:
  assumes "server_inv s" "c_Span (se_conf s) \<noteq> 0"
  shows "\<exists>s'. serve ds s = Some (s', filter IsValid (map dg_data ds)) \<and> server_inv s' \<and>
    (\<forall>k i. map_of (se_stats s) k = Some i \<longrightarrow> map_of (se_stats s') k = Some i) \<and>
    (\<forall>d \<in> set ds. IsValid (dg_data d) \<longrightarrow> map_of (se_stats s') (dg_remoteIP d) \<noteq> None)"
  using assms
proof (induction ds arbitrary: s)
  case (Cons d ds)
  obtain s1 where s1: "readPackets (dg_now d) (dg_port d) (dg_remoteIP d) (dg_remotePort d) (dg_data d) s =
      Some (s1, if IsValid (dg_data d) then Some (dg_data d) else None)"
    "server_inv s1" "se_conf s1 = se_conf s" "\<forall>k i. map_of (se_stats s) k = Some i \<longrightarrow> map_of (se_stats s1) k = Some i"
    "IsValid (dg_data d) \<longrightarrow> map_of (se_stats s1) (dg_remoteIP d) \<noteq> None"
    using readPackets_total [OF Cons.prems] by blast
  obtain s' where s': "serve ds s1 = Some (s', filter IsValid (map dg_data ds))" "server_inv s'"
    "\<forall>k i. map_of (se_stats s1) k = Some i \<longrightarrow> map_of (se_stats s') k = Some i"
    "\<forall>d \<in> set ds. IsValid (dg_data d) \<longrightarrow> map_of (se_stats s') (dg_remoteIP d) \<noteq> None"
    using Cons.IH [OF s1(2)] s1(3) Cons.prems(2) by auto
  have "IsValid (dg_data d) \<longrightarrow> map_of (se_stats s') (dg_remoteIP d) \<noteq> None"
    using s1(5) s'(3) by auto
  then show ?case using s1(1,4) s' by auto
qed simp

text \<open>
  C8. The server never fails and never loses track of a client. Whatever datagrams arrive from wherever,
  it handles all of them, echoes exactly the valid ones, unchanged and in order, and keeps one
  statistics object per client address: positions are distinct, never move, and every sender of a
  valid datagram has one.
\<close>

theorem server_serves_all:
  assumes "server_inv s" "c_Span (se_conf s) \<noteq> 0"
  shows "\<exists>s'. serve ds s = Some (s', filter IsValid (map dg_data ds)) \<and> server_inv s' \<and>
    (\<forall>k i. map_of (se_stats s) k = Some i \<longrightarrow> map_of (se_stats s') k = Some i) \<and>
    (\<forall>d \<in> set ds. IsValid (dg_data d) \<longrightarrow> map_of (se_stats s') (dg_remoteIP d) \<noteq> None)"
  using assms by (rule serve_total)

definition demo_server_conf :: Config where
  "demo_server_conf = demo_conf\<lparr>c_Role := RoleServer, c_ClientAddrs := [''10.0.0.9'']\<rparr>"

theorem server_serves_all_witness:
  "\<exists>s s'. New demo_env demo_server_conf (NewProcessor 10 30) = Some s \<and>
    serve [\<lparr>dg_now = 22, dg_port = 20, dg_remoteIP = ''10.0.0.1'', dg_remotePort = 10,
             dg_data = Encode 8 [0, 0, 0, 0] 15 36 0 0 0\<rparr>] s =
      Some (s', filter IsValid [Encode 8 [0, 0, 0, 0] 15 36 0 0 0]) \<and> server_inv s'"
proof -
  have "\<exists>s. New demo_env demo_server_conf (NewProcessor 10 30) = Some s"
    by (simp add: New_def server_conf_def demo_server_conf_def demo_conf_def NewSalts_def header_lengths Let_def)
  then obtain s where s: "New demo_env demo_server_conf (NewProcessor 10 30) = Some s" by blast
  have "server_inv s" "c_Span (se_conf s) \<noteq> 0"
    using New_inv [OF s] by (simp_all add: demo_server_conf_def demo_conf_def)
  from server_serves_all [OF this, of "[\<lparr>dg_now = 22, dg_port = 20, dg_remoteIP = ''10.0.0.1'', dg_remotePort = 10,
             dg_data = Encode 8 [0, 0, 0, 0] 15 36 0 0 0\<rparr>]"]
  show ?thesis using s by auto
qed


section \<open>What the server records\<close>

lemma table_keep:
  "(\<And>b. b_requests (f b) = b_requests b) \<Longrightarrow> table_of (modify_bucket k f bs) = table_of bs"
  by (auto simp: fun_eq_iff table_of_def modify_bucket_def update_conv' split: option.splits)

lemma put_table_any:
  assumes "bucketID bs ts = Some k" "buckets_put cp sp seq ts bs = Some bs'"
  shows "table_of bs' = (table_of bs)((k, seq) := Some (sent_entry cp sp seq ts (table_of bs (k, seq))))"
proof -
  have "bs' = modify_bucket k (bucket_put cp sp seq ts) (ensure_bucket k bs)"
    using assms by (simp add: buckets_put_def)
  then show ?thesis
    using table_modify_bucket [where g = "\<lambda>old. Some (sent_entry cp sp seq ts old)" and
        seq = seq and f = "bucket_put cp sp seq ts" and k = k and bs = "ensure_bucket k bs"]
    by (simp add: requests_after ensure_has_bucket del: not_None_eq)
qed

lemma fix_total: "bucketID bs ts = Some k \<Longrightarrow> \<exists>bs'. buckets_receivedAndFix seq ts rtt n sp dp bf bs = Some bs'"
  by (simp add: buckets_receivedAndFix_def Let_def)

lemma fix_table:
  assumes "bucketID bs ts = Some k" "buckets_receivedAndFix seq ts rtt n sp dp bf bs = Some bs'"
  shows "table_of bs' = (table_of bs)((k, seq) := Some (echo_entry seq rtt bf (table_of bs (k, seq))))"
proof -
  let ?bs1 = "modify_bucket k (bucket_received seq rtt bf) (ensure_bucket k bs)"
  have "table_of bs' = table_of ?bs1"
    using assms by (auto simp: buckets_receivedAndFix_def Let_def table_keep split: if_splits)
  also have "\<dots> = (table_of bs)((k, seq) := Some (echo_entry seq rtt bf (table_of bs (k, seq))))"
    using table_modify_bucket [where g = "\<lambda>old. Some (echo_entry seq rtt bf old)" and
        seq = seq and f = "bucket_received seq rtt bf" and k = k and bs = "ensure_bucket k bs"]
    by (simp add: requests_after ensure_has_bucket del: not_None_eq)
  finally show ?thesis .
qed

text \<open>
  A valid datagram is recorded as a received probe of its sender: in the bucket of the timestamp it
  carries stands a record with the ports it travelled on, the one-way delay, and the bit-flip mark
  exactly when the datagram has the configured length and its body is not the salt of its sequence
  number.
\<close>

theorem server_records_datagram:
  assumes "server_inv s" "c_Span (se_conf s) \<noteq> 0" "IsValid data" "Decode data = (seq, ts, n, sp, dp)"
    and "map_of (se_stats s) ip = Some i"
  shows "\<exists>s' r. readPackets now port ip rport data s = Some (s', Some data) \<and>
    table_of (us_bkts (p_stats (se_proc s') ! i)) (i64 (ts sdiv c_Span (se_conf s)), seq) = Some r \<and>
    r_clientPort r = word_of_int rport \<and> r_serverPort r = word_of_int port \<and> r_ts r = ts \<and>
    r_rtt r = i64 (now - ts) \<and>
    (r_hasBitflip r \<longleftrightarrow> int (length data) = c_MsgLen (se_conf s) \<and> drop MsgHeaderLen data \<noteq> Get (se_salts s) seq)"
proof -
  let ?k = "i64 (ts sdiv c_Span (se_conf s))" and ?bf = "server_bitflip s seq data"
  let ?st = "p_stats (se_proc s) ! i"
  note pos = inv_position [OF assms(1,5)]
  have k: "bucketID (us_bkts ?st) ts = Some ?k" using pos(3) assms(2) by (simp add: bucketID_def)
  obtain b1 where b1: "buckets_put (word_of_int rport) (word_of_int port) seq ts (us_bkts ?st) = Some b1"
    using k by (simp add: buckets_put_def)
  have k1: "bucketID b1 ts = Some ?k" using span_put [OF b1] pos(3) assms(2) by (simp add: bucketID_def)
  obtain b2 where b2: "buckets_receivedAndFix seq ts (i64 (now - ts)) n sp dp ?bf b1 = Some b2"
    using fix_total [OF k1] by blast
  have t: "table_of b2 (?k, seq) = Some (echo_entry seq (i64 (now - ts)) ?bf
      (Some (sent_entry (word_of_int rport) (word_of_int port) seq ts (table_of (us_bkts ?st) (?k, seq)))))"
    using fix_table [OF k1 b2] put_table_any [OF k b1] by simp
  have l: "\<not> length data < MsgHeaderLen" using assms(3) by (simp add: IsValid_def header_lengths)
  have "getOrCreateStat ip s = (s, i)" using assms(5) by (simp add: getOrCreateStat_def)
  moreover have "call_stat (Stat_Put (word_of_int rport) (word_of_int port) seq ts) i (se_proc s) =
      Some (set_stat i (?st\<lparr>us_bkts := b1\<rparr>) (se_proc s))"
    using pos(1) b1 by (simp add: call_stat_def Stat_Put_def lift_bkts_def)
  moreover have "call_stat (Stat_ReceivedAndFix seq ts (i64 (now - ts)) n sp dp ?bf) i
      (set_stat i (?st\<lparr>us_bkts := b1\<rparr>) (se_proc s)) = Some (set_stat i (?st\<lparr>us_bkts := b2\<rparr>) (se_proc s))"
    using pos(1) b2 by (simp add: call_stat_def Stat_ReceivedAndFix_def lift_bkts_def set_stat_def)
  ultimately have "readPackets now port ip rport data s =
      Some (s\<lparr>se_proc := set_stat i (?st\<lparr>us_bkts := b2\<rparr>) (se_proc s)\<rparr>, Some data)"
    using assms(3,4) l by (simp add: readPackets_def)
  then show ?thesis
    using t pos(1) by (auto simp: set_stat_def echo_entry_def sent_entry_def server_bitflip_def split: option.splits)
qed

definition demo_server_state :: Server where
  "demo_server_state = register ''10.0.0.1'' ''10.0.0.1''
     \<lparr>se_conf = demo_server_conf, se_stats = [], se_localIP = None, se_salts = cl_salts demo_client, se_proc = NewProcessor 10 30\<rparr>"

theorem server_records_datagram_witness:
  "\<exists>s' r. readPackets 22 20 ''10.0.0.1'' 10 (Encode 8 [0xFF, 0xFE, 0xFF, 0xFF] 15 36 0 0 0) demo_server_state =
      Some (s', Some (Encode 8 [0xFF, 0xFE, 0xFF, 0xFF] 15 36 0 0 0)) \<and>
    table_of (us_bkts (p_stats (se_proc s') ! 0)) (1, 8) = Some r \<and> r_rtt r = 7 \<and> r_hasBitflip r"
proof -
  let ?d = "Encode 8 [0xFF, 0xFE, 0xFF, 0xFF] 15 36 0 0 0"
  have inv: "server_inv demo_server_state"
    unfolding demo_server_state_def by (rule register_inv) (simp add: server_inv_def map_ok_def)
  have c: "c_Span (se_conf demo_server_state) = 10" "c_MsgLen (se_conf demo_server_state) = 36"
    "map_of (se_stats demo_server_state) ''10.0.0.1'' = Some 0"
    by (simp_all add: demo_server_state_def register_def demo_server_conf_def demo_conf_def NewProcessor_def)
  have d: "IsValid ?d" "Decode ?d = (8, 15, 0, 0, 0)" "int (length ?d) = 36"
    "drop MsgHeaderLen ?d \<noteq> Get (se_salts demo_server_state) 8"
    by code_simp+
  show ?thesis
    using server_records_datagram [OF inv _ d(1,2) c(3), of 22 20 10] c(1,2) d(3,4) by (auto simp: i64_def)
qed

end
