(* ===== verification/Ping.thy ===== *)
theory Ping
  imports Sonar_Server
begin

text \<open>
  The ICMP pingers: \<open>ping/config.go\<close>, \<open>ping/pinger.go\<close> and their IPv6 versions
  \<open>ping6/config.go\<close>, \<open>ping6/pinger.go\<close>. Packets are built and dissected by the library
  \<open>goscapy\<close>, an argument; a dissected packet is given by the fields the handlers ask for. Clock
  readings, hardware timestamps and the results of socket calls are inputs of a step.
\<close>

section \<open>Configuration\<close>

text \<open>The IPv6 version calls the type of service \<open>TC\<close> and the time to live \<open>HopLimit\<close>.\<close>

record ping_Config =
  pg_TargetAddrs :: "string list"
  pg_Rate :: int
  pg_Span :: int
  pg_Delay :: int
  pg_Count :: int
  pg_SendDuration :: int
  pg_Size :: int
  pg_TOS :: int
  pg_TTL :: int
  pg_Timeout :: int
  pg_LocalAddr :: string
  pg_Interface :: string
  pg_Verbose :: bool
  pg_Hwts :: bool

definition iface_ips :: "iface \<Rightarrow> IP list" where
  "iface_ips ifc = (case if_Addrs ifc of None \<Rightarrow> [] | Some addrs \<Rightarrow> List.map_filter id addrs)"

definition resolveLocalIPFromInterfaces :: "net_env \<Rightarrow> cfg_error + string" where
  "resolveLocalIPFromInterfaces env =
     (case e_Interfaces env of
        None \<Rightarrow> Inl InterfacesFailed
      | Some ifaces \<Rightarrow>
          (case List.find (\<lambda>ip. To4 ip \<noteq> None \<and> \<not> IsLoopback ip)
                  (concat (map iface_ips (filter (\<lambda>i. if_Up i \<and> \<not> if_Loopback i) ifaces))) of
             Some ip \<Rightarrow> Inr (e_IPString env ip)
           | None \<Rightarrow> Inl NoInterfaceAddress))"

definition resolveLocalIPv6FromInterfaces :: "net_env \<Rightarrow> cfg_error + string" where
  "resolveLocalIPv6FromInterfaces env =
     (case e_Interfaces env of
        None \<Rightarrow> Inl InterfacesFailed
      | Some ifaces \<Rightarrow>
          (case List.find (\<lambda>ip. To4 ip = None \<and> To16 ip \<noteq> None \<and> IsGlobalUnicast ip)
                  (concat (map iface_ips (filter (\<lambda>i. if_Up i \<and> \<not> if_Loopback i) ifaces))) of
             Some ip \<Rightarrow> Inr (e_IPString env ip)
           | None \<Rightarrow> Inl NoInterfaceAddress))"

text \<open>The host's own address that passes a test, or else the interfaces' answer.\<close>

definition resolve_or :: "net_env \<Rightarrow> (IP \<Rightarrow> bool) \<Rightarrow> cfg_error + string \<Rightarrow> cfg_error + string" where
  "resolve_or env P fallback =
     (case e_Hostname env of
        None \<Rightarrow> fallback
      | Some hostname \<Rightarrow>
          (case e_LookupHost env hostname of
             None \<Rightarrow> fallback
           | Some addrs \<Rightarrow> (case first_addr env P addrs of Some addr \<Rightarrow> Inr addr | None \<Rightarrow> fallback)))"

definition ping_resolveLocalIP :: "net_env \<Rightarrow> cfg_error + string" where
  "ping_resolveLocalIP env =
     resolve_or env (\<lambda>ip. To4 ip \<noteq> None \<and> \<not> IsLoopback ip) (resolveLocalIPFromInterfaces env)"

definition ping6_resolveLocalIPv6 :: "net_env \<Rightarrow> cfg_error + string" where
  "ping6_resolveLocalIPv6 env =
     resolve_or env (\<lambda>ip. To4 ip = None \<and> \<not> IsLoopback ip) (resolveLocalIPv6FromInterfaces env)"

definition name_of :: "iface option \<Rightarrow> string" where
  "name_of i = (case i of None \<Rightarrow> [] | Some ifc \<Rightarrow> if_Name ifc)"

definition findInterfaceByIP :: "net_env \<Rightarrow> string \<Rightarrow> string" where
  "findInterfaceByIP env ipStr =
     (case e_Interfaces env of
        None \<Rightarrow> []
      | Some ifaces \<Rightarrow>
          (let targetIP = e_ParseIP env ipStr;
               has = (\<lambda>i. has_addr (case targetIP of None \<Rightarrow> [] | Some ip \<Rightarrow> ip) i)
           in if (case targetIP of None \<Rightarrow> False | Some ip \<Rightarrow> IsLoopback ip)
              then name_of (List.find if_Loopback ifaces)
              else case List.find has (filter (\<lambda>i. \<not> if_Loopback i) ifaces) of
                Some ifc \<Rightarrow> if_Name ifc
              | None \<Rightarrow> name_of (List.find has ifaces)))"

text \<open>\<open>ping6\<close> has its own copy of the search.\<close>

definition findInterfaceByIPv6 :: "net_env \<Rightarrow> string \<Rightarrow> string" where
  "findInterfaceByIPv6 = findInterfaceByIP"

definition ping_defaults :: "ping_Config \<Rightarrow> ping_Config" where
  "ping_defaults c =
     (let c = (if pg_Rate c = 0 then c\<lparr>pg_Rate := 100\<rparr> else c);
          c = (if pg_Span c = 0 then c\<lparr>pg_Span := second\<rparr> else c);
          c = (if pg_Delay c = 0 then c\<lparr>pg_Delay := 3 * second\<rparr> else c);
          c = (if pg_Size c < 8 then c\<lparr>pg_Size := 64\<rparr> else c);
          c = (if pg_TTL c = 0 then c\<lparr>pg_TTL := 64\<rparr> else c)
      in if pg_Timeout c = 0 then c\<lparr>pg_Timeout := second\<rparr> else c)"

text \<open>The part of \<open>Validate\<close> after the targets: \<open>resolve\<close> finds a local address, \<open>check\<close> tests it.\<close>

definition ping_check_local ::
    "net_env \<Rightarrow> (cfg_error + string) \<Rightarrow> (string \<Rightarrow> cfg_error option) \<Rightarrow> ping_Config \<Rightarrow> cfg_error + ping_Config" where
  "ping_check_local env resolve check c =
     (case (if pg_LocalAddr c = [] then (case resolve of Inl e \<Rightarrow> Inl e | Inr ip \<Rightarrow> Inr (c\<lparr>pg_LocalAddr := ip\<rparr>)) else Inr c) of
        Inl e \<Rightarrow> Inl e
      | Inr c1 \<Rightarrow>
          (case check (pg_LocalAddr c1) of
             Some e \<Rightarrow> Inl e
           | None \<Rightarrow>
               if pg_Interface c1 = [] then
                 (let ifn = findInterfaceByIP env (pg_LocalAddr c1)
                  in if ifn = [] then Inl (NoInterface (pg_LocalAddr c1)) else Inr (ping_defaults (c1\<lparr>pg_Interface := ifn\<rparr>)))
               else Inr (ping_defaults c1)))"

definition check_ip4 :: "net_env \<Rightarrow> string \<Rightarrow> cfg_error option" where
  "check_ip4 env addr = (if valid_ip4 env addr then None else Some (NotIPv4 addr))"

definition ping6_validateIPv6 :: "net_env \<Rightarrow> string \<Rightarrow> cfg_error option" where
  "ping6_validateIPv6 env addr =
     (case e_ParseIP env addr of
        None \<Rightarrow> Some (InvalidAddress addr)
      | Some ip \<Rightarrow> if To4 ip \<noteq> None then Some (NotIPv6 addr) else None)"

definition ping_Validate :: "net_env \<Rightarrow> ping_Config \<Rightarrow> cfg_error + ping_Config" where
  "ping_Validate env c =
     (if pg_TargetAddrs c = [] then Inl NoTargets
      else case List.find (\<lambda>a. check_ip4 env a \<noteq> None) (pg_TargetAddrs c) of
        Some a \<Rightarrow> Inl (NotIPv4 a)
      | None \<Rightarrow> ping_check_local env (ping_resolveLocalIP env) (check_ip4 env) c)"

definition ping6_Validate :: "net_env \<Rightarrow> ping_Config \<Rightarrow> cfg_error + ping_Config" where
  "ping6_Validate env c =
     (if pg_TargetAddrs c = [] then Inl NoTargets
      else case List.find (\<lambda>a. ping6_validateIPv6 env a \<noteq> None) (pg_TargetAddrs c) of
        Some a \<Rightarrow> Inl (the (ping6_validateIPv6 env a))
      | None \<Rightarrow> ping_check_local env (ping6_resolveLocalIPv6 env) (ping6_validateIPv6 env) c)"


section \<open>Pingers\<close>

definition timestampLen :: nat where "timestampLen = 8"

record ping_target =
  tg_addr :: string
  tg_ip :: "IP option"
  tg_icmpID :: u16
  tg_stat :: nat
  tg_seq :: u64

record Pinger =
  pn_conf :: ping_Config
  pn_targets :: "ping_target list"
  pn_pid :: u16
  pn_salts :: Salts
  pn_proc :: Processor

text \<open>\<open>ip_of\<close> reads a target's address: \<open>ParseIP\<close> and \<open>To4\<close> for IPv4, \<open>ParseIP\<close> for IPv6. Each
  target's identifier is the process identifier plus its index, in 16 bits.\<close>

definition new_targets :: "(string \<Rightarrow> IP option) \<Rightarrow> u16 \<Rightarrow> string list \<Rightarrow> ping_target list" where
  "new_targets ip_of pid addrs =
     map (\<lambda>(i, addr). \<lparr>tg_addr = addr, tg_ip = ip_of addr, tg_icmpID = pid + of_nat i, tg_stat = 0, tg_seq = 0\<rparr>)
       (enumerate 0 addrs)"

definition new_pinger :: "(string \<Rightarrow> IP option) \<Rightarrow> ping_Config \<Rightarrow> int \<Rightarrow> Pinger option" where
  "new_pinger ip_of conf ospid =
     (case NewSalts (pg_Size conf - int timestampLen) of
        None \<Rightarrow> None
      | Some salts \<Rightarrow>
          (let pid = word_of_int ospid
           in Some \<lparr>pn_conf = conf, pn_targets = new_targets ip_of pid (pg_TargetAddrs conf), pn_pid = pid,
                    pn_salts = salts, pn_proc = NewProcessor (pg_Span conf) (pg_Delay conf)\<rparr>))"

definition NewPinger :: "net_env \<Rightarrow> ping_Config \<Rightarrow> int \<Rightarrow> Pinger option" where
  "NewPinger env = new_pinger (\<lambda>addr. case e_ParseIP env addr of None \<Rightarrow> None | Some ip \<Rightarrow> To4 ip)"

definition NewPinger6 :: "net_env \<Rightarrow> ping_Config \<Rightarrow> int \<Rightarrow> Pinger option" where
  "NewPinger6 env = new_pinger (e_ParseIP env)"

text \<open>The set-up part of \<open>Run\<close>: one statistics object per target and a random first sequence number.\<close>

fun run_targets :: "(nat \<Rightarrow> u64) \<Rightarrow> ping_Config \<Rightarrow> ping_target list \<Rightarrow> Processor \<Rightarrow> ping_target list \<times> Processor" where
  "run_targets seqs conf [] proc = ([], proc)"
| "run_targets seqs conf (t # ts) proc =
     (let i = length (p_stats proc);
          s = NewStat (pg_LocalAddr conf) (tg_addr t) zero_range zero_range (pg_Rate conf) (pg_Span conf) (pg_Delay conf) True;
          (ts', proc') = run_targets seqs conf ts (AddStat s proc)
      in (t\<lparr>tg_stat := i, tg_seq := seqs i\<rparr> # ts', proc'))"

definition Run_setup :: "(nat \<Rightarrow> u64) \<Rightarrow> Pinger \<Rightarrow> Pinger" where
  "Run_setup seqs p =
     (let (ts, proc) = run_targets seqs (pn_conf p) (pn_targets p) (NewProcessor (pg_Span (pn_conf p)) (pg_Delay (pn_conf p)))
      in p\<lparr>pn_targets := ts, pn_proc := proc\<rparr>)"


section \<open>Sending\<close>

definition echo_payload :: "Pinger \<Rightarrow> u64 \<Rightarrow> int \<Rightarrow> byte list" where
  "echo_payload p seq now =
     copy_at timestampLen (Get (pn_salts p) (seq mod 4))
       (copy_at 0 (le_bytes 8 (u64_of_i64 now)) (replicate (nat (pg_Size (pn_conf p))) 0))"

record echo_io =
  eo_now :: int
  eo_build_ok :: bool
  eo_write_ok :: bool
  eo_txts :: "int option"

text \<open>One turn of the inner loop for the target at a position. \<open>eo_txts\<close> is the hardware transmit
  timestamp when one is available. The result carries the payload written to the wire.\<close>

definition send_echo ::
    "echo_io \<Rightarrow> nat \<Rightarrow> Pinger \<Rightarrow> (Pinger \<times> (ping_target \<times> u16 \<times> byte list) option) option" where
  "send_echo io i p =
     (let t = (pn_targets p ! i)\<lparr>tg_seq := tg_seq (pn_targets p ! i) + 1\<rparr>;
          p = p\<lparr>pn_targets := (pn_targets p)[i := t]\<rparr>;
          seq = (ucast (tg_seq t AND 0xFFFF) :: u16);
          payload = echo_payload p (tg_seq t) (eo_now io)
      in if \<not> eo_build_ok io \<or> \<not> eo_write_ok io then Some (p, None)
         else
           let now = (case eo_txts io of None \<Rightarrow> eo_now io | Some ts \<Rightarrow> ts)
           in case call_stat (Stat_Put 0 0 (ucast seq) now) (tg_stat t) (pn_proc p) of
                None \<Rightarrow> None
              | Some proc \<Rightarrow> Some (p\<lparr>pn_proc := proc\<rparr>, Some (t, seq, payload)))"

text \<open>The limits are tested before each round over the targets; \<open>count\<close> counts the probes that
  were written.\<close>

definition limit_reached :: "ping_Config \<Rightarrow> int \<Rightarrow> int \<Rightarrow> bool" where
  "limit_reached conf cnt since \<longleftrightarrow>
     (pg_Count conf > 0 \<and> cnt \<ge> pg_Count conf) \<or> (pg_SendDuration conf > 0 \<and> since \<ge> pg_SendDuration conf)"

fun send_round :: "(nat \<Rightarrow> echo_io) \<Rightarrow> nat list \<Rightarrow> Pinger \<times> int \<Rightarrow> (Pinger \<times> int) option" where
  "send_round ios [] s = Some s"
| "send_round ios (i # rest) (p, cnt) =
     (case send_echo (ios i) i p of
        None \<Rightarrow> None
      | Some (p', None) \<Rightarrow> send_round ios rest (p', cnt)
      | Some (p', Some _) \<Rightarrow> send_round ios rest (p', cnt + 1))"

text \<open>A run of the send loop: one element per round, the time since the start and the inputs of its
  probes.\<close>

fun serveSend :: "(int \<times> (nat \<Rightarrow> echo_io)) list \<Rightarrow> Pinger \<times> int \<Rightarrow> (Pinger \<times> int) option" where
  "serveSend [] s = Some s"
| "serveSend ((since, ios) # rounds) (p, cnt) =
     (if limit_reached (pn_conf p) cnt since then Some (p, cnt)
      else case send_round ios [0..<length (pn_targets p)] (p, cnt) of
        None \<Rightarrow> None
      | Some s' \<Rightarrow> serveSend rounds s')"


text \<open>The IPv6 sender is the same loop; it writes with \<open>Sendmsg\<close>.\<close>

definition serveSend6 :: "(int \<times> (nat \<Rightarrow> echo_io)) list \<Rightarrow> Pinger \<times> int \<Rightarrow> (Pinger \<times> int) option" where
  "serveSend6 = serveSend"


section \<open>Receiving\<close>

definition findTargetByICMPID :: "Pinger \<Rightarrow> u16 \<Rightarrow> ping_target option" where
  "findTargetByICMPID p icmpID = List.find (\<lambda>t. tg_icmpID t = icmpID) (pn_targets p)"

text \<open>The fields of a dissected reply; \<open>None\<close> where the library gives none.\<close>

record reply =
  rp_type :: "byte option"
  rp_id :: "u16 option"
  rp_src :: "IP option"
  rp_seq :: "u16 option"
  rp_load :: "byte list option"

definition reply_bitflip :: "Pinger \<Rightarrow> u16 \<Rightarrow> byte list option \<Rightarrow> bool" where
  "reply_bitflip p icmpSeq load \<longleftrightarrow>
     (case load of
        None \<Rightarrow> False
      | Some l \<Rightarrow> int (length l) = pg_Size (pn_conf p) \<and> length l > timestampLen \<and>
          CheckBitflip (drop timestampLen l) (Get (pn_salts p) (ucast icmpSeq)))"

definition reply_rtt :: "int \<Rightarrow> byte list option \<Rightarrow> int" where
  "reply_rtt rxts load =
     (let sendTS = (case load of
                      None \<Rightarrow> 0
                    | Some l \<Rightarrow> if length l \<ge> timestampLen then i64_of_u64 (le_word (take timestampLen l)) else 0)
      in if sendTS = 0 then 0 else i64 (rxts - sendTS))"

definition handleEchoReply :: "reply \<Rightarrow> int \<Rightarrow> Pinger \<Rightarrow> Pinger option" where
  "handleEchoReply r rxts p =
     (case rp_id r of None \<Rightarrow> Some p | Some icmpID \<Rightarrow>
     (case findTargetByICMPID p icmpID of None \<Rightarrow> Some p | Some t \<Rightarrow>
        if (case rp_src r of None \<Rightarrow> True | Some src \<Rightarrow> \<not> IP_Equal src (case tg_ip t of None \<Rightarrow> [] | Some ip \<Rightarrow> ip))
        then Some p
        else
          (case rp_seq r of None \<Rightarrow> Some p | Some icmpSeq \<Rightarrow>
             map_option (\<lambda>proc. p\<lparr>pn_proc := proc\<rparr>)
               (call_stat (Stat_Received (ucast icmpSeq) rxts (reply_rtt rxts (rp_load r)) (reply_bitflip p icmpSeq (rp_load r)))
                  (tg_stat t) (pn_proc p)))))"

text \<open>The IPv6 handler takes the source address from the socket instead of the packet: \<open>frm\<close> is the address
  that \<open>ParseIP\<close> reads back from the text of the socket address.\<close>

definition handleEchoReply6 :: "reply \<Rightarrow> IP option \<Rightarrow> int \<Rightarrow> Pinger \<Rightarrow> Pinger option" where
  "handleEchoReply6 r frm rxts p = handleEchoReply (r\<lparr>rp_src := frm\<rparr>) rxts p"

text \<open>The dispatch on the ICMP type; errors are only logged. IPv6 tries two dissections.\<close>

definition processPacket :: "(byte list \<Rightarrow> reply option) \<Rightarrow> byte list \<Rightarrow> int \<Rightarrow> Pinger \<Rightarrow> Pinger option" where
  "processPacket dissect raw rxts p =
     (case dissect raw of
        None \<Rightarrow> Some p
      | Some r \<Rightarrow> if rp_type r = Some 0 then handleEchoReply r rxts p else Some p)"

definition processPacket6 ::
    "(byte list \<Rightarrow> reply option) \<Rightarrow> (byte list \<Rightarrow> reply option) \<Rightarrow> byte list \<Rightarrow> IP option \<Rightarrow> int \<Rightarrow> Pinger \<Rightarrow> Pinger option" where
  "processPacket6 dissectICMPv6 dissectIPv6 raw frm rxts p =
     (case (case dissectICMPv6 raw of Some r \<Rightarrow> Some r | None \<Rightarrow> dissectIPv6 raw) of
        None \<Rightarrow> Some p
      | Some r \<Rightarrow> if rp_type r = Some 129 then handleEchoReply6 r frm rxts p else Some p)"

section \<open>Replies are attributed to their target\<close>

definition pinger_ok :: "Pinger \<Rightarrow> bool" where
  "pinger_ok p \<longleftrightarrow> length (pn_targets p) \<le> 65536 \<and>
     (\<forall>i<length (pn_targets p). tg_icmpID (pn_targets p ! i) = pn_pid p + of_nat i) \<and>
     8 \<le> pg_Size (pn_conf p) \<and> NewSalts (pg_Size (pn_conf p) - 8) = Some (pn_salts p)"

lemma icmp_ids_distinct:
  assumes "pinger_ok p" "i < length (pn_targets p)" "j < length (pn_targets p)"
    and "tg_icmpID (pn_targets p ! i) = tg_icmpID (pn_targets p ! j)"
  shows "i = j"
proof -
  have "(of_nat i :: u16) = of_nat j" using assms by (simp add: pinger_ok_def)
  moreover have "unat (of_nat k :: u16) = k" if "k < length (pn_targets p)" for k
    using that assms(1) by (simp add: pinger_ok_def unsigned_of_nat take_bit_nat_eq_self)
  ultimately show ?thesis using assms(2,3) by metis
qed

lemma find_target:
  assumes "pinger_ok p" "i < length (pn_targets p)"
  shows "findTargetByICMPID p (tg_icmpID (pn_targets p ! i)) = Some (pn_targets p ! i)"
proof -
  have "\<not> tg_icmpID (pn_targets p ! j) = tg_icmpID (pn_targets p ! i)" if "j < i" for j
    using icmp_ids_distinct [OF assms(1) _ assms(2), of j] that assms(2) by auto
  then show ?thesis using assms(2) by (auto simp: findTargetByICMPID_def find_Some_iff)
qed

text \<open>The set-up establishes the invariant and sending keeps it.\<close>

lemma run_targets_ids:
  "length (fst (run_targets seqs conf ts proc)) = length ts \<and>
   (\<forall>i<length ts. tg_icmpID (fst (run_targets seqs conf ts proc) ! i) = tg_icmpID (ts ! i))"
proof (induction ts arbitrary: proc)
  case (Cons t ts)
  show ?case using Cons [of "AddStat (NewStat (pg_LocalAddr conf) (tg_addr t) zero_range zero_range (pg_Rate conf) (pg_Span conf) (pg_Delay conf) True) proc"]
    by (auto simp: Let_def nth_Cons split: prod.splits nat.splits)
qed simp

lemma pinger_setup:
  assumes "new_pinger ip_of conf ospid = Some p" "8 \<le> pg_Size conf" "length (pg_TargetAddrs conf) \<le> 65536"
  shows "pinger_ok (Run_setup seqs p)"
proof -
  have p: "pn_conf p = conf" "pn_targets p = new_targets ip_of (pn_pid p) (pg_TargetAddrs conf)"
    "NewSalts (pg_Size conf - 8) = Some (pn_salts p)"
    using assms(1) by (auto simp: new_pinger_def Let_def timestampLen_def split: option.splits)
  have n: "length (new_targets ip_of pid as) = length as"
    "i < length as \<Longrightarrow> tg_icmpID (new_targets ip_of pid as ! i) = pid + of_nat i" for pid as i
    by (simp_all add: new_targets_def nth_enumerate_eq)
  have "pn_targets (Run_setup seqs p) = fst (run_targets seqs conf (pn_targets p) (NewProcessor (pg_Span conf) (pg_Delay conf)))"
    "pn_pid (Run_setup seqs p) = pn_pid p" "pn_conf (Run_setup seqs p) = conf" "pn_salts (Run_setup seqs p) = pn_salts p"
    by (simp_all add: Run_setup_def p(1) split: prod.splits)
  then show ?thesis using run_targets_ids [of seqs conf "pn_targets p"] p assms(2,3) n
    by (simp add: pinger_ok_def)
qed

lemma send_echo_ok:
  assumes "pinger_ok p" "i < length (pn_targets p)" "send_echo io i p = Some (p', out)"
  shows "pinger_ok p'"
proof -
  have "pn_pid p' = pn_pid p" "pn_conf p' = pn_conf p" "pn_salts p' = pn_salts p"
    "pn_targets p' = (pn_targets p)[i := (pn_targets p ! i)\<lparr>tg_seq := tg_seq (pn_targets p ! i) + 1\<rparr>]"
    using assms(3) by (auto simp: send_echo_def Let_def split: if_splits option.splits)
  then show ?thesis using assms(1,2) by (auto simp: pinger_ok_def nth_list_update)
qed

text \<open>The payload is the timestamp and the salt; sender and receiver pick the same salt.\<close>

lemma echo_payload_bytes:
  assumes "pinger_ok p"
  shows "echo_payload p sq now = le_bytes 8 (u64_of_i64 now) @ Get (pn_salts p) (sq mod 4)"
proof -
  have s: "NewSalts (pg_Size (pn_conf p) - 8) = Some (pn_salts p)" "8 \<le> nat (pg_Size (pn_conf p))"
    using assms by (auto simp: pinger_ok_def)
  have "length (Get (pn_salts p) (sq mod 4)) = nat (pg_Size (pn_conf p)) - 8"
    using s by (simp add: nat_diff_distrib)
  then show ?thesis using s(2)
    by (simp add: echo_payload_def timestampLen_def copy_salt salt_body_short copy_skip)
qed

lemma same_salt:
  assumes "NewSalts n = Some s"
  shows "Get s (ucast (ucast (sq AND 0xFFFF) :: u16)) = Get s (sq mod 4)"
proof -
  have "(ucast (ucast (sq AND 0xFFFF) :: u16) :: u64) = take_bit 16 sq"
  proof (rule bit_word_eqI)
    have m: "(0xFFFF :: u64) = mask 16" by (simp add: mask_eq_exp_minus_1)
    show "bit (ucast (ucast (sq AND 0xFFFF) :: u16) :: u64) n = bit (take_bit 16 sq) n" for n
      unfolding m by (auto simp: bit_simps)
  qed
  then have "unat (ucast (ucast (sq AND 0xFFFF) :: u16) :: u64) = unat sq mod 65536"
    by (simp add: take_bit_eq_mod unat_mod_distrib)
  then have "unat (ucast (ucast (sq AND 0xFFFF) :: u16) :: u64) mod 4 = unat sq mod 4"
    by (simp add: mod_mod_cancel)
  moreover have "unat (sq mod 4) mod 4 = unat sq mod 4" by (simp add: unat_mod_4)
  ultimately show ?thesis by (simp add: Get_cases [OF assms])
qed

text \<open>
  An unchanged echo reply is credited to the target it came from: with at most 65536 targets, a reply
  with a target's identifier, its address, the low 16 bits of the probe's sequence number and the
  probe's payload is recorded with that target's statistics, with the time since the timestamp in the
  payload, and without a bit flip, although sender and receiver derive the salt differently.
\<close>

theorem clean_reply_credited:
  assumes "pinger_ok p" "i < length (pn_targets p)" "tg_ip (pn_targets p ! i) = Some ip" "IP_Equal src ip"
    and "now \<noteq> 0" "in_i64 now"
  shows "handleEchoReply \<lparr>rp_type = Some 0, rp_id = Some (tg_icmpID (pn_targets p ! i)), rp_src = Some src,
           rp_seq = Some (ucast (sq AND 0xFFFF)), rp_load = Some (echo_payload p sq now)\<rparr> rxts p =
    map_option (\<lambda>proc. p\<lparr>pn_proc := proc\<rparr>)
      (call_stat (Stat_Received (ucast (ucast (sq AND 0xFFFF) :: u16)) rxts (i64 (rxts - now)) False)
         (tg_stat (pn_targets p ! i)) (pn_proc p))"
proof -
  have s: "NewSalts (pg_Size (pn_conf p) - 8) = Some (pn_salts p)" using assms(1) by (simp add: pinger_ok_def)
  have "reply_rtt rxts (Some (echo_payload p sq now)) = i64 (rxts - now)"
    using assms(5,6) by (simp add: reply_rtt_def echo_payload_bytes [OF assms(1)] timestampLen_def go_ints)
  moreover have "\<not> reply_bitflip p (ucast (sq AND 0xFFFF)) (Some (echo_payload p sq now))"
    by (simp add: reply_bitflip_def echo_payload_bytes [OF assms(1)] timestampLen_def CheckBitflip_def same_salt [OF s])
  ultimately show ?thesis
    using find_target [OF assms(1,2)] assms(3,4) by (simp add: handleEchoReply_def)
qed

definition demo_ping_conf :: ping_Config where
  "demo_ping_conf = 
     \<lparr>pg_TargetAddrs = [''a'', ''b''], pg_Rate = 1, pg_Span = 10, pg_Delay = 30, pg_Count = 0, pg_SendDuration = 0,
      pg_Size = 12, pg_TOS = 0, pg_TTL = 64, pg_Timeout = 1, pg_LocalAddr = ''c'', pg_Interface = ''eth0'',
      pg_Verbose = False, pg_Hwts = False\<rparr>"

definition demo_pinger :: Pinger where
  "demo_pinger = Run_setup (\<lambda>_. 5) (the (new_pinger (\<lambda>_. Some [10, 0, 0, 1]) demo_ping_conf 77))"

theorem clean_reply_credited_witness:
  "handleEchoReply \<lparr>rp_type = Some 0, rp_id = Some (tg_icmpID (pn_targets demo_pinger ! 1)), rp_src = Some [10, 0, 0, 1],
       rp_seq = Some (ucast ((6::u64) AND 0xFFFF)), rp_load = Some (echo_payload demo_pinger 6 15)\<rparr> 22 demo_pinger =
     map_option (\<lambda>proc. demo_pinger\<lparr>pn_proc := proc\<rparr>)
      (call_stat (Stat_Received (ucast (ucast ((6::u64) AND 0xFFFF) :: u16)) 22 (i64 (22 - 15)) False)
         (tg_stat (pn_targets demo_pinger ! 1)) (pn_proc demo_pinger))"
proof (rule clean_reply_credited)
  show "pinger_ok demo_pinger"
    unfolding demo_pinger_def
    by (rule pinger_setup [of "\<lambda>_. Some [10, 0, 0, 1]" demo_ping_conf 77])
      (simp_all add: new_pinger_def NewSalts_def timestampLen_def Let_def demo_ping_conf_def)
  show "1 < length (pn_targets demo_pinger)" "tg_ip (pn_targets demo_pinger ! 1) = Some [10, 0, 0, 1]" by code_simp+
  show "IP_Equal [10, 0, 0, 1] [10, 0, 0, 1]" "(15::int) \<noteq> 0" "in_i64 15" by (simp_all add: IP_Equal_def in_i64_def)
qed

end
