(* ===== verification/Ping_Io.thy ===== *)
theory Ping_Io
  imports Ping
begin

text \<open>
  The socket side of the two pingers: the timestamps the kernel attaches to datagrams
  (\<open>hardware_timestamp_linux.go\<close> of \<open>ping\<close> and \<open>ping6\<close>, which are the same file), the socket timeouts,
  and the receive loops \<open>serveRecv\<close>. The system calls are parameters: the parser of control messages and
  the outcomes of the reads. Times are int64 nanoseconds.
\<close>

section \<open>Kernel timestamps\<close>

record cmsg =
  cm_Level :: int
  cm_Type :: int
  cm_Data :: "byte list"

definition SOL_SOCKET :: int where "SOL_SOCKET = 1"
definition SO_TIMESTAMPING :: int where "SO_TIMESTAMPING = 37"
definition SCM_TIMESTAMPNS :: int where "SCM_TIMESTAMPNS = 35"

text \<open>\<open>unix.Timespec\<close> is two little-endian int64 values; \<open>Nano\<close> adds them up in nanoseconds.\<close>

definition Timespec_Nano :: "byte list \<Rightarrow> int" where
  "Timespec_Nano d = i64 (i64 (i64_of_u64 (le_word (take 8 d)) * second) + i64_of_u64 (le_word (take 8 (drop 8 d))))"

text \<open>The loop over the control messages; \<open>None\<close> is an error. The first message of either timestamp
  kind decides. A timestamping message holds three stamps: software, transformed and raw hardware.\<close>

fun stamp_from :: "cmsg list \<Rightarrow> int option" where
  "stamp_from [] = None"
| "stamp_from (cm # cms) =
     (if cm_Level cm = SOL_SOCKET \<and> cm_Type cm = SO_TIMESTAMPING then
        (if length (cm_Data cm) < 48 then None
         else
           let ts = (\<lambda>k. Timespec_Nano (drop (16 * k) (cm_Data cm)))
           in if ts 2 > 0 then Some (ts 2) else if ts 1 > 0 then Some (ts 1) else if ts 0 > 0 then Some (ts 0) else None)
      else if cm_Level cm = SOL_SOCKET \<and> cm_Type cm = SCM_TIMESTAMPNS then
        (if length (cm_Data cm) < 16 then None else Some (Timespec_Nano (cm_Data cm)))
      else stamp_from cms)"

definition getTimestampFromOOB :: "(byte list \<Rightarrow> cmsg list option) \<Rightarrow> byte list \<Rightarrow> nat \<Rightarrow> int option" where
  "getTimestampFromOOB ParseSocketControlMessage oob oobn =
     (case ParseSocketControlMessage (take oobn oob) of None \<Rightarrow> None | Some cms \<Rightarrow> stamp_from cms)"

text \<open>\<open>errqueue\<close> is what reading the error queue of the socket gave.\<close>

definition getTxTimestamp :: "(byte list \<Rightarrow> cmsg list option) \<Rightarrow> (byte list \<times> nat) option \<Rightarrow> int option" where
  "getTxTimestamp parse errqueue =
     (case errqueue of None \<Rightarrow> None | Some (oob, oobn) \<Rightarrow> getTimestampFromOOB parse oob oobn)"

text \<open>The two support flags (transmit, receive), from whether the kernel accepted the hardware option and
  the software fallback.\<close>

definition configureTimestamps :: "bool \<Rightarrow> bool \<Rightarrow> (bool \<times> bool) option" where
  "configureTimestamps hw_ok sw_ok =
     (if hw_ok then Some (True, True) else if sw_ok then Some (False, True) else None)"

record Timeval = tv_Sec :: int  tv_Usec :: int

definition setSocketTimeouts :: "int \<Rightarrow> Timeval" where
  "setSocketTimeouts timeout =
     (let sec = timeout sdiv second; usec = (timeout smod second) sdiv 1000
      in if sec = 0 \<and> usec = 0 then \<lparr>tv_Sec = 1, tv_Usec = usec\<rparr> else \<lparr>tv_Sec = sec, tv_Usec = usec\<rparr>)"

section \<open>The receive loops\<close>

datatype recv_event =
    RecvRetry
  | RecvFailed
  | RecvMsg "byte list" "byte list" nat int

text \<open>\<open>RecvRetry\<close> is a timeout (for IPv6 also an interrupted or empty read); a message carries the packet,
  the control buffer with its used length and the clock. The list ends where the stop channel is closed.\<close>

definition recv_time :: "(byte list \<Rightarrow> cmsg list option) \<Rightarrow> bool \<Rightarrow> byte list \<Rightarrow> nat \<Rightarrow> int \<Rightarrow> int" where
  "recv_time parse supportRxTS oob oobn now =
     (let rxts = (if supportRxTS then (case getTimestampFromOOB parse oob oobn of None \<Rightarrow> 0 | Some ts \<Rightarrow> ts) else 0)
      in if rxts = 0 then now else rxts)"

fun serveRecv ::
    "(byte list \<Rightarrow> cmsg list option) \<Rightarrow> (byte list \<Rightarrow> reply option) \<Rightarrow> bool \<Rightarrow> recv_event list \<Rightarrow> Pinger \<Rightarrow> Pinger option" where
  "serveRecv parse dissect rx [] p = Some p"
| "serveRecv parse dissect rx (RecvRetry # evs) p = serveRecv parse dissect rx evs p"
| "serveRecv parse dissect rx (RecvFailed # evs) p = Some p"
| "serveRecv parse dissect rx (RecvMsg raw oob oobn now # evs) p =
     (case processPacket dissect raw (recv_time parse rx oob oobn now) p of
        None \<Rightarrow> None
      | Some p' \<Rightarrow> serveRecv parse dissect rx evs p')"

text \<open>The IPv6 loop also gets the sender's address with each packet.\<close>

fun serveRecv6 ::
    "(byte list \<Rightarrow> cmsg list option) \<Rightarrow> (byte list \<Rightarrow> reply option) \<Rightarrow> (byte list \<Rightarrow> reply option) \<Rightarrow> bool \<Rightarrow>
     (recv_event \<times> IP option) list \<Rightarrow> Pinger \<Rightarrow> Pinger option" where
  "serveRecv6 parse d6 d rx [] p = Some p"
| "serveRecv6 parse d6 d rx ((RecvRetry, frm) # evs) p = serveRecv6 parse d6 d rx evs p"
| "serveRecv6 parse d6 d rx ((RecvFailed, frm) # evs) p = Some p"
| "serveRecv6 parse d6 d rx ((RecvMsg raw oob oobn now, frm) # evs) p =
     (case processPacket6 d6 d raw frm (recv_time parse rx oob oobn now) p of
        None \<Rightarrow> None
      | Some p' \<Rightarrow> serveRecv6 parse d6 d rx evs p')"

section \<open>What the kernel reports is what is read\<close>

definition timespec_bytes :: "int \<times> int \<Rightarrow> byte list" where
  "timespec_bytes t = le_bytes 8 (u64_of_i64 (fst t)) @ le_bytes 8 (u64_of_i64 (snd t))"

definition nano :: "int \<times> int \<Rightarrow> int" where
  "nano t = fst t * second + snd t"

definition timespec_ok :: "int \<times> int \<Rightarrow> bool" where
  "timespec_ok t \<longleftrightarrow> 0 \<le> fst t \<and> 0 \<le> snd t \<and> in_i64 (nano t)"

lemma length_timespec_bytes [simp]: "length (timespec_bytes t) = 16"
  by (simp add: timespec_bytes_def)

lemma Timespec_Nano_bytes:
  assumes "timespec_ok t"
  shows "Timespec_Nano (timespec_bytes t @ rest) = nano t"
proof -
  have "fst t \<le> fst t * second" using assms by (simp add: timespec_ok_def second_def)
  then have "in_i64 (fst t)" "in_i64 (snd t)" "in_i64 (fst t * second)" "in_i64 (fst t * second + snd t)"
    using assms by (auto simp: timespec_ok_def in_i64_def nano_def)
  then show ?thesis by (simp add: Timespec_Nano_def timespec_bytes_def nano_def go_ints)
qed

lemma stamp_skips:
  assumes "\<forall>m\<in>set pre. cm_Level m \<noteq> SOL_SOCKET \<or> cm_Type m \<noteq> SO_TIMESTAMPING \<and> cm_Type m \<noteq> SCM_TIMESTAMPNS"
  shows "stamp_from (pre @ cms) = stamp_from cms"
  using assms by (induction pre) auto

text \<open>
  The timestamp taken from the control messages is the best one of the first timestamping message: the
  raw hardware stamp when it is positive, else the transformed one, else the software stamp, else none.
  Messages of other kinds before it and all messages behind it do not matter.
\<close>

theorem timestamp_priority:
  assumes "\<forall>m\<in>set pre. cm_Level m \<noteq> SOL_SOCKET \<or> cm_Type m \<noteq> SO_TIMESTAMPING \<and> cm_Type m \<noteq> SCM_TIMESTAMPNS"
    and "timespec_ok sw" "timespec_ok sys" "timespec_ok raw"
  shows "getTimestampFromOOB
      (\<lambda>_. Some (pre @ \<lparr>cm_Level = SOL_SOCKET, cm_Type = SO_TIMESTAMPING,
                   cm_Data = timespec_bytes sw @ timespec_bytes sys @ timespec_bytes raw\<rparr> # post)) oob oobn =
    List.find (\<lambda>t. t > 0) [nano raw, nano sys, nano sw]"
  using assms(2-4) Timespec_Nano_bytes [of raw "[]"]
  by (simp add: getTimestampFromOOB_def stamp_skips [OF assms(1)] Timespec_Nano_bytes)

theorem timestamp_priority_witness:
  "getTimestampFromOOB
      (\<lambda>_. Some ([\<lparr>cm_Level = 0, cm_Type = 8, cm_Data = []\<rparr>] @ \<lparr>cm_Level = SOL_SOCKET, cm_Type = SO_TIMESTAMPING,
                   cm_Data = timespec_bytes (5, 7) @ timespec_bytes (6, 9) @ timespec_bytes (0, 0)\<rparr> # [])) [] 0 =
    List.find (\<lambda>t. t > 0) [nano (0, 0), nano (6, 9), nano (5, 7)] \<and> nano (6, 9) = 6000000009"
  using timestamp_priority [of "[\<lparr>cm_Level = 0, cm_Type = 8, cm_Data = []\<rparr>]" "(5, 7)" "(6, 9)" "(0, 0)" "[]" "[]" 0]
  by (simp add: SOL_SOCKET_def timespec_ok_def nano_def second_def in_i64_def)

text \<open>A socket never gets a timeout of zero, which would let a read block for ever; a timeout of at least a
  microsecond is set exactly to the microsecond.\<close>

lemma split_seconds: "timeout div 1000 = timeout div 1000000000 * 1000000 + timeout mod 1000000000 div 1000"
  for timeout :: int
proof -
  have "(r + q * 1000000000) div 1000 = q * 1000000 + r div 1000" for q r :: int
    using div_mult_self1 [of 1000 r "q * 1000000"] by simp
  then show ?thesis by (metis mod_div_mult_eq)
qed

lemma setSocketTimeouts_cases:
  assumes "0 \<le> timeout"
  shows "setSocketTimeouts timeout =
    (if timeout < 1000 then \<lparr>tv_Sec = 1, tv_Usec = 0\<rparr>
     else \<lparr>tv_Sec = timeout div 1000000000, tv_Usec = timeout mod 1000000000 div 1000\<rparr>)"
  using assms by (auto simp: setSocketTimeouts_def Let_def second_def sdiv_nonneg signed_modulo_int_def sgn_if abs_if)

lemma socket_timeout_exact:
  assumes "1000 \<le> timeout"
  shows "tv_Sec (setSocketTimeouts timeout) * 1000000 + tv_Usec (setSocketTimeouts timeout) = timeout div 1000"
  using assms split_seconds [of timeout] by (simp add: setSocketTimeouts_cases)

lemma socket_timeout_positive:
  assumes "0 \<le> timeout"
  shows "0 < tv_Sec (setSocketTimeouts timeout) * 1000000 + tv_Usec (setSocketTimeouts timeout)"
proof (cases "timeout < 1000")
  case True
  then show ?thesis using assms by (simp add: setSocketTimeouts_cases)
next
  case False
  then have "1 \<le> timeout div 1000" using zdiv_mono1 [of 1000 timeout 1000] by simp
  then show ?thesis using False socket_timeout_exact [of timeout] by simp
qed

end
