(* ===== verification/Ping_Sockets.thy ===== *)
theory Ping_Sockets
  imports Ping_Io
begin

text \<open>
  How the pingers open their sockets and build their packets: \<open>openConn\<close>, \<open>buildICMPkt\<close>,
  \<open>buildICMPv6Pkt\<close>, \<open>Run\<close> and the helpers of \<open>ping/pinger.go\<close> and \<open>ping6/pinger.go\<close>, the ioctl calls of
  \<open>hardware_timestamp_linux.go\<close> and the fallbacks of \<open>hardware_timestamp_other.go\<close>. The kernel and the
  packet library are arguments: the outcomes of the calls, and the serialisation of a stack of layers.
\<close>

section \<open>Hardware timestamps\<close>

text \<open>The interface request holds 16 bytes of the interface name.\<close>

record HwTstampConfig =
  hw_Flags :: int
  hw_Tx_type :: int
  hw_Rx_filter :: int

definition ifreq_name :: "string \<Rightarrow> byte list" where
  "ifreq_name interfaceName = copy_at 0 (map (\<lambda>c. of_char c) interfaceName) (replicate 16 0)"

datatype ioctl_request = SIOCSHWTSTAMP | SIOCGHWTSTAMP

datatype sock_option = OPT_TIMESTAMPING int | OPT_TIMESTAMPNS int | OPT_RCVTIMEO Timeval | OPT_SNDTIMEO Timeval

text \<open>The kernel: whether a socket can be made, what an ioctl leaves in the configuration it was given
  (\<open>None\<close> is an error number), and whether an option can be set.\<close>

record kernel =
  kn_socket_ok :: bool
  kn_ioctl :: "ioctl_request \<Rightarrow> byte list \<Rightarrow> HwTstampConfig \<Rightarrow> HwTstampConfig option"
  kn_setsockopt :: "sock_option \<Rightarrow> bool"

datatype conn_error =
    SocketFailed
  | BindFailed
  | FileFailed
  | IoctlSetFailed string
  | IoctlGetFailed string
  | TimestampsFailed
  | TimeoutFailed

definition enableHardwareTimestamp :: "kernel \<Rightarrow> string \<Rightarrow> conn_error option" where
  "enableHardwareTimestamp kn interfaceName =
     (if \<not> kn_socket_ok kn then Some SocketFailed
      else case kn_ioctl kn SIOCSHWTSTAMP (ifreq_name interfaceName) \<lparr>hw_Flags = 0, hw_Tx_type = 1, hw_Rx_filter = 1\<rparr> of
        None \<Rightarrow> Some (IoctlSetFailed interfaceName)
      | Some _ \<Rightarrow> None)"

text \<open>The status that is printed.\<close>

definition checkHardwareTimestamp :: "kernel \<Rightarrow> string \<Rightarrow> conn_error + string \<times> HwTstampConfig" where
  "checkHardwareTimestamp kn interfaceName =
     (if \<not> kn_socket_ok kn then Inl SocketFailed
      else case kn_ioctl kn SIOCGHWTSTAMP (ifreq_name interfaceName) \<lparr>hw_Flags = 0, hw_Tx_type = 0, hw_Rx_filter = 0\<rparr> of
        None \<Rightarrow> Inl (IoctlGetFailed interfaceName)
      | Some config \<Rightarrow> Inr (interfaceName, config))"

text \<open>Transmit and receive hardware stamps, reported raw, transformed and from software, with the stamps
  as control messages.\<close>

definition stamping_flags :: int where
  "stamping_flags = 1 + 4 + 64 + 32 + 16 + 1024"

record stamp_setup =
  sp_warning :: "conn_error option"
  sp_status :: "(string \<times> HwTstampConfig) option"
  sp_flags :: "(bool \<times> bool) option"

text \<open>All of \<open>configureTimestamps\<close>: a failing ioctl is only logged; the flags are \<open>None\<close> when neither
  kind of timestamp can be enabled.\<close>

definition configure_stamps :: "kernel \<Rightarrow> string \<Rightarrow> bool \<Rightarrow> stamp_setup" where
  "configure_stamps kn iface verbose =
     \<lparr>sp_warning = enableHardwareTimestamp kn iface,
      sp_status = (if verbose then (case checkHardwareTimestamp kn iface of Inl e \<Rightarrow> None | Inr s \<Rightarrow> Some s) else None),
      sp_flags = configureTimestamps (kn_setsockopt kn (OPT_TIMESTAMPING stamping_flags)) (kn_setsockopt kn (OPT_TIMESTAMPNS 1))\<rparr>"

definition set_timeouts :: "kernel \<Rightarrow> int \<Rightarrow> conn_error option" where
  "set_timeouts kn timeout =
     (let tv = setSocketTimeouts timeout
      in if \<not> kn_setsockopt kn (OPT_RCVTIMEO tv) then Some TimeoutFailed
         else if \<not> kn_setsockopt kn (OPT_SNDTIMEO tv) then Some TimeoutFailed else None)"

subsection \<open>Systems other than Linux\<close>

definition getTimestampFromOOB_other :: "byte list \<Rightarrow> nat \<Rightarrow> int option" where
  "getTimestampFromOOB_other oob oobn = None"

definition getTxTimestamp_other :: "int \<Rightarrow> int option" where
  "getTxTimestamp_other fd = None"

definition configureTimestamps_other :: "(bool \<times> bool) option" where
  "configureTimestamps_other = Some (False, False)"

text \<open>The microseconds go through an int32.\<close>

definition setSocketTimeouts_other :: "int \<Rightarrow> Timeval" where
  "setSocketTimeouts_other timeout =
     (let sec = timeout sdiv second; usec = (timeout smod second) sdiv 1000; sec = (if sec = 0 \<and> usec = 0 then 1 else sec)
      in \<lparr>tv_Sec = sec, tv_Usec = sint (word_of_int usec :: 32 word)\<rparr>)"

section \<open>Opening the connection\<close>

text \<open>The result of \<open>openConn\<close>: the two support flags, or an error and whether the socket stays open.\<close>

datatype opened = Opened bool bool | OpenFailed conn_error bool

record listen_env =
  ln_ListenPacket :: "string \<Rightarrow> bool"
  ln_File_ok :: bool
  ln_bind6_ok :: bool
  ln_kernel :: kernel

definition stamp_and_timeout :: "kernel \<Rightarrow> ping_Config \<Rightarrow> bool \<Rightarrow> opened" where
  "stamp_and_timeout kn conf leak =
     (case (if pg_Hwts conf then sp_flags (configure_stamps kn (pg_Interface conf) (pg_Verbose conf)) else Some (False, False)) of
        None \<Rightarrow> OpenFailed TimestampsFailed leak
      | Some (tx, rx) \<Rightarrow>
          (case set_timeouts kn (pg_Timeout conf) of Some e \<Rightarrow> OpenFailed e leak | None \<Rightarrow> Opened tx rx))"

definition openConn :: "listen_env \<Rightarrow> ping_Config \<Rightarrow> opened" where
  "openConn env conf =
     (let localAddr = (if pg_LocalAddr conf = [] then ''0.0.0.0'' else pg_LocalAddr conf)
      in if \<not> ln_ListenPacket env localAddr then OpenFailed SocketFailed False
         else if \<not> ln_File_ok env then OpenFailed FileFailed True
         else stamp_and_timeout (ln_kernel env) conf True)"

text \<open>The IPv6 version closes its socket again when something fails.\<close>

definition openConn6 :: "listen_env \<Rightarrow> ping_Config \<Rightarrow> opened" where
  "openConn6 env conf =
     (if \<not> kn_socket_ok (ln_kernel env) then OpenFailed SocketFailed False
      else if \<not> ln_bind6_ok env then OpenFailed BindFailed False
      else stamp_and_timeout (ln_kernel env) conf False)"

text \<open>\<open>Run\<close> up to the start of the loops: the connection, then the statistics of the targets.\<close>

definition ping_Run :: "listen_env \<Rightarrow> (nat \<Rightarrow> u64) \<Rightarrow> Pinger \<Rightarrow> conn_error + Pinger \<times> bool \<times> bool" where
  "ping_Run env seqs p =
     (case openConn env (pn_conf p) of
        OpenFailed e leak \<Rightarrow> Inl e
      | Opened tx rx \<Rightarrow> Inr (Run_setup seqs p, tx, rx))"

definition ping6_Run :: "listen_env \<Rightarrow> (nat \<Rightarrow> u64) \<Rightarrow> Pinger \<Rightarrow> conn_error + Pinger \<times> bool \<times> bool" where
  "ping6_Run env seqs p =
     (case openConn6 env (pn_conf p) of
        OpenFailed e leak \<Rightarrow> Inl e
      | Opened tx rx \<Rightarrow> Inr (Run_setup seqs p, tx, rx))"

section \<open>Packets\<close>

text \<open>The layers the pingers stack.\<close>

datatype ip_layer =
    IPLayer string string byte
  | IPv6Layer string string byte byte

datatype echo_layer =
    ICMPLayer byte byte u16 u16
  | ICMPv6Layer byte byte
  | ICMPv6EchoLayer u16 u16 "byte list"
  | RawLayer "byte list"

text \<open>\<open>build ip rest k\<close> serialises the packet from layer \<open>k\<close> on.\<close>

type_synonym echo_builder = "ip_layer \<Rightarrow> echo_layer list \<Rightarrow> nat \<Rightarrow> byte list option"

definition buildICMPkt :: "echo_builder \<Rightarrow> ping_Config \<Rightarrow> ping_target \<Rightarrow> u16 \<Rightarrow> byte list \<Rightarrow> byte list option" where
  "buildICMPkt build conf t seq payload =
     build (IPLayer (pg_LocalAddr conf) (tg_addr t) (word_of_int (pg_TTL conf)))
       [ICMPLayer 8 0 (tg_icmpID t) seq, RawLayer payload] 1"

text \<open>Every field is set with an error check; \<open>set_ok\<close> says which can be set. The traffic class is left at
  zero unless it is positive.\<close>

definition buildICMPv6Pkt ::
    "(string \<Rightarrow> bool) \<Rightarrow> echo_builder \<Rightarrow> ping_Config \<Rightarrow> ping_target \<Rightarrow> u16 \<Rightarrow> byte list \<Rightarrow> byte list option" where
  "buildICMPv6Pkt set_ok build conf t seq payload =
     (if \<not> set_ok ''src'' then None
      else if \<not> set_ok ''dst'' then None
      else if \<not> set_ok ''hlim'' then None
      else if pg_TOS conf > 0 \<and> \<not> set_ok ''ver_tc_fl'' then None
      else if \<not> set_ok ''type'' then None
      else if \<not> set_ok ''code'' then None
      else if \<not> set_ok ''data'' then None
      else build (IPv6Layer (pg_LocalAddr conf) (tg_addr t) (word_of_int (pg_TTL conf))
               (if pg_TOS conf > 0 then word_of_int (pg_TOS conf) else 0))
             [ICMPv6Layer 128 0, ICMPv6EchoLayer (tg_icmpID t) seq payload] 1)"

text \<open>The transmit timestamp is asked for when the socket supports it.\<close>

definition tx_time :: "(byte list \<Rightarrow> cmsg list option) \<Rightarrow> bool \<Rightarrow> (byte list \<times> nat) option \<Rightarrow> int option" where
  "tx_time parse supportTxTS errqueue = (if supportTxTS then getTxTimestamp parse errqueue else None)"

section \<open>Addresses and errors of the receiver\<close>

datatype sockaddr = SockaddrInet4 "byte list" | SockaddrInet6 "byte list" | SockaddrOther

definition sockaddrToString :: "net_env \<Rightarrow> sockaddr option \<Rightarrow> string" where
  "sockaddrToString env sa =
     (case sa of
        None \<Rightarrow> []
      | Some (SockaddrInet6 addr) \<Rightarrow> e_IPString env addr
      | Some (SockaddrInet4 addr) \<Rightarrow> e_IPString env addr
      | Some SockaddrOther \<Rightarrow> [])"

text \<open>The source address \<open>handleEchoReply\<close> of \<open>ping6\<close> compares with the target.\<close>

definition reply_source :: "net_env \<Rightarrow> sockaddr option \<Rightarrow> IP option" where
  "reply_source env frm = e_ParseIP env (sockaddrToString env frm)"

text \<open>Errors of a read: the error numbers, of which the first two answer \<open>Timeout()\<close> with true, and the other
  network errors with their answer.\<close>

datatype read_error = EAGAIN | EWOULDBLOCK | EINTR | NetError bool | OtherError

definition isTimeout :: "read_error option \<Rightarrow> bool" where
  "isTimeout err =
     (case err of
        None \<Rightarrow> False
      | Some EAGAIN \<Rightarrow> True
      | Some EWOULDBLOCK \<Rightarrow> True
      | Some EINTR \<Rightarrow> False
      | Some (NetError t) \<Rightarrow> t
      | Some OtherError \<Rightarrow> False)"

text \<open>What the receive loops make of a failed read.\<close>

definition read_failed :: "read_error \<Rightarrow> recv_event" where
  "read_failed err = (if isTimeout (Some err) then RecvRetry else RecvFailed)"

definition read_failed6 :: "read_error \<Rightarrow> recv_event" where
  "read_failed6 err =
     (if err = EAGAIN \<or> err = EWOULDBLOCK then RecvRetry
      else if err = EINTR then RecvRetry
      else if isTimeout (Some err) then RecvRetry
      else RecvFailed)"

text \<open>The warning for an ICMP error; the numbers are those of the version.\<close>

definition handleICMPError :: "string \<Rightarrow> byte \<Rightarrow> string option" where
  "handleICMPError srcStr icmpType =
     (if icmpType = 3 then Some (''[WARN] destination unreachable from '' @ srcStr)
      else if icmpType = 11 then Some (''[WARN] time exceeded from '' @ srcStr) else None)"

definition handleICMPv6Error :: "string \<Rightarrow> byte \<Rightarrow> string option" where
  "handleICMPv6Error srcStr icmpType =
     (if icmpType = 1 then Some (''[WARN] destination unreachable from '' @ srcStr)
      else if icmpType = 3 then Some (''[WARN] time exceeded from '' @ srcStr) else None)"

section \<open>What is on the wire\<close>

text \<open>The packets that a run of the send loop writes, with their targets.\<close>

definition wire_packet ::
    "echo_builder \<Rightarrow> ping_Config \<Rightarrow> (ping_target \<times> u16 \<times> byte list) option \<Rightarrow> (string \<times> byte list option) list" where
  "wire_packet build conf out =
     (case out of None \<Rightarrow> [] | Some (t, seq, payload) \<Rightarrow> [(tg_addr t, buildICMPkt build conf t seq payload)])"

fun round_wire :: "echo_builder \<Rightarrow> (nat \<Rightarrow> echo_io) \<Rightarrow> nat list \<Rightarrow> Pinger \<Rightarrow> (string \<times> byte list option) list" where
  "round_wire build ios [] p = []"
| "round_wire build ios (i # rest) p =
     (case send_echo (ios i) i p of
        None \<Rightarrow> []
      | Some (p', out) \<Rightarrow> wire_packet build (pn_conf p') out @ round_wire build ios rest p')"

fun send_wire :: "echo_builder \<Rightarrow> (int \<times> (nat \<Rightarrow> echo_io)) list \<Rightarrow> Pinger \<times> int \<Rightarrow> (string \<times> byte list option) list" where
  "send_wire build [] s = []"
| "send_wire build ((since, ios) # rounds) (p, cnt) =
     (if limit_reached (pn_conf p) cnt since then []
      else round_wire build ios [0..<length (pn_targets p)] p @
        (case send_round ios [0..<length (pn_targets p)] (p, cnt) of None \<Rightarrow> [] | Some s' \<Rightarrow> send_wire build rounds s'))"

text \<open>A pinger with another time to live and type of service.\<close>

definition with_ttl_tos :: "int \<Rightarrow> int \<Rightarrow> Pinger \<Rightarrow> Pinger" where
  "with_ttl_tos ttl tos p = p\<lparr>pn_conf := (pn_conf p)\<lparr>pg_TTL := ttl, pg_TOS := tos\<rparr>\<rparr>"

lemma send_echo_ttl_tos:
  "send_echo io i (with_ttl_tos ttl tos p) = map_option (\<lambda>(p', out). (with_ttl_tos ttl tos p', out)) (send_echo io i p)"
  by (simp add: send_echo_def with_ttl_tos_def echo_payload_def Let_def split: option.split)

lemma send_round_ttl_tos:
  "send_round ios is (with_ttl_tos ttl tos p, cnt) =
     map_option (\<lambda>(p', n). (with_ttl_tos ttl tos p', n)) (send_round ios is (p, cnt))"
  by (induction "is" arbitrary: p cnt) (auto simp: send_echo_ttl_tos split: option.splits)

text \<open>The serialisation of the layers behind the IP header does not depend on its time to live: the law of
  the packet library this rests on.\<close>

definition kernel_header :: "echo_builder \<Rightarrow> bool" where
  "kernel_header build \<longleftrightarrow> (\<forall>src dst ttl ttl' rest. build (IPLayer src dst ttl) rest 1 = build (IPLayer src dst ttl') rest 1)"

lemma build_ttl_tos:
  "kernel_header build \<Longrightarrow>
     buildICMPkt build (conf\<lparr>pg_TTL := ttl, pg_TOS := tos\<rparr>) t seq payload = buildICMPkt build conf t seq payload"
  by (simp add: buildICMPkt_def kernel_header_def)

lemma round_wire_ttl_tos:
  assumes "kernel_header build"
  shows "round_wire build ios is (with_ttl_tos ttl tos p) = round_wire build ios is p"
proof (induction "is" arbitrary: p)
  case (Cons i "is")
  have "wire_packet build (pn_conf (with_ttl_tos ttl tos q)) out = wire_packet build (pn_conf q) out" for q out
    by (auto simp: wire_packet_def with_ttl_tos_def build_ttl_tos [OF assms] split: option.split)
  then show ?case using Cons.IH by (auto simp: send_echo_ttl_tos split: option.split)
qed simp

lemma send_wire_ttl_tos:
  assumes "kernel_header build"
  shows "send_wire build rounds (with_ttl_tos ttl tos p, cnt) = send_wire build rounds (p, cnt)"
proof (induction rounds arbitrary: p cnt)
  case (Cons r rounds)
  obtain since ios where r: "r = (since, ios)" by (cases r)
  have same: "pn_targets (with_ttl_tos ttl tos p) = pn_targets p"
    "limit_reached (pn_conf (with_ttl_tos ttl tos p)) cnt since = limit_reached (pn_conf p) cnt since"
    by (simp_all add: with_ttl_tos_def limit_reached_def)
  show ?case using Cons.IH unfolding r
    by (auto simp: same round_wire_ttl_tos [OF assms] send_round_ttl_tos split: option.split)
qed simp

text \<open>The same holds for the hop limit and the traffic class of the IPv6 version.\<close>

lemma hlim_tc_not_sent:
  assumes "\<And>src dst h tc h' tc' rest. build (IPv6Layer src dst h tc) rest 1 = build (IPv6Layer src dst h' tc') rest 1" "set_ok ''ver_tc_fl''"
  shows "buildICMPv6Pkt set_ok build (conf\<lparr>pg_TTL := hlim, pg_TOS := tc\<rparr>) t seq payload = buildICMPv6Pkt set_ok build conf t seq payload"
  using assms(2) by (auto simp: buildICMPv6Pkt_def intro: assms(1) [unfolded One_nat_def])

text \<open>A serialisation with this law: the ICMP header without its checksum, and the payload.\<close>

fun plain_layer :: "echo_layer \<Rightarrow> byte list" where
  "plain_layer (ICMPLayer ty code i seq) = [ty, code, 0, 0] @ be_bytes 2 i @ be_bytes 2 seq"
| "plain_layer (ICMPv6Layer ty code) = [ty, code, 0, 0]"
| "plain_layer (ICMPv6EchoLayer i seq data) = be_bytes 2 i @ be_bytes 2 seq @ data"
| "plain_layer (RawLayer data) = data"

definition plain_build :: echo_builder where
  "plain_build ip rest k = (if k = 0 then None else Some (concat (map plain_layer (drop (k - 1) rest))))"

lemma kernel_header_plain: "kernel_header plain_build"
  by (simp add: kernel_header_def plain_build_def)


definition demo_round :: "nat \<Rightarrow> echo_io" where
  "demo_round i = \<lparr>eo_now = 15, eo_build_ok = True, eo_write_ok = True, eo_txts = None\<rparr>"

lemma demo_wire: "length (send_wire plain_build [(0, demo_round)] (demo_pinger, 0)) = 2"
  by code_simp


end
