(* ===== verification/Stat_Processor.thy ===== *)
theory Stat_Processor
  imports Stat_Report
begin

text \<open>
  The processor's loop (\<open>Run\<close> in \<open>stat/processor.go\<close>) over many statistics objects, interleaved with the
  recording calls of the goroutines that use them. A tick takes a snapshot of the registered objects and
  visits them one by one without holding a lock across visits, so other calls may fall between two
  visits: the events below are single visits and single recording calls. Results are tagged with the position of the
  object that sent them.
\<close>

section \<open>Definitions\<close>

datatype proc_event = Registered udpStat | At nat stat_event

fun proc_step :: "proc_event \<Rightarrow> Processor \<Rightarrow> (Processor \<times> (nat \<times> StatResult) list) option" where
  "proc_step (Registered s) p = Some (AddStat s p, [])"
| "proc_step (At i e) p =
     (if i < length (p_stats p)
      then map_option (\<lambda>(s', out). (p\<lparr>p_stats := (p_stats p)[i := s']\<rparr>, map (Pair i) out)) (run_event e (p_stats p ! i))
      else None)"

fun proc_run :: "proc_event list \<Rightarrow> Processor \<Rightarrow> (Processor \<times> (nat \<times> StatResult) list) option" where
  "proc_run [] p = Some (p, [])"
| "proc_run (e # es) p =
     (case proc_step e p of
        None \<Rightarrow> None
      | Some (p1, out) \<Rightarrow>
          (case proc_run es p1 of
             None \<Rightarrow> None
           | Some (p2, outs) \<Rightarrow> Some (p2, out @ outs)))"

text \<open>The loop itself: the run after the initial delay, then one per tick, until the context is done. A tick
  gives the clock reading each visit takes.\<close>

fun Processor_Run :: "(nat \<Rightarrow> int) list \<Rightarrow> Processor \<Rightarrow> (Processor \<times> StatResult list) option" where
  "Processor_Run [] p = Some (p, [])"
| "Processor_Run (now # ticks) p =
     (case runOnce now p of
        None \<Rightarrow> None
      | Some (p1, out) \<Rightarrow>
          (case Processor_Run ticks p1 of
             None \<Rightarrow> None
           | Some (p2, outs) \<Rightarrow> Some (p2, out @ outs)))"


section \<open>Objects do not disturb each other\<close>

fun project :: "nat \<Rightarrow> proc_event list \<Rightarrow> stat_event list" where
  "project i [] = []"
| "project i (Registered s # es) = project i es"
| "project i (At j e # es) = (if i = j then e # project i es else project i es)"

text \<open>Events name objects that are registered by then, and carry Unix timestamps.\<close>

fun events_ok :: "nat \<Rightarrow> proc_event list \<Rightarrow> bool" where
  "events_ok n [] \<longleftrightarrow> True"
| "events_ok n (Registered s # es) \<longleftrightarrow> stat_ok s \<and> events_ok (Suc n) es"
| "events_ok n (At i e # es) \<longleftrightarrow> i < n \<and> event_ok e \<and> events_ok n es"

definition sent_by :: "nat \<Rightarrow> (nat \<times> StatResult) list \<Rightarrow> StatResult list" where
  "sent_by i outs = map snd (filter (\<lambda>o'. fst o' = i) outs)"

lemma sent_by_simps [simp]:
  "sent_by i [] = []" "sent_by i (xs @ ys) = sent_by i xs @ sent_by i ys" "sent_by i (map (Pair j) rs) = (if i = j then rs else [])"
  by (auto simp: sent_by_def comp_def filter_map)

lemma independent:
  assumes "\<forall>s \<in> set (p_stats p). stat_ok s" "events_ok (length (p_stats p)) es"
  shows "\<exists>p' outs. proc_run es p = Some (p', outs) \<and> length (p_stats p) \<le> length (p_stats p') \<and> (\<forall>s \<in> set (p_stats p'). stat_ok s) \<and>
    (\<forall>i < length (p_stats p). run_events (project i es) (p_stats p ! i) = Some (p_stats p' ! i, sent_by i outs))"
  using assms
proof (induction es arbitrary: p)
  case (Cons e es)
  show ?case
  proof (cases e)
    case (Registered s)
    then have "\<forall>s \<in> set (p_stats (AddStat s p)). stat_ok s" "events_ok (length (p_stats (AddStat s p))) es"
      using Cons.prems by (auto simp: AddStat_def)
    then obtain p' outs where p': "proc_run es (AddStat s p) = Some (p', outs)"
        "length (p_stats (AddStat s p)) \<le> length (p_stats p') \<and> (\<forall>s \<in> set (p_stats p'). stat_ok s)"
        "\<forall>i < length (p_stats (AddStat s p)). run_events (project i es) (p_stats (AddStat s p) ! i) = Some (p_stats p' ! i, sent_by i outs)"
      using Cons.IH by blast
    have "run_events (project i (e # es)) (p_stats p ! i) = Some (p_stats p' ! i, sent_by i outs)" if "i < length (p_stats p)" for i
      using p'(3) [rule_format, of i] that Registered by (simp add: AddStat_def nth_append)
    moreover have "proc_run (e # es) p = Some (p', outs)" using p'(1) Registered by simp
    ultimately show ?thesis using p'(2) by (auto simp: AddStat_def)
  next
    case (At j ev)
    then have j: "j < length (p_stats p)" "event_ok ev" "events_ok (length (p_stats p)) es" using Cons.prems(2) by auto
    then obtain s' out where s': "run_event ev (p_stats p ! j) = Some (s', out)" "stat_ok s'"
      using run_event_total [of "p_stats p ! j" ev] Cons.prems(1) by auto
    let ?p = "p\<lparr>p_stats := (p_stats p)[j := s']\<rparr>"
    have "\<forall>s \<in> set (p_stats ?p). stat_ok s"
      using Cons.prems(1) s'(2) set_update_subset_insert [of "p_stats p" j s'] by auto
    then obtain p' outs where p': "proc_run es ?p = Some (p', outs)" "length (p_stats p) \<le> length (p_stats p') \<and> (\<forall>s \<in> set (p_stats p'). stat_ok s)"
        "\<forall>i < length (p_stats p). run_events (project i es) (p_stats ?p ! i) = Some (p_stats p' ! i, sent_by i outs)"
      using Cons.IH [of ?p] j(3) by auto
    have "run_events (project i (e # es)) (p_stats p ! i) = Some (p_stats p' ! i, sent_by i (map (Pair j) out @ outs))"
      if "i < length (p_stats p)" for i
      using p'(3) that s'(1) At by (cases "i = j") auto
    moreover have "proc_run (e # es) p = Some (p', map (Pair j) out @ outs)" using At j(1) s'(1) p'(1) by simp
    ultimately show ?thesis using p'(2) by blast
  qed
qed simp


definition demo_proc :: Processor where
  "demo_proc = AddStat (NewStat [] ''b'' \<lparr>pr_Min = 1, pr_Max = 2\<rparr> \<lparr>pr_Min = 1, pr_Max = 2\<rparr> 1 10 0 True)
     (AddStat (NewStat [] ''a'' \<lparr>pr_Min = 1, pr_Max = 2\<rparr> \<lparr>pr_Min = 1, pr_Max = 2\<rparr> 1 10 0 True) (NewProcessor 10 0))"


section \<open>The backlog is reported\<close>

text \<open>A tick is the visits of all objects, in order of registration.\<close>

definition tick_events :: "(nat \<Rightarrow> int) \<Rightarrow> nat \<Rightarrow> proc_event list" where
  "tick_events now n = map (\<lambda>i. At i (Tick (now i))) [0..<n]"

lemma runOnce_loop_visits:
  assumes "runOnce_loop now (length pre) ss = Some (ss', outs)"
  shows "\<exists>tagged. proc_run (map (\<lambda>i. At i (Tick (now i))) [length pre..<length pre + length ss]) (p\<lparr>p_stats := pre @ ss\<rparr>) =
      Some (p\<lparr>p_stats := pre @ ss'\<rparr>, tagged) \<and> map snd tagged = outs"
  using assms
proof (induction ss arbitrary: pre ss' outs)
  case (Cons s ss)
  obtain s1 out ss1 outs1 where 1: "statOnce (now (length pre)) s = Some (s1, out)"
      "runOnce_loop now (Suc (length pre)) ss = Some (ss1, outs1)" "ss' = s1 # ss1" "outs = out @ outs1"
    using Cons.prems by (auto split: option.splits prod.splits)
  obtain tagged where t: "proc_run (map (\<lambda>i. At i (Tick (now i))) [Suc (length pre)..<Suc (length pre) + length ss])
      (p\<lparr>p_stats := (pre @ [s1]) @ ss\<rparr>) = Some (p\<lparr>p_stats := (pre @ [s1]) @ ss1\<rparr>, tagged)" "map snd tagged = outs1"
    using Cons.IH [of "pre @ [s1]" ss1 outs1] 1(2) by auto
  have "[length pre..<length pre + length (s # ss)] = length pre # [Suc (length pre)..<Suc (length pre) + length ss]"
    using upt_conv_Cons [of "length pre" "length pre + length (s # ss)"] by (simp del: upt_Suc)
  then show ?case using 1(1,3,4) t by (simp add: comp_def del: upt_Suc)
qed simp

lemma runOnce_visits:
  assumes "runOnce now p = Some (p', outs)"
  shows "\<exists>tagged. proc_run (tick_events now (length (p_stats p))) p = Some (p', tagged) \<and> map snd tagged = outs"
proof -
  obtain ss' where "runOnce_loop now 0 (p_stats p) = Some (ss', outs)" "p' = p\<lparr>p_stats := ss'\<rparr>"
    using assms by (auto simp: runOnce_def)
  then show ?thesis using runOnce_loop_visits [of now "[]" "p_stats p" ss' outs p] by (simp add: tick_events_def)
qed

text \<open>The numbers of the buckets that wait to be reported, in ascending order.\<close>

definition unreported :: "udpStat \<Rightarrow> int list" where
  "unreported s = sorted_list_of_set {k \<in> fst ` set (bs_buckets (us_bkts s)). us_lastID s < k}"

definition ripe_at :: "int \<Rightarrow> udpStat \<Rightarrow> int \<Rightarrow> bool" where
  "ripe_at now s k \<longleftrightarrow> k \<le> i64 (i64 (now - us_delay s) sdiv us_span s)"

lemma sorted_list_of_set_ConsD:
  assumes "sorted_list_of_set A = k # ks" "finite A"
  shows "k \<in> A" "\<forall>j \<in> A. k \<le> j" "ks = sorted_list_of_set (A - {k})"
proof -
  have A: "A = set (k # ks)" "sorted (k # ks)" "distinct (k # ks)"
    using assms set_sorted_list_of_set [of A] sorted_sorted_list_of_set [of A] distinct_sorted_list_of_set [of A] by auto
  then show "k \<in> A" "\<forall>j \<in> A. k \<le> j" by auto
  have "A - {k} = set ks" using A by auto
  then show "ks = sorted_list_of_set (A - {k})" using A(2,3) by (simp add: sorted_list_of_set.idem_if_sorted_distinct)
qed

lemma map_of_filter_key: "map_of (filter (\<lambda>e. P (fst e)) m) k = (if P k then map_of m k else None)"
  by (induction m) auto

lemma tick_takes_next:
  assumes "stat_ok s" "us_hasSender s" "0 \<le> us_lastID s" "unreported s = k # ks" "us_lastID s = 0 \<or> ripe_at now s k"
  shows "\<exists>b bs. map_of (bs_buckets (us_bkts s)) k = Some b \<and>
    statOnce now s = Some (s\<lparr>us_bkts := bs, us_lastID := k\<rparr>, [make_result (s\<lparr>us_lastID := k\<rparr>) b (bucket_result s b)]) \<and>
    b_startNano b = k * us_span s \<and> stat_ok (s\<lparr>us_bkts := bs, us_lastID := k\<rparr>) \<and>
    unreported (s\<lparr>us_bkts := bs, us_lastID := k\<rparr>) = ks \<and> us_lastID s < k \<and>
    (\<forall>j \<in> set ks. map_of (bs_buckets bs) j = map_of (bs_buckets (us_bkts s)) j)"
proof -
  let ?m = "bs_buckets (us_bkts s)" and ?A = "{k \<in> fst ` set (bs_buckets (us_bkts s)). us_lastID s < k}"
  note k = sorted_list_of_set_ConsD [OF assms(4) [unfolded unreported_def]]
  obtain b where b: "map_of ?m k = Some b" using k(1) map_of_eq_None_iff [of ?m k] by (cases "map_of ?m k") auto
  have lt: "us_lastID s < k" using k(1) by simp
  have least: "\<forall>j \<in> fst ` set ?m. us_lastID s < j \<longrightarrow> k \<le> j" using k(2) by simp
  obtain bs where bs: "bs_buckets bs = AList.delete k (filter (\<lambda>e. us_lastID s < fst e) ?m)"
      "statOnce now s = Some (s\<lparr>us_bkts := bs, us_lastID := k\<rparr>, [make_result (s\<lparr>us_lastID := k\<rparr>) b (bucket_result s b)])"
      "b_startNano b = k * us_span s" "stat_ok (s\<lparr>us_bkts := bs, us_lastID := k\<rparr>)"
    using ripe_reported [OF assms(1-3) lt b least] assms(5) unfolding ripe_at_def by metis
  have "fst ` set (AList.delete k al) = fst ` set al - {k}" for al :: "(int, bucket) gomap"
    using arg_cong [OF delete_keys [of k al], of set] by simp
  then have "fst ` set (bs_buckets bs) = ?A - {k}" unfolding bs(1) by auto
  then have "{j \<in> fst ` set (bs_buckets bs). k < j} = ?A - {k}" using k(2) by auto
  then have "unreported (s\<lparr>us_bkts := bs, us_lastID := k\<rparr>) = ks" using k(3) by (simp add: unreported_def)
  moreover have "map_of (bs_buckets bs) j = map_of ?m j" if "j \<in> set ks" for j
  proof -
    have "j \<in> ?A - {k}" using that k(3) by simp
    then show ?thesis unfolding bs(1) by (simp add: delete_conv' map_of_filter_key)
  qed
  ultimately show ?thesis using b bs lt by blast
qed

lemma tick_idle:
  assumes "stat_ok s" "unreported s = []"
  shows "\<exists>bs. statOnce now s = Some (s\<lparr>us_bkts := bs\<rparr>, []) \<and> stat_ok (s\<lparr>us_bkts := bs\<rparr>) \<and> unreported (s\<lparr>us_bkts := bs\<rparr>) = []"
proof (cases "statOnce now s = Some (s, [])")
  case True
  then show ?thesis using assms by (intro exI [of _ "us_bkts s"]) simp
next
  case False
  have sp: "us_span s \<noteq> 0" and inv: "buckets_inv (us_bkts s)" using assms(1) by (auto simp: stat_ok_def well_formed_def)
  obtain b0 where b0: "buckets_oldest (us_bkts s) = Some b0" "too_young now s b0 = Some False"
    using False sp by (auto simp: statOnce_def too_young_def split: option.splits if_splits bool.splits)
  have none: "{k \<in> fst ` set (bs_buckets (us_bkts s)). us_lastID s < k} = {}"
    using assms(2) by (simp add: unreported_def)
  obtain bs where bs: "drop_reported (us_lastID s) (us_bkts s) = Some (bs, buckets_oldest bs)" "buckets_inv bs" "starts_ok bs"
      "bs_span bs = bs_span (us_bkts s)" "bs_buckets bs = filter (\<lambda>e. us_lastID s < fst e) (bs_buckets (us_bkts s))"
    using drop_reported_spec [OF inv, of "us_lastID s"] assms(1) by (auto simp: stat_ok_def)
  have "bs_buckets bs = []" using none unfolding bs(5) by (auto simp: filter_empty_conv)
  then have "buckets_oldest bs = None" "unreported (s\<lparr>us_bkts := bs\<rparr>) = []" using oldest_spec [OF bs(2)] by (simp_all add: unreported_def)
  then show ?thesis using b0 bs(1-4) assms(1)
    by (intro exI [of _ bs]) (simp add: statOnce_def stat_ok_def well_formed_def)
qed

text \<open>Ticks take the waiting buckets one by one, oldest first.\<close>

lemma ticks_drain:
  assumes "stat_ok s" "us_hasSender s" "0 \<le> us_lastID s" "\<forall>now \<in> set nows. \<forall>k \<in> set (unreported s). ripe_at now s k"
  shows "\<exists>s' outs. run_events (map Tick nows) s = Some (s', outs) \<and> unreported s' = drop (length nows) (unreported s) \<and>
    map R_Timestamp outs = map (\<lambda>k. k * us_span s) (take (length nows) (unreported s)) \<and>
    map (\<lambda>r. Some (R_Sent r, R_Received r, R_Loss r)) outs =
      map (\<lambda>k. map_option (\<lambda>b. (sr_sent (bucket_stat b), sr_received (bucket_stat b), sr_loss (bucket_stat b)))
                (map_of (bs_buckets (us_bkts s)) k)) (take (length nows) (unreported s))"
  using assms
proof (induction nows arbitrary: s)
  case (Cons now nows)
  show ?case
  proof (cases "unreported s")
    case Nil
    obtain bs where "statOnce now s = Some (s\<lparr>us_bkts := bs\<rparr>, [])" "stat_ok (s\<lparr>us_bkts := bs\<rparr>)" "unreported (s\<lparr>us_bkts := bs\<rparr>) = []"
      using tick_idle [OF Cons.prems(1) Nil] by blast
    then show ?thesis using Cons.IH [of "s\<lparr>us_bkts := bs\<rparr>"] Cons.prems(2,3) Nil by auto
  next
    case (Cons k ks)
    then obtain b bs where b: "map_of (bs_buckets (us_bkts s)) k = Some b"
      "statOnce now s = Some (s\<lparr>us_bkts := bs, us_lastID := k\<rparr>, [make_result (s\<lparr>us_lastID := k\<rparr>) b (bucket_result s b)])"
      "b_startNano b = k * us_span s" "stat_ok (s\<lparr>us_bkts := bs, us_lastID := k\<rparr>)"
      "unreported (s\<lparr>us_bkts := bs, us_lastID := k\<rparr>) = ks" "us_lastID s < k"
      "\<forall>j \<in> set ks. map_of (bs_buckets bs) j = map_of (bs_buckets (us_bkts s)) j"
      using tick_takes_next [OF Cons.prems(1-3), of k ks now] Cons.prems(4) by auto
    let ?s = "s\<lparr>us_bkts := bs, us_lastID := k\<rparr>"
    have "\<forall>now \<in> set nows. \<forall>k \<in> set (unreported ?s). ripe_at now ?s k"
      using Cons.prems(4) Cons b(5) by (auto simp: ripe_at_def)
    then obtain s' outs where s': "run_events (map Tick nows) ?s = Some (s', outs)" "unreported s' = drop (length nows) ks"
        "map R_Timestamp outs = map (\<lambda>k. k * us_span s) (take (length nows) ks)"
        "map (\<lambda>r. Some (R_Sent r, R_Received r, R_Loss r)) outs =
           map (\<lambda>k. map_option (\<lambda>b. (sr_sent (bucket_stat b), sr_received (bucket_stat b), sr_loss (bucket_stat b)))
                (map_of (bs_buckets bs) k)) (take (length nows) ks)"
      using Cons.IH [OF b(4)] Cons.prems(2,3) b(5,6) by auto
    have same: "map (\<lambda>k. f (map_of (bs_buckets bs) k)) (take n ks) = map (\<lambda>k. f (map_of (bs_buckets (us_bkts s)) k)) (take n ks)" for f n
      using b(7) by (auto dest: in_set_takeD)
    show ?thesis using b(1-3) s' Cons by (simp add: make_result_def bucket_result_def Let_def same)
  qed
qed simp

lemma runOnce_total:
  assumes "\<forall>s \<in> set (p_stats p). stat_ok s"
  shows "\<exists>p' outs. runOnce now p = Some (p', outs) \<and> length (p_stats p') = length (p_stats p) \<and> (\<forall>s \<in> set (p_stats p'). stat_ok s)"
proof -
  have "\<exists>ss' outs. runOnce_loop now i ss = Some (ss', outs) \<and> length ss' = length ss \<and> (\<forall>s \<in> set ss'. stat_ok s)"
    if "\<forall>s \<in> set ss. stat_ok s" for i ss
    using that
  proof (induction ss arbitrary: i)
    case (Cons s ss)
    obtain s' out where "statOnce (now i) s = Some (s', out)" "stat_ok s'"
      using statOnce_total [of s "now i"] Cons.prems by auto
    moreover obtain ss' outs where "runOnce_loop now (Suc i) ss = Some (ss', outs)" "length ss' = length ss" "\<forall>s \<in> set ss'. stat_ok s"
      using Cons.IH [of "Suc i"] Cons.prems by auto
    ultimately show ?case by auto
  qed simp
  from this [OF assms, of 0] show ?thesis by (auto simp: runOnce_def)
qed

lemma proc_run_append:
  "proc_run (es @ es') p = (case proc_run es p of None \<Rightarrow> None | Some (p1, out) \<Rightarrow>
     map_option (\<lambda>(p2, outs). (p2, out @ outs)) (proc_run es' p1))"
  by (induction es arbitrary: p) (auto simp: option.map_id split: option.splits prod.splits)

lemma project_append: "project i (es @ es') = project i es @ project i es'"
  by (induction es rule: project.induct [where ?a0.0 = i]) auto

lemma project_tick: "i < n \<Longrightarrow> project i (tick_events now n) = [Tick (now i)]"
proof -
  have "project i (map (\<lambda>i. At i (Tick (now i))) js) = map (\<lambda>j. Tick (now j)) (filter (\<lambda>j. i = j) js)" for js
    by (induction js) auto
  moreover have "i < n \<Longrightarrow> filter (\<lambda>j. i = j) [0..<n] = [i]" by (induction n) auto
  ultimately show "i < n \<Longrightarrow> project i (tick_events now n) = [Tick (now i)]" by (simp add: tick_events_def)
qed

lemma Processor_Run_visits:
  assumes "\<forall>s \<in> set (p_stats p). stat_ok s"
  shows "\<exists>p' outs. Processor_Run ticks p = Some (p', map snd outs) \<and>
    proc_run (concat (map (\<lambda>now. tick_events now (length (p_stats p))) ticks)) p = Some (p', outs)"
  using assms
proof (induction ticks arbitrary: p)
  case (Cons now ticks)
  obtain p1 out where p1: "runOnce now p = Some (p1, out)" "length (p_stats p1) = length (p_stats p)" "\<forall>s \<in> set (p_stats p1). stat_ok s"
    using runOnce_total [OF Cons.prems] by blast
  moreover obtain tagged where "proc_run (tick_events now (length (p_stats p))) p = Some (p1, tagged)" "map snd tagged = out"
    using runOnce_visits [OF p1(1)] by blast
  moreover obtain p2 outs where "Processor_Run ticks p1 = Some (p2, map snd outs)"
      "proc_run (concat (map (\<lambda>now. tick_events now (length (p_stats p))) ticks)) p1 = Some (p2, outs)"
    using Cons.IH [OF p1(3)] p1(2) by auto
  ultimately show ?case by (intro exI [of _ p2] exI [of _ "tagged @ outs"]) (simp add: proc_run_append)
qed simp

text \<open>
  C6. The backlog of every object is reported, one span per tick. With the recording stopped and the waiting
  spans of an object older than the delay, the processor's loop sends at each tick the report of the
  object's oldest waiting span, with its start time and its counts, until none is left: after as many
  ticks as there are waiting spans all have been reported, in order, whatever the other objects do.
\<close>

theorem backlog_drains:
  assumes "\<forall>s \<in> set (p_stats p). stat_ok s" "i < length (p_stats p)" "s = p_stats p ! i"
    and "us_hasSender s" "0 \<le> us_lastID s" "\<forall>now \<in> set ticks. \<forall>k \<in> set (unreported s). ripe_at (now i) s k"
  shows "\<exists>p' outs. Processor_Run ticks p = Some (p', map snd outs) \<and>
    map R_Timestamp (sent_by i outs) = map (\<lambda>k. k * us_span s) (take (length ticks) (unreported s)) \<and>
    map (\<lambda>r. Some (R_Sent r, R_Received r, R_Loss r)) (sent_by i outs) =
      map (\<lambda>k. map_option (\<lambda>b. (sr_sent (bucket_stat b), sr_received (bucket_stat b), sr_loss (bucket_stat b)))
                (map_of (bs_buckets (us_bkts s)) k)) (take (length ticks) (unreported s)) \<and>
    unreported (p_stats p' ! i) = drop (length ticks) (unreported s)"
proof -
  let ?n = "length (p_stats p)" and ?nows = "map (\<lambda>now. now i) ticks"
  let ?es = "concat (map (\<lambda>now. tick_events now ?n) ticks)"
  obtain p' outs where p': "Processor_Run ticks p = Some (p', map snd outs)" "proc_run ?es p = Some (p', outs)"
    using Processor_Run_visits [OF assms(1)] by blast
  have "events_ok ?n es" if "\<forall>e \<in> set es. \<exists>j t. e = At j (Tick t) \<and> j < ?n" for es
    using that by (induction es) auto
  then have "events_ok ?n ?es" by (auto simp: tick_events_def)
  moreover have "project i ?es = map Tick ?nows"
    using assms(2) by (induction ticks) (simp_all add: project_append project_tick)
  ultimately have r: "run_events (map Tick ?nows) s = Some (p_stats p' ! i, sent_by i outs)"
    using independent [OF assms(1), of ?es] p'(2) assms(2,3) by auto
  have "\<forall>now \<in> set ?nows. \<forall>k \<in> set (unreported s). ripe_at now s k" using assms(6) by simp
  from ticks_drain [OF _ assms(4,5) this] show ?thesis using p'(1) r assms(1-3) by auto
qed

definition demo_backlog :: Processor where
  "demo_backlog = fst (the (proc_run [At 0 (Record (CPut 1 2 7 15)), At 0 (Record (CPut 1 2 8 35)), At 0 (Record (CReceived 8 35 4 False))] demo_proc))"

theorem backlog_drains_witness:
  "\<exists>p' outs. Processor_Run [\<lambda>_. 90, \<lambda>_. 100, \<lambda>_. 110] demo_backlog = Some (p', map snd outs) \<and>
     map R_Timestamp (sent_by 0 outs) = [10, 30] \<and> unreported (p_stats p' ! 0) = []"
proof -
  let ?es = "[At 0 (Record (CPut 1 2 7 15)), At 0 (Record (CPut 1 2 8 35)), At 0 (Record (CReceived 8 35 4 False))]"
  let ?s = "p_stats demo_backlog ! 0"
  have "\<forall>s \<in> set (p_stats demo_proc). stat_ok s"
    by (auto simp: demo_proc_def AddStat_def NewProcessor_def intro!: stat_ok_New)
  moreover have "length (p_stats demo_proc) = 2" by code_simp
  moreover have "events_ok 2 ?es" by (simp add: in_i64_def)
  ultimately have ok: "\<forall>s \<in> set (p_stats demo_backlog). stat_ok s"
    unfolding demo_backlog_def using independent [of demo_proc ?es] by fastforce
  have u: "fst ` set (bs_buckets (us_bkts ?s)) = {1, 3}" "us_lastID ?s = 0" "us_hasSender ?s" "0 < length (p_stats demo_backlog)"
    "us_delay ?s = 0" "us_span ?s = 10" by code_simp+
  have "{k \<in> {1, 3}. 0 < k} = {1, 3 :: int}" by auto
  then have un: "unreported ?s = [1, 3]" by (simp add: unreported_def u)
  have ripe: "\<forall>now \<in> set [\<lambda>_ :: nat. 90, \<lambda>_. 100, \<lambda>_. 110 :: int]. \<forall>k \<in> set (unreported ?s). ripe_at (now 0) ?s k"
    unfolding un ripe_at_def u by code_simp
  have len: "length [\<lambda>_ :: nat. 90, \<lambda>_. 100, \<lambda>_. 110 :: int] = 3" and z: "0 \<le> us_lastID ?s" using u(2) by simp_all
  have t: "take 3 [1, 3 :: int] = [1, 3]" "drop 3 [1, 3 :: int] = []" by simp_all
  from backlog_drains [OF ok u(4) refl u(3) z ripe, unfolded len un t u(6)] show ?thesis
    by (elim exE conjE) (intro exI conjI, assumption, simp_all only: list.map, simp_all)
qed

section \<open>The first span\<close>

text \<open>
  C36. The first span is reported before its time. The delay is only tested once something has been reported, so
  the first visit that finds a bucket reports it, at whatever time and however long the delay: a probe
  recorded just before it counts as lost, its answer, recorded afterwards in the bucket of the
  same span, is dropped at the next visit and never reported.
\<close>

theorem first_span_reported_early:
  assumes "0 < spn" "spn \<le> ts" "in_i64 ts"
  shows "\<exists>s' r. run_events [Record (CPut cp sp seq ts), Tick now, Record (CReceived seq ts rtt False), Tick later]
      (NewStat ca sa cr sr rate spn delay True) = Some (s', [r]) \<and>
    R_Timestamp r = ts div spn * spn \<and> R_Sent r = 1 \<and> R_Received r = 0 \<and> R_Loss r = 1"
proof -
  let ?s = "NewStat ca sa cr sr rate spn delay True" and ?k = "ts div spn"
  have k: "0 < ?k" using assms(1,2) by (simp add: pos_imp_zdiv_pos_iff)
  have ts: "0 \<le> ts" using assms by simp
  have number: "well_formed bs \<Longrightarrow> bs_span bs = spn \<Longrightarrow> bucketID bs ts = Some ?k" for bs
    using bucket_number(1) [of bs ts] ts assms(3) by simp
  have ok: "stat_ok ?s" by (rule stat_ok_New(1)) (rule assms(1))
  obtain s1 where s1: "run_event (Record (CPut cp sp seq ts)) ?s = Some (s1, [])" "stat_ok s1"
    using run_event_total [OF ok, of "Record (CPut cp sp seq ts)"] ts assms(3) by (auto simp: lift_bkts_def)
  have "bucketID (us_bkts ?s) ts = Some ?k" by (rule number) (use ok in \<open>simp_all add: stat_ok_def NewStat_def newBuckets_def\<close>)
  then obtain bs1 where bs1: "s1 = ?s\<lparr>us_bkts := bs1\<rparr>"
      "bs_buckets bs1 = [(?k, bucket_put cp sp seq ts (newBucket ?k spn rate False))]"
    using s1(1) by (auto simp: lift_bkts_def buckets_put_def NewStat_def newBuckets_def ensure_bucket_def modify_bucket_def)
  let ?b = "bucket_put cp sp seq ts (newBucket ?k spn rate False)"
  have s1f: "us_hasSender s1" "us_lastID s1 = 0" "us_span s1 = spn" "us_serverSide s1 = False" by (simp_all add: bs1(1) NewStat_def)
  obtain bs where bs: "bs_buckets bs = AList.delete ?k (filter (\<lambda>e. us_lastID s1 < fst e) (bs_buckets (us_bkts s1)))"
    "statOnce now s1 = Some (s1\<lparr>us_bkts := bs, us_lastID := ?k\<rparr>, [make_result (s1\<lparr>us_lastID := ?k\<rparr>) ?b (bucket_result s1 ?b)])"
    "b_startNano ?b = ?k * us_span s1" "stat_ok (s1\<lparr>us_bkts := bs, us_lastID := ?k\<rparr>)"
    by (rule ripe_reported [OF s1(2) s1f(1), of ?k ?b now]) (use k s1f(2) bs1 in \<open>simp_all\<close>)
  let ?s2 = "s1\<lparr>us_bkts := bs, us_lastID := ?k\<rparr>"
  have empty: "bs_buckets bs = []" using bs(1) bs1 by simp
  obtain s3 where s3: "run_event (Record (CReceived seq ts rtt False)) ?s2 = Some (s3, [])" "stat_ok s3"
    using run_event_total [OF bs(4), of "Record (CReceived seq ts rtt False)"] ts assms(3) by (auto simp: lift_bkts_def)
  have "bucketID bs ts = Some ?k" by (rule number) (use bs(4) s1f(3) in \<open>simp_all add: stat_ok_def\<close>)
  then have "us_lastID s3 = ?k" "fst ` set (bs_buckets (us_bkts s3)) = {?k}"
    using s3(1) empty
    by (auto simp: lift_bkts_def buckets_received_def try_update_def ensure_bucket_def modify_bucket_def)
  then have "unreported s3 = []" by (simp add: unreported_def conj_commute cong: conj_cong)
  then obtain s4 where "statOnce later s3 = Some (s4, [])" using tick_idle [OF s3(2)] by blast
  moreover have "sr_sent (bucket_stat ?b) = 1 \<and> sr_received (bucket_stat ?b) = 0 \<and> sr_loss (bucket_stat ?b) = 1"
    by (simp add: bucket_put_def newBucket_def bucket_stat_def stat_step_def stat_finish_def statResult0_def request0_def Let_def)
  ultimately show ?thesis using s1(1) bs(2,3) s3(1) s1f
    by (simp add: make_result_def bucket_result_def Let_def)
qed

theorem first_span_reported_early_witness:
  "\<exists>s' r. run_events [Record (CPut 1 2 7 15), Tick 15, Record (CReceived 7 15 1 False), Tick 100]
      (NewStat [] [] \<lparr>pr_Min = 1, pr_Max = 2\<rparr> \<lparr>pr_Min = 1, pr_Max = 2\<rparr> 1 10 30 True) = Some (s', [r]) \<and>
    R_Timestamp r = 10 \<and> R_Loss r = 1"
  using first_span_reported_early [of 10 15 1 2 7 15 1 100 "[]" "[]" "\<lparr>pr_Min = 1, pr_Max = 2\<rparr>" "\<lparr>pr_Min = 1, pr_Max = 2\<rparr>" 1 30]
  by (auto simp: in_i64_def)

end
