(* ===== verification/Cidr.thy ===== *)
theory Cidr
  imports Net_Env
begin

text \<open>
  Address ranges in the commands: \<open>incrementIP\<close> and \<open>expandCIDR\<close> of \<open>cmd/mping/main.go\<close>, which lists the hosts
  of an IPv4 network, and \<open>expandCIDR6\<close> of \<open>cmd/mping6/main.go\<close>, which lists a small IPv6 network. The loop
  of \<open>expandCIDR\<close> has no counter: it runs until it meets the broadcast or the network address, and is a
  partial function here. That it always ends, and after how many turns, is proved.
\<close>

section \<open>Definitions\<close>

text \<open>\<open>net.IPNet\<close>, and \<open>net.CIDRMask\<close> of the library, as \<open>net.ParseCIDR\<close> uses it.\<close>

record IPNet =
  n_IP :: IP
  n_Mask :: "byte list"

fun CIDRMask :: "nat \<Rightarrow> nat \<Rightarrow> byte list" where
  "CIDRMask ones 0 = []"
| "CIDRMask ones (Suc k) =
     (if 8 \<le> ones then 0xff # CIDRMask (ones - 8) k else NOT (drop_bit ones 0xff) # CIDRMask 0 k)"

text \<open>\<open>incrementIP\<close> walks from the last byte to the first until one does not wrap.\<close>

fun increment_bytes :: "byte list \<Rightarrow> byte list" where
  "increment_bytes [] = []"
| "increment_bytes (b # bs) = (if b + 1 \<noteq> 0 then (b + 1) # bs else (b + 1) # increment_bytes bs)"

definition incrementIP :: "IP \<Rightarrow> IP" where
  "incrementIP ip = rev (increment_bytes (rev ip))"

partial_function (option) expand_loop :: "IP \<Rightarrow> IP \<Rightarrow> IP \<Rightarrow> IP list \<Rightarrow> IP list option" where
  "expand_loop network broadcast current addrs =
     (if IP_Equal (incrementIP current) broadcast \<or> IP_Equal (incrementIP current) network then Some addrs
      else expand_loop network broadcast (incrementIP current) (addrs @ [incrementIP current]))"

definition expandCIDR :: "net_env \<Rightarrow> IPNet \<Rightarrow> string list option" where
  "expandCIDR env ipNet =
     (case To4 (n_IP ipNet) of
        None \<Rightarrow> Some []
      | Some ip \<Rightarrow>
          if length (n_Mask ipNet) \<noteq> 4 then Some []
          else
            let network = map2 (AND) ip (n_Mask ipNet);
                broadcast = map2 (\<lambda>n m. n OR NOT m) network (n_Mask ipNet)
            in map_option (map (e_IPString env)) (expand_loop network broadcast network []))"

text \<open>The IPv6 form counts; \<open>big.Int\<close> is \<open>nat\<close>, and \<open>FillBytes\<close> panics when the number does not fit.\<close>

definition FillBytes :: "nat \<Rightarrow> nat \<Rightarrow> byte list option" where
  "FillBytes len n = (if n < 2 ^ (8 * len) then Some (map (\<lambda>i. word_of_nat (n div 256 ^ (len - 1 - i))) [0..<len]) else None)"

definition SetBytes :: "byte list \<Rightarrow> nat" where
  "SetBytes bs = foldl (\<lambda>acc b. 256 * acc + unat b) 0 bs"

fun fill_addrs :: "nat \<Rightarrow> nat \<Rightarrow> IP list option" where
  "fill_addrs 0 ipInt = Some []"
| "fill_addrs (Suc k) ipInt =
     (case FillBytes 16 ipInt of
        None \<Rightarrow> None
      | Some addr \<Rightarrow> map_option ((#) addr) (fill_addrs k (ipInt + 1)))"

text \<open>\<open>IPMask.Size\<close>: the number of leading ones when the mask has no other.\<close>

fun mask_ones :: "bool list \<Rightarrow> nat option" where
  "mask_ones [] = Some 0"
| "mask_ones (b # bs) = (if b then map_option Suc (mask_ones bs) else if True \<in> set bs then None else Some 0)"

definition byte_bits :: "byte \<Rightarrow> bool list" where
  "byte_bits b = map (bit b) [7, 6, 5, 4, 3, 2, 1, 0]"

definition Mask_Size :: "byte list \<Rightarrow> nat \<times> nat" where
  "Mask_Size m = (case mask_ones (concat (map byte_bits m)) of None \<Rightarrow> (0, 0) | Some ones \<Rightarrow> (ones, 8 * length m))"

text \<open>\<open>None\<close> is the panic of \<open>FillBytes\<close>.\<close>

definition expandCIDR6 :: "net_env \<Rightarrow> IPNet \<Rightarrow> string list option" where
  "expandCIDR6 env ipNet =
     (case Mask_Size (n_Mask ipNet) of (ones, bits) \<Rightarrow>
        if bits \<noteq> 128 then Some []
        else if bits - ones > 16 then Some []
        else case To16 (n_IP ipNet) of
               None \<Rightarrow> Some []
             | Some base \<Rightarrow> map_option (map (e_IPString env)) (fill_addrs (2 ^ (bits - ones)) (SetBytes base)))"


section \<open>Addresses as 32-bit numbers\<close>

lemma be_word_four:
  "be_word [a, b, c, d] = (16777216 * ucast a + 65536 * ucast b + 256 * ucast c + ucast d :: u32)"
proof -
  have "push_bit 8 w OR ucast x = (256 * w + ucast x :: u32)" for w and x :: byte
  proof -
    have "push_bit 8 w OR ucast x = (push_bit 8 w + ucast x :: u32)"
      by (rule disjunctive_add [symmetric]) (auto simp: bit_push_bit_iff bit_ucast_iff dest: bit_imp_le_length)
    then show ?thesis by (simp add: push_bit_eq_mult algebra_simps)
  qed
  then show ?thesis by (simp add: be_word_def algebra_simps)
qed

lemma ucast_byte_Suc:
  fixes b :: byte
  shows "(ucast (b + 1) :: u32) = (if b + 1 = 0 then 0 else ucast b + 1)" "b + 1 = 0 \<Longrightarrow> (ucast b :: u32) = 255"
proof -
  have "(ucast (b + 1) :: u32) = ucast b + 1" if "b + 1 \<noteq> 0"
  proof -
    have "unat (b + 1) = unat b + 1" using that unatSuc [of b] by (simp add: add.commute)
    then have "(word_of_nat (unat (b + 1)) :: u32) = word_of_nat (unat b + 1)" by (rule arg_cong)
    then show ?thesis by simp
  qed
  then show "(ucast (b + 1) :: u32) = (if b + 1 = 0 then 0 else ucast b + 1)" by simp
  assume "b + 1 = 0"
  then have "b + 1 = 255 + 1" by simp
  then have "b = 255" by (rule add_right_imp_eq)
  then show "(ucast b :: u32) = 255" by simp
qed

lemma incrementIP_word:
  assumes "length ip = 4"
  shows "length (incrementIP ip) = 4" "(be_word (incrementIP ip) :: u32) = be_word ip + 1"
proof -
  obtain a b c d where ip: "ip = [a, b, c, d]"
    using assms by (auto simp: numeral_eq_Suc length_Suc_conv)
  show "length (incrementIP ip) = 4" by (simp add: ip incrementIP_def)
  show "(be_word (incrementIP ip) :: u32) = be_word ip + 1"
    using ucast_byte_Suc(2) [of a] ucast_byte_Suc(2) [of b] ucast_byte_Suc(2) [of c] ucast_byte_Suc(2) [of d]
    by (simp add: ip incrementIP_def be_word_four ucast_byte_Suc(1) distrib_left)
qed

lemma four_bytes: "length ip = 4 \<Longrightarrow> be_bytes 4 (be_word ip :: u32) = ip"
  using be_bytes_word [of ip, where 'a = 32] by simp

lemma IP_Equal_word:
  "length ip = 4 \<Longrightarrow> length ip' = 4 \<Longrightarrow> IP_Equal ip ip' \<longleftrightarrow> (be_word ip :: u32) = be_word ip'"
  using four_bytes by (auto simp: IP_Equal_def) metis


section \<open>The hosts of an IPv4 network\<close>

text \<open>The addresses from the one after \<open>c\<close> up to the one before \<open>b\<close>, counting around.\<close>

definition after_until :: "u32 \<Rightarrow> u32 \<Rightarrow> IP list" where
  "after_until c b = map (\<lambda>i. be_bytes 4 (c + 1 + word_of_nat i)) [0..<unat (b - c - 1)]"

lemma after_until_step:
  assumes "c + 1 \<noteq> b"
  shows "unat (b - c - 1) = Suc (unat (b - (c + 1) - 1))" "after_until c b = be_bytes 4 (c + 1) # after_until (c + 1) b"
proof -
  have "b - c - 1 \<noteq> 0" using assms by (simp add: diff_diff_eq)
  then have "unat (1 + (b - (c + 1) - 1)) = Suc (unat (b - (c + 1) - 1))"
    by (intro unatSuc) (simp add: diff_diff_eq)
  then show u: "unat (b - c - 1) = Suc (unat (b - (c + 1) - 1))" by (simp add: algebra_simps)
  show "after_until c b = be_bytes 4 (c + 1) # after_until (c + 1) b"
    unfolding after_until_def u map_upt_Suc by (simp add: algebra_simps)
qed

lemma expand_loop_ends:
  assumes "length current = 4" "length network = 4" "length broadcast = 4"
    and "unat (be_word broadcast - be_word current - 1 :: u32) \<le> unat (be_word network - be_word current - 1 :: u32)"
  shows "expand_loop network broadcast current addrs = Some (addrs @ after_until (be_word current) (be_word broadcast))"
  using assms
proof (induction "unat (be_word broadcast - be_word current - 1 :: u32)" arbitrary: current addrs)
  case 0
  have "(be_word broadcast - be_word current - 1 :: u32) = 0" using 0(1) by (simp add: unat_eq_0)
  then have "(be_word broadcast :: u32) = be_word current + 1" by (simp add: diff_diff_eq)
  then show ?case using 0 incrementIP_word [of current]
    by (subst expand_loop.simps) (simp add: IP_Equal_word after_until_def)
next
  case (Suc n)
  let ?c = "be_word current :: u32"
  have ne: "?c + 1 \<noteq> be_word broadcast" "?c + 1 \<noteq> be_word network"
    using Suc.hyps(2) Suc.prems(4) by (auto simp: diff_diff_eq)
  note inc = incrementIP_word [OF Suc.prems(1)]
  have "n = unat (be_word broadcast - be_word (incrementIP current) - 1 :: u32)"
    "unat (be_word broadcast - be_word (incrementIP current) - 1 :: u32) \<le> unat (be_word network - be_word (incrementIP current) - 1 :: u32)"
    using Suc.hyps(2) Suc.prems(4) after_until_step(1) [OF ne(1)] after_until_step(1) [OF ne(2)] by (simp_all add: inc(2))
  from Suc.hyps(1) [OF this(1) inc(1) Suc.prems(2,3) this(2), of "addrs @ [incrementIP current]"]
  show ?case using ne Suc.prems(2,3) inc
    by (subst expand_loop.simps) (simp add: IP_Equal_word after_until_step(2) four_bytes [OF inc(1), unfolded inc(2)])
qed


text \<open>Masks, on the 32-bit numbers.\<close>

lemma be_word_map2:
  fixes F :: "u32 \<Rightarrow> u32 \<Rightarrow> u32"
  assumes "length xs = 4" "length ys = 4" "\<And>x y i. i < 8 \<Longrightarrow> bit (f x y) i \<longleftrightarrow> g (bit x i) (bit y i)"
    and "\<And>v w i. i < 32 \<Longrightarrow> bit (F v w) i \<longleftrightarrow> g (bit v i) (bit w i)"
  shows "(be_word (map2 f xs ys) :: u32) = F (be_word xs) (be_word ys)"
proof (rule bit_word_eqI)
  fix i assume "i < LENGTH(32)"
  then have i: "i < 32" by simp
  then have d: "i div 8 < 4" by auto
  have "rev (map2 f xs ys) ! (i div 8) = f (rev xs ! (i div 8)) (rev ys ! (i div 8))"
    using d assms(1,2) by (simp add: rev_nth)
  then show "bit (be_word (map2 f xs ys) :: u32) i = bit (F (be_word xs) (be_word ys)) i"
    using i assms by (simp add: bit_be_word)
qed

lemma be_word_CIDRMask: "n \<le> 32 \<Longrightarrow> (be_word (CIDRMask n 4) :: u32) = NOT (mask (32 - n))"
proof -
  have "\<forall>n \<in> set [0..<33]. (be_word (CIDRMask n 4) :: u32) = NOT (mask (32 - n))" by code_simp
  then show "n \<le> 32 \<Longrightarrow> (be_word (CIDRMask n 4) :: u32) = NOT (mask (32 - n))" by simp
qed

lemma length_CIDRMask [simp]: "length (CIDRMask n k) = k"
  by (induction n k rule: CIDRMask.induct) auto

lemma network_words:
  assumes "length ip = 4" "n \<le> 32"
  shows "(be_word (map2 (AND) ip (CIDRMask n 4)) :: u32) = be_word ip AND NOT (mask (32 - n))"
    "(be_word (map2 (\<lambda>n m. n OR NOT m) (map2 (AND) ip (CIDRMask n 4)) (CIDRMask n 4)) :: u32) =
      be_word ip AND NOT (mask (32 - n)) OR mask (32 - n)"
proof -
  let ?net = "map2 (AND) ip (CIDRMask n 4)"
  show net: "(be_word ?net :: u32) = be_word ip AND NOT (mask (32 - n))"
    using be_word_map2 [of ip "CIDRMask n 4" "(AND)" "(\<and>)" "(AND)"] assms
    by (simp add: be_word_CIDRMask bit_and_iff)
  have "(be_word (map2 (\<lambda>n m. n OR NOT m) ?net (CIDRMask n 4)) :: u32) = be_word ?net OR NOT (be_word (CIDRMask n 4))"
    using assms(1) by (intro be_word_map2 [where g = "\<lambda>a b. a \<or> \<not> b"]) (auto simp: bit_or_iff bit_not_iff)
  then show "(be_word (map2 (\<lambda>n m. n OR NOT m) ?net (CIDRMask n 4)) :: u32) = be_word ip AND NOT (mask (32 - n)) OR mask (32 - n)"
    using assms(2) by (simp add: net be_word_CIDRMask)
qed

lemma unat_network: "unat (w AND NOT (mask h)) = 2 ^ h * (unat w div 2 ^ h)" for w :: u32
proof -
  have "(w AND NOT (mask h)) + take_bit h w = (w AND NOT (mask h)) OR take_bit h w"
    by (rule disjunctive_add) (auto simp: bit_and_iff bit_not_iff bit_take_bit_iff bit_mask_iff)
  also have "\<dots> = w" by (rule bit_word_eqI) (auto simp: bit_and_iff bit_or_iff bit_not_iff bit_take_bit_iff bit_mask_iff)
  finally have "w AND NOT (mask h) = w - take_bit h w" by (simp add: eq_diff_eq)
  moreover have "unat (take_bit h w) = unat w mod 2 ^ h" by (simp add: unsigned_take_bit_eq flip: take_bit_eq_mod)
  moreover from this have "take_bit h w \<le> w" by (simp add: word_le_nat_alt)
  ultimately show ?thesis by (simp add: unat_sub minus_mod_eq_mult_div)
qed

lemma unat_mask32:
  assumes "h \<le> 32"
  shows "unat (mask h :: u32) = 2 ^ h - 1"
proof -
  have "unat (take_bit h (- 1 :: u32)) = take_bit h (mask 32)"
    by (simp only: unsigned_take_bit_eq unsigned_minus_1_eq_mask) simp
  moreover have "take_bit h (mask 32 :: nat) = mask h" using assms by (simp only: take_bit_of_mask min_absorb1)
  ultimately show ?thesis by (simp only: take_bit_minus_one_eq_mask mask_nat_def)
qed

lemma broadcast_distance: "(w AND NOT (mask h) OR mask h) - (w AND NOT (mask h)) = (mask h :: u32)" for w :: u32
proof -
  have "w AND NOT (mask h) OR mask h = (w AND NOT (mask h)) + (mask h :: u32)"
    by (rule disjunctive_add [symmetric]) (auto simp: bit_and_iff bit_not_iff)
  then show ?thesis by simp
qed


lemma network_distance:
  assumes "length ip = 4" "n \<le> 32"
  shows "expandCIDR env \<lparr>n_IP = ip, n_Mask = CIDRMask n 4\<rparr> =
    Some (map (e_IPString env) (after_until (be_word ip AND NOT (mask (32 - n))) (be_word ip AND NOT (mask (32 - n)) OR mask (32 - n))))"
    "unat ((be_word ip AND NOT (mask (32 - n)) OR mask (32 - n)) - (be_word ip AND NOT (mask (32 - n))) - 1 :: u32) =
      (if n = 32 then 2 ^ 32 - 1 else 2 ^ (32 - n) - 2)"
proof -
  let ?net = "map2 (AND) ip (CIDRMask n 4)"
  let ?bro = "map2 (\<lambda>n m. n OR NOT m) ?net (CIDRMask n 4)"
  have "unat x \<le> unat (0 - 1 :: u32)" for x :: u32 using word_order.extremum [of x] by (simp add: word_le_nat_alt)
  then have "expand_loop ?net ?bro ?net [] = Some (after_until (be_word ?net) (be_word ?bro))"
    using assms(1) by (subst expand_loop_ends) simp_all
  then show "expandCIDR env \<lparr>n_IP = ip, n_Mask = CIDRMask n 4\<rparr> =
    Some (map (e_IPString env) (after_until (be_word ip AND NOT (mask (32 - n))) (be_word ip AND NOT (mask (32 - n)) OR mask (32 - n))))"
    using assms by (simp add: expandCIDR_def To4_def Let_def network_words)
  show "unat ((be_word ip AND NOT (mask (32 - n)) OR mask (32 - n)) - (be_word ip AND NOT (mask (32 - n))) - 1 :: u32) =
      (if n = 32 then 2 ^ 32 - 1 else 2 ^ (32 - n) - 2)"
  proof (cases "n = 32")
    case True
    then show ?thesis by (simp add: broadcast_distance unsigned_minus_1_eq_mask mask_eq_exp_minus_1)
  next
    case False
    then obtain h where h: "32 - n = Suc h" using assms(2) by (cases "32 - n") auto
    then have u: "unat (mask (Suc h) :: u32) = 2 ^ Suc h - 1" by (intro unat_mask32) linarith
    have "(1::nat) \<le> 2 ^ h" by simp
    then have "1 \<le> unat (mask (Suc h) :: u32)" unfolding u power_Suc by linarith
    then have "unat (mask (Suc h) - 1 :: u32) = 2 ^ Suc h - 2"
      using u by (simp add: unat_sub word_le_nat_alt)
    then show ?thesis using False by (simp add: broadcast_distance h)
  qed
qed


text \<open>The network of \<open>w\<close> with \<open>h\<close> host bits, as numbers: its addresses are those with the same quotient by
  \<open>2 ^ h\<close>, the network address has remainder 0 and the broadcast address remainder \<open>2 ^ h - 1\<close>.\<close>

lemma network_bound:
  fixes w :: u32
  assumes "h \<le> 32" "r < 2 ^ h"
  shows "2 ^ h * (unat w div 2 ^ h) + r < 2 ^ LENGTH(32)"
proof -
  have *: "(2::nat) ^ 32 = 2 ^ h * 2 ^ (32 - h)" using assms(1) by (simp flip: power_add)
  have "unat w < 2 ^ 32" using unsigned_less [of w] by simp
  then have "unat w div 2 ^ h < 2 ^ (32 - h)" unfolding * by (simp only: less_mult_imp_div_less mult.commute)
  then have "2 ^ h * (unat w div 2 ^ h + 1) \<le> (2::nat) ^ 32" unfolding * by (intro mult_le_mono2) simp
  then show ?thesis using assms(2) by simp
qed

lemma unat_in_network:
  fixes w :: u32
  assumes "h \<le> 32" "r < 2 ^ h"
  shows "unat ((w AND NOT (mask h)) + word_of_nat r) = 2 ^ h * (unat w div 2 ^ h) + r"
proof (rule of_nat_inverse)
  have "(word_of_nat (unat (w AND NOT (mask h)) + r) :: u32) = (w AND NOT (mask h)) + word_of_nat r" by simp
  then show "word_of_nat (2 ^ h * (unat w div 2 ^ h) + r) = (w AND NOT (mask h)) + (word_of_nat r :: u32)"
    by (simp only: unat_network)
qed (rule network_bound [OF assms])

lemma unat_broadcast:
  fixes w :: u32
  assumes "h \<le> 32"
  shows "unat (w AND NOT (mask h) OR mask h) = 2 ^ h * (unat w div 2 ^ h) + (2 ^ h - 1)"
proof -
  have "mask h = (word_of_nat (2 ^ h - 1) :: u32)" by (simp only: flip: unat_mask32 [OF assms]) simp
  then have "w AND NOT (mask h) OR mask h = (w AND NOT (mask h)) + word_of_nat (2 ^ h - 1)"
    using broadcast_distance [of w h] by (simp only: diff_eq_eq add.commute)
  then show ?thesis using unat_in_network [OF assms, of "2 ^ h - 1"] by (simp only: diff_less) simp
qed

lemma same_network: "a AND NOT (mask h) = w AND NOT (mask h) \<longleftrightarrow> unat a div 2 ^ h = unat w div 2 ^ h" for a w :: u32
  by (simp add: word_unat_eq_iff unat_network)

definition host_words :: "u32 \<Rightarrow> nat \<Rightarrow> u32 list" where
  "host_words net k = map (\<lambda>i. net + word_of_nat (i + 1)) [0..<k]"

lemma in_host_words: "a \<in> set (host_words net k) \<Longrightarrow> \<exists>i < k. a = net + word_of_nat (i + 1)"
  by (auto simp only: host_words_def set_map image_iff set_upt atLeastLessThan_iff)

lemma expandCIDR_words:
  assumes "length ip = 4" "n \<le> 32"
  shows "expandCIDR env \<lparr>n_IP = ip, n_Mask = CIDRMask n 4\<rparr> =
    Some (map (\<lambda>a. e_IPString env (be_bytes 4 a))
      (host_words (be_word ip AND NOT (mask (32 - n))) (if n = 32 then 2 ^ 32 - 1 else 2 ^ (32 - n) - 2)))"
  unfolding network_distance(1) [OF assms] after_until_def network_distance(2) [OF assms] host_words_def
  by (simp only: map_map comp_def of_nat_add of_nat_1 ac_simps)

lemma set_host_words:
  fixes w :: u32
  assumes "h \<le> 32"
  shows "set (host_words (w AND NOT (mask h)) (2 ^ h - 2)) =
    {a. a AND NOT (mask h) = w AND NOT (mask h)} - {w AND NOT (mask h), w AND NOT (mask h) OR mask h}"
    (is "_ = ?N - {?net, ?bro}")
proof (intro set_eqI iffI)
  fix a assume "a \<in> set (host_words ?net (2 ^ h - 2))"
  then obtain i where i: "i < 2 ^ h - 2" "a = ?net + word_of_nat (i + 1)" using in_host_words by blast
  define r where "r = i + 1"
  have r: "0 < r" "r < 2 ^ h - 1" using i(1) unfolding r_def by linarith+
  have a: "a = ?net + word_of_nat r" using i(2) unfolding r_def .
  have "unat a = 2 ^ h * (unat w div 2 ^ h) + r" unfolding a using r(2) by (intro unat_in_network [OF assms]) linarith
  then have "unat a div 2 ^ h = unat w div 2 ^ h" "unat a \<noteq> unat ?net" "unat a \<noteq> unat ?bro"
    unfolding unat_network unat_broadcast [OF assms] using r by simp_all
  then show "a \<in> ?N - {?net, ?bro}" by (auto simp: same_network)
next
  fix a assume a: "a \<in> ?N - {?net, ?bro}"
  have d: "unat a div 2 ^ h = unat w div 2 ^ h" and ne: "unat a \<noteq> unat ?net" "unat a \<noteq> unat ?bro"
    using a same_network [of a h w] by (auto simp: word_unat_eq_iff [of a])
  obtain r where u: "unat a = 2 ^ h * (unat w div 2 ^ h) + r" and lt: "r < 2 ^ h"
    using mult_div_mod_eq [of "2 ^ h" "unat a", symmetric] unfolding d by (rule that) simp
  have r: "r \<noteq> 0" "r \<noteq> 2 ^ h - 1" using ne unfolding u unat_network unat_broadcast [OF assms] by simp_all
  then obtain i where i: "r = i + 1" "i < 2 ^ h - 2" using lt by (intro that [of "r - 1"]) linarith+
  have "unat a = unat (?net + word_of_nat r)" using u unat_in_network [OF assms lt, of w] by simp
  then have "a = ?net + word_of_nat (i + 1)" by (simp only: word_unat_eq_iff i(1))
  then show "a \<in> set (host_words ?net (2 ^ h - 2))"
    unfolding host_words_def set_map set_upt by (rule image_eqI) (use i(2) in simp)
qed

lemma host_words_sorted:
  fixes w :: u32
  assumes "h \<le> 32"
  shows "sorted_wrt (<) (host_words (w AND NOT (mask h)) (2 ^ h - 2))"
proof -
  have "unat ((w AND NOT (mask h)) + word_of_nat (i + 1)) = 2 ^ h * (unat w div 2 ^ h) + (i + 1)" if "i < 2 ^ h - 2" for i
    using unat_in_network [OF assms, of "i + 1" w] that by linarith
  then show ?thesis
    unfolding host_words_def sorted_wrt_iff_nth_less by (auto simp: word_less_nat_alt simp del: of_nat_add of_nat_Suc)
qed

text \<open>
  C23. A network is expanded to its hosts. For every prefix length below 32 the loop ends, and lists in ascending
  order exactly the addresses of the network that are neither the network nor the broadcast address.
\<close>

theorem expandCIDR_lists_hosts:
  assumes "length ip = 4" "n < 32" "net = be_word ip AND NOT (mask (32 - n))"
  shows "\<exists>hosts. expandCIDR env \<lparr>n_IP = ip, n_Mask = CIDRMask n 4\<rparr> = Some (map (\<lambda>a. e_IPString env (be_bytes 4 a)) hosts) \<and>
    sorted_wrt (<) hosts \<and> set hosts = {a :: u32. a AND NOT (mask (32 - n)) = net} - {net, net OR mask (32 - n)}"
  using expandCIDR_words [OF assms(1), of n env] assms(2) host_words_sorted [of "32 - n" "be_word ip"]
    set_host_words [of "32 - n" "be_word ip"]
  unfolding assms(3) by (intro exI [of _ "host_words (be_word ip AND NOT (mask (32 - n))) (2 ^ (32 - n) - 2)"]) auto

theorem expandCIDR_lists_hosts_witness:
  "\<forall>env. \<exists>hosts. expandCIDR env \<lparr>n_IP = [192, 168, 1, 77], n_Mask = [255, 255, 255, 252]\<rparr> =
      Some (map (\<lambda>a. e_IPString env (be_bytes 4 a)) hosts) \<and> sorted_wrt (<) hosts \<and> (0xC0A8014D :: u32) \<in> set hosts"
proof
  fix env
  have "0xC0A8014C = (be_word [192, 168, 1, 77] :: u32) AND NOT (mask (32 - 30))" by code_simp
  then obtain hosts where h: "expandCIDR env \<lparr>n_IP = [192, 168, 1, 77], n_Mask = CIDRMask 30 4\<rparr> =
      Some (map (\<lambda>a. e_IPString env (be_bytes 4 a)) hosts)" "sorted_wrt (<) hosts"
      "set hosts = {a :: u32. a AND NOT (mask (32 - 30)) = 0xC0A8014C} - {0xC0A8014C, 0xC0A8014C OR mask (32 - 30)}"
    using expandCIDR_lists_hosts [of "[192, 168, 1, 77]" 30 "0xC0A8014C" env] by auto
  have "CIDRMask 30 4 = [255, 255, 255, 252]" "(0xC0A8014D :: u32) AND NOT (mask (32 - 30)) = 0xC0A8014C"
    "(0xC0A8014D :: u32) \<noteq> 0xC0A8014C OR mask (32 - 30)" by code_simp+
  then show "\<exists>hosts. expandCIDR env \<lparr>n_IP = [192, 168, 1, 77], n_Mask = [255, 255, 255, 252]\<rparr> =
      Some (map (\<lambda>a. e_IPString env (be_bytes 4 a)) hosts) \<and> sorted_wrt (<) hosts \<and> (0xC0A8014D :: u32) \<in> set hosts"
    using h by (intro exI [of _ hosts]) simp
qed

text \<open>
  C40. A single address written with its prefix length 32 is expanded to all the other addresses: network and
  broadcast address are the same, so the loop that starts behind it runs around the whole address space. It
  lists 4294967295 addresses, and the one that was asked for is not among them.
\<close>

theorem expandCIDR_single_address:
  assumes "length ip = 4"
  shows "\<exists>hosts. expandCIDR env \<lparr>n_IP = ip, n_Mask = CIDRMask 32 4\<rparr> = Some (map (\<lambda>a. e_IPString env (be_bytes 4 a)) hosts) \<and>
    length hosts = 2 ^ 32 - 1 \<and> (be_word ip :: u32) \<notin> set hosts"
proof -
  have "(be_word ip :: u32) \<notin> set (host_words (be_word ip) (2 ^ 32 - 1))"
  proof
    assume "(be_word ip :: u32) \<in> set (host_words (be_word ip) (2 ^ 32 - 1))"
    then obtain i where i: "i < 2 ^ 32 - 1" "(be_word ip :: u32) = be_word ip + word_of_nat (i + 1)"
      using in_host_words by blast
    then have "(word_of_nat (i + 1) :: u32) = 0" by simp
    moreover have "i + 1 < 2 ^ LENGTH(32)" using i(1) by simp
    ultimately show False using of_nat_inverse [of "i + 1" "0 :: u32"] by simp
  qed
  moreover have "length (host_words (be_word ip) (2 ^ 32 - 1)) = 2 ^ 32 - 1" by (simp only: host_words_def length_map length_upt diff_zero)
  ultimately show ?thesis using expandCIDR_words [OF assms, of 32 env]
    by (intro exI [of _ "host_words (be_word ip) (2 ^ 32 - 1)"]) (simp only: diff_self_eq_0 mask_0 bit.compl_zero and.right_neutral if_True order_refl simp_thms)
qed

theorem expandCIDR_single_address_witness:
  "\<forall>env. \<exists>hosts. expandCIDR env \<lparr>n_IP = [10, 0, 0, 1], n_Mask = CIDRMask 32 4\<rparr> = Some (map (\<lambda>a. e_IPString env (be_bytes 4 a)) hosts) \<and>
    length hosts = 2 ^ 32 - 1 \<and> (be_word [10, 0, 0, 1] :: u32) \<notin> set hosts"
  by (intro allI expandCIDR_single_address) simp

section \<open>The addresses of an IPv6 network\<close>

lemma SetBytes_snoc: "SetBytes (bs @ [b]) = 256 * SetBytes bs + unat b"
  by (simp add: SetBytes_def)

lemma SetBytes_bound: "SetBytes bs < 256 ^ length bs"
proof (induction bs rule: rev_induct)
  case (snoc b bs)
  have "unat b < 256" using unsigned_less [of b] by simp
  then show ?case using snoc by (simp add: SetBytes_snoc)
qed (simp add: SetBytes_def)

lemma SetBytes_digits: "SetBytes (map (\<lambda>i. word_of_nat (n div 256 ^ (len - 1 - i))) [0..<len]) = n mod 256 ^ len"
proof (induction len arbitrary: n)
  case (Suc len)
  have "map (\<lambda>i. word_of_nat (n div 256 ^ (Suc len - 1 - i)) :: byte) [0..<Suc len] =
      map (\<lambda>i. word_of_nat ((n div 256) div 256 ^ (len - 1 - i))) [0..<len] @ [word_of_nat n]"
  proof -
    have "n div 256 ^ (len - i) = (n div 256) div 256 ^ (len - 1 - i)" if "i < len" for i
    proof -
      have "len - i = Suc (len - 1 - i)" using that by simp
      then show ?thesis by (simp add: div_mult2_eq)
    qed
    then show ?thesis by simp
  qed
  moreover have "unat (word_of_nat n :: byte) = n mod 256" by (simp add: unat_of_nat)
  ultimately show ?case
    by (simp only: SetBytes_snoc Suc.IH power_Suc mod_mult2_eq)
qed (simp add: SetBytes_def)

lemma FillBytes_value: "n < 2 ^ (8 * len) \<Longrightarrow> \<exists>bs. FillBytes len n = Some bs \<and> length bs = len \<and> SetBytes bs = n"
  using SetBytes_digits [of n len] by (auto simp: FillBytes_def power_mult)

lemma fill_addrs_values:
  "ipInt + k \<le> 2 ^ 128 \<Longrightarrow>
   \<exists>ips. fill_addrs k ipInt = Some ips \<and> map SetBytes ips = [ipInt..<ipInt + k] \<and> (\<forall>ip \<in> set ips. length ip = 16)"
proof (induction k arbitrary: ipInt)
  case (Suc k)
  obtain bs where bs: "FillBytes 16 ipInt = Some bs" "length bs = 16" "SetBytes bs = ipInt"
    using FillBytes_value [of ipInt 16] Suc.prems by auto
  obtain ips where "fill_addrs k (ipInt + 1) = Some ips" "map SetBytes ips = [ipInt + 1..<ipInt + 1 + k]" "\<forall>ip \<in> set ips. length ip = 16"
    using Suc.IH [of "ipInt + 1"] Suc.prems by auto
  then show ?case using bs by (auto simp: upt_conv_Cons)
qed simp

lemma Mask_Size_CIDRMask: "n \<le> 128 \<Longrightarrow> Mask_Size (CIDRMask n 16) = (n, 128)"
proof -
  have "\<forall>n \<in> set [0..<129]. Mask_Size (CIDRMask n 16) = (n, 128)" by code_simp
  then show "n \<le> 128 \<Longrightarrow> Mask_Size (CIDRMask n 16) = (n, 128)" by simp
qed

text \<open>
  An IPv6 network with at most 16 host bits is expanded to all its addresses, in order and without a panic
  in \<open>FillBytes\<close>; a larger one to none. The base is a network address, as \<open>net.ParseCIDR\<close> returns it.
\<close>

theorem expandCIDR6_lists_network:
  assumes "length base = 16" "n \<le> 128" "2 ^ (128 - n) dvd SetBytes base"
  shows "\<exists>ips. expandCIDR6 env \<lparr>n_IP = base, n_Mask = CIDRMask n 16\<rparr> = Some (map (e_IPString env) ips) \<and>
    map SetBytes ips = (if 112 \<le> n then [SetBytes base..<SetBytes base + 2 ^ (128 - n)] else []) \<and> (\<forall>ip \<in> set ips. length ip = 16)"
proof -
  obtain q where q: "SetBytes base = 2 ^ (128 - n) * q" using assms(3) by blast
  have "SetBytes base < 2 ^ 128" using SetBytes_bound [of base] assms(1) by simp
  moreover have *: "(2::nat) ^ 128 = 2 ^ (128 - n) * 2 ^ n" using assms(2) by (simp flip: power_add)
  ultimately have "q < 2 ^ n" using q by (simp only: mult_less_cancel1)
  then have "2 ^ (128 - n) * (q + 1) \<le> (2::nat) ^ 128" unfolding * by (intro mult_le_mono2) simp
  then have "SetBytes base + 2 ^ (128 - n) \<le> 2 ^ 128" using q by simp
  from fill_addrs_values [OF this] show ?thesis
    using assms(1,2) by (auto simp: expandCIDR6_def Mask_Size_CIDRMask To16_def)
qed

theorem expandCIDR6_lists_network_witness:
  "\<forall>env. \<exists>ips. expandCIDR6 env \<lparr>n_IP = replicate 15 0 @ [4], n_Mask = CIDRMask 126 16\<rparr> = Some (map (e_IPString env) ips) \<and>
    map SetBytes ips = [4, 5, 6, 7] \<and> (\<forall>ip \<in> set ips. length ip = 16)"
proof
  fix env
  have "SetBytes (replicate 15 0 @ [4]) = 4" by code_simp
  then show "\<exists>ips. expandCIDR6 env \<lparr>n_IP = replicate 15 0 @ [4], n_Mask = CIDRMask 126 16\<rparr> = Some (map (e_IPString env) ips) \<and>
    map SetBytes ips = [4, 5, 6, 7] \<and> (\<forall>ip \<in> set ips. length ip = 16)"
    using expandCIDR6_lists_network [of "replicate 15 0 @ [4]" 126 env] by (simp add: upt_rec)
qed

end
