(* ===== verification/Enrich.thy ===== *)
theory Enrich
  imports Net_Env
begin

text \<open>
  The package \<open>traceroute/enrich\<close>: metadata about hop addresses from several providers
  (\<open>enrich.go\<close>), the Team Cymru provider over DNS (\<open>cymru.go\<close>) and the ipinfo.io provider over HTTP
  (\<open>ipinfo.go\<close>). The DNS resolver and the HTTP client are parameters. Concurrent lookups are given in
  the order in which they complete. A Go map of results is the list of its entries in the order of
  the iteration; the merged result is a map.
\<close>

section \<open>Merging\<close>

record IPInfo =
  ii_IP :: "IP option"
  ii_ASN :: u32
  ii_ASName :: string
  ii_Prefix :: string
  ii_Country :: string
  ii_Region :: string
  ii_City :: string
  ii_Org :: string

definition no_info :: "IP option \<Rightarrow> IPInfo" where
  "no_info ip = \<lparr>ii_IP = ip, ii_ASN = 0, ii_ASName = [], ii_Prefix = [], ii_Country = [], ii_Region = [],
     ii_City = [], ii_Org = []\<rparr>"

definition keep :: "'a \<Rightarrow> 'a \<Rightarrow> 'a \<Rightarrow> 'a" where
  "keep zero old new = (if old = zero then new else old)"

definition mergeInto :: "IPInfo \<Rightarrow> IPInfo \<Rightarrow> IPInfo" where
  "mergeInto dst src =
     \<lparr>ii_IP = keep None (ii_IP dst) (ii_IP src),
      ii_ASN = keep 0 (ii_ASN dst) (ii_ASN src),
      ii_ASName = keep [] (ii_ASName dst) (ii_ASName src),
      ii_Prefix = keep [] (ii_Prefix dst) (ii_Prefix src),
      ii_Country = keep [] (ii_Country dst) (ii_Country src),
      ii_Region = keep [] (ii_Region dst) (ii_Region src),
      ii_City = keep [] (ii_City dst) (ii_City src),
      ii_Org = keep [] (ii_Org dst) (ii_Org src)\<rparr>"

type_synonym entries = "(string \<times> IPInfo option) list"
type_synonym provider = "IP list \<Rightarrow> entries option"

fun merge_entries :: "entries \<Rightarrow> (string \<rightharpoonup> IPInfo) \<Rightarrow> (string \<rightharpoonup> IPInfo)" where
  "merge_entries [] m = m"
| "merge_entries ((key, None) # es) m = merge_entries es m"
| "merge_entries ((key, Some info) # es) m =
     (let dst = (case m key of None \<Rightarrow> no_info (ii_IP info) | Some d \<Rightarrow> d)
      in merge_entries es (m(key \<mapsto> mergeInto dst info)))"

text \<open>The providers in the order in which their lookups complete; a provider that fails adds nothing.\<close>

fun merge_providers :: "provider list \<Rightarrow> IP list \<Rightarrow> (string \<rightharpoonup> IPInfo) \<Rightarrow> (string \<rightharpoonup> IPInfo)" where
  "merge_providers [] ips m = m"
| "merge_providers (p # ps) ips m =
     merge_providers ps ips (case p ips of None \<Rightarrow> m | Some es \<Rightarrow> merge_entries es m)"

definition Resolve :: "provider list \<Rightarrow> IP list \<Rightarrow> (string \<rightharpoonup> IPInfo)" where
  "Resolve providers ips =
     (if providers = [] \<or> ips = [] then Map.empty else merge_providers providers ips Map.empty)"


section \<open>Team Cymru\<close>

type_synonym resolver = "string \<Rightarrow> string list option"

definition cymruZoneOrigin :: string where "cymruZoneOrigin = ''origin.asn.cymru.com''"
definition cymruZoneOrigin6 :: string where "cymruZoneOrigin6 = ''origin6.asn.cymru.com''"
definition cymruZoneAS :: string where "cymruZoneAS = ''asn.cymru.com''"

definition byte_dec :: "byte \<Rightarrow> string" where
  "byte_dec b = nat_dec (unat b)"

definition reverseV4 :: "IP \<Rightarrow> string" where
  "reverseV4 v4 = byte_dec (v4 ! 3) @ ''.'' @ byte_dec (v4 ! 2) @ ''.'' @ byte_dec (v4 ! 1) @ ''.'' @ byte_dec (v4 ! 0)"

definition hex_char :: "byte \<Rightarrow> char" where
  "hex_char b = (let n = unat b in if n < 10 then char_of (48 + n) else char_of (87 + n))"

text \<open>The loop from the last byte to the first, low nibble before high nibble, with dots between.\<close>

fun nibbles :: "byte list \<Rightarrow> string" where
  "nibbles [] = []"
| "nibbles (b # bs) =
     hex_char (b AND 0x0F) # CHR ''.'' # hex_char (drop_bit 4 b) # (if bs = [] then [] else CHR ''.'' # nibbles bs)"

definition reverseV6Nibbles :: "IP \<Rightarrow> string" where
  "reverseV6Nibbles v6 = nibbles (rev v6)"

definition splitPipe :: "string \<Rightarrow> string list" where
  "splitPipe s = map TrimSpace (Split CHR ''|'' s)"

definition parseOriginTXT :: "string \<Rightarrow> u32 \<times> string" where
  "parseOriginTXT txt =
     (let fields = splitPipe txt
      in if length fields < 2 then (0, [])
         else
           let asnField = (case IndexByte CHR '' '' (fields ! 0) of None \<Rightarrow> fields ! 0 | Some sp \<Rightarrow> take sp (fields ! 0))
           in case ParseUint32 (TrimSpace asnField) of
                Inl _ \<Rightarrow> (0, [])
              | Inr n \<Rightarrow> (n, TrimSpace (fields ! 1)))"

definition parseASNameTXT :: "string \<Rightarrow> string" where
  "parseASNameTXT txt =
     (let fields = splitPipe txt in if fields = [] then [] else TrimSpace (last fields))"

definition lookupASName :: "resolver \<Rightarrow> u32 \<Rightarrow> string" where
  "lookupASName LookupTXT asn =
     (case LookupTXT (''AS'' @ nat_dec (unat asn) @ ''.'' @ cymruZoneAS) of
        None \<Rightarrow> [] | Some [] \<Rightarrow> [] | Some (txt # _) \<Rightarrow> parseASNameTXT txt)"

text \<open>The cache of names, read and filled under its lock.\<close>

type_synonym asNameCache = "u32 \<rightharpoonup> string"

definition asNameCache_get :: "resolver \<Rightarrow> u32 \<Rightarrow> asNameCache \<Rightarrow> string \<times> asNameCache" where
  "asNameCache_get r asn c =
     (case c asn of
        Some v \<Rightarrow> (v, c)
      | None \<Rightarrow> (let name = lookupASName r asn in (name, c(asn \<mapsto> name))))"

definition origin_name :: "IP \<Rightarrow> string" where
  "origin_name ip =
     (case To4 ip of
        Some v4 \<Rightarrow> reverseV4 v4 @ ''.'' @ cymruZoneOrigin
      | None \<Rightarrow> reverseV6Nibbles ip @ ''.'' @ cymruZoneOrigin6)"

definition cymru_lookupOne :: "resolver \<Rightarrow> IP \<Rightarrow> asNameCache \<Rightarrow> IPInfo option \<times> asNameCache" where
  "cymru_lookupOne r ip c =
     (case r (origin_name ip) of
        None \<Rightarrow> (None, c)
      | Some [] \<Rightarrow> (None, c)
      | Some (txt # _) \<Rightarrow>
          (let (asn, prefix) = parseOriginTXT txt
           in if asn = 0 then (None, c)
              else
                let (name, c') = asNameCache_get r asn c
                in (Some ((no_info (Some ip))\<lparr>ii_ASN := asn, ii_Prefix := prefix, ii_ASName := name\<rparr>), c')))"

definition cymru_query :: "IP \<Rightarrow> IP option" where
  "cymru_query ip = (case To4 ip of Some v4 \<Rightarrow> Some v4 | None \<Rightarrow> if To16 ip = None then None else Some ip)"

fun cymru_entries :: "net_env \<Rightarrow> resolver \<Rightarrow> IP list \<Rightarrow> asNameCache \<Rightarrow> entries" where
  "cymru_entries env r [] c = []"
| "cymru_entries env r (ip # ips) c =
     (case cymru_query ip of
        None \<Rightarrow> cymru_entries env r ips c
      | Some q \<Rightarrow>
          (case cymru_lookupOne r q c of
             (None, c') \<Rightarrow> cymru_entries env r ips c'
           | (Some info, c') \<Rightarrow> (e_IPString env ip, Some info) # cymru_entries env r ips c'))"

definition cymru_Lookup :: "net_env \<Rightarrow> resolver \<Rightarrow> provider" where
  "cymru_Lookup env r ips = Some (cymru_entries env r ips Map.empty)"


section \<open>ipinfo.io\<close>

record ipinfoResponse =
  ir_IP :: string
  ir_City :: string
  ir_Region :: string
  ir_Country :: string
  ir_Org :: string

definition parseOrg :: "string \<Rightarrow> u32 \<times> string \<times> string" where
  "parseOrg org0 =
     (let org = TrimSpace org0; rest = drop 2 org
      in if org = [] then (0, [], [])
         else if take 2 org = ''AS'' then
           (case IndexByte CHR '' '' rest of
              None \<Rightarrow> (0, [], org)
            | Some sp \<Rightarrow>
                (case ParseUint32 (take sp rest) of
                   Inr n \<Rightarrow> (let name = TrimSpace (drop (sp + 1) rest) in (n, name, name))
                 | Inl _ \<Rightarrow> (0, [], org)))
         else (0, [], org))"

text \<open>\<open>get\<close> is the request: the decoded body of a response with status 200, \<open>None\<close> otherwise. Address text
  needs no escaping in a path.\<close>

definition ipinfo_lookupOne :: "net_env \<Rightarrow> (string \<Rightarrow> ipinfoResponse option) \<Rightarrow> string \<Rightarrow> IP \<Rightarrow> IPInfo option" where
  "ipinfo_lookupOne env get base ip =
     (let endpoint = rev (dropWhile (\<lambda>c. c = CHR ''/'') (rev base)) @ ''/'' @ e_IPString env ip @ ''/json''
      in case get endpoint of
           None \<Rightarrow> None
         | Some r \<Rightarrow>
             (let (asn, asName, org) = parseOrg (ir_Org r)
              in Some ((no_info (Some ip))\<lparr>ii_Country := ir_Country r, ii_Region := ir_Region r, ii_City := ir_City r,
                         ii_ASN := asn, ii_ASName := asName, ii_Org := org\<rparr>)))"

definition ipinfo_Lookup :: "net_env \<Rightarrow> (string \<Rightarrow> ipinfoResponse option) \<Rightarrow> string \<Rightarrow> provider" where
  "ipinfo_Lookup env get BaseURL ips =
     (let base = (if BaseURL = [] then ''https://ipinfo.io'' else BaseURL)
      in Some (concat (map (\<lambda>ip. case ipinfo_lookupOne env get base ip of
                                    None \<Rightarrow> [] | Some info \<Rightarrow> [(e_IPString env ip, Some info)]) ips)))"

section \<open>The merge is field by field\<close>

definition first_set :: "'a \<Rightarrow> 'a list \<Rightarrow> 'a" where
  "first_set zero xs = (case List.find (\<lambda>x. x \<noteq> zero) xs of None \<Rightarrow> zero | Some x \<Rightarrow> x)"

definition merged_info :: "IPInfo list \<Rightarrow> IPInfo" where
  "merged_info infos =
     \<lparr>ii_IP = first_set None (map ii_IP infos),
      ii_ASN = first_set 0 (map ii_ASN infos),
      ii_ASName = first_set [] (map ii_ASName infos),
      ii_Prefix = first_set [] (map ii_Prefix infos),
      ii_Country = first_set [] (map ii_Country infos),
      ii_Region = first_set [] (map ii_Region infos),
      ii_City = first_set [] (map ii_City infos),
      ii_Org = first_set [] (map ii_Org infos)\<rparr>"

fun entries_for :: "string \<Rightarrow> entries \<Rightarrow> IPInfo list" where
  "entries_for key [] = []"
| "entries_for key ((k, None) # es) = entries_for key es"
| "entries_for key ((k, Some info) # es) = (if k = key then [info] else []) @ entries_for key es"

definition reported :: "provider list \<Rightarrow> IP list \<Rightarrow> string \<Rightarrow> IPInfo list" where
  "reported ps ips key = concat (map (\<lambda>p. case p ips of None \<Rightarrow> [] | Some es \<Rightarrow> entries_for key es) ps)"

definition merged_option :: "IPInfo list \<Rightarrow> IPInfo option" where
  "merged_option infos = (if infos = [] then None else Some (merged_info infos))"

lemma first_set_snoc: "first_set zero (xs @ [y]) = keep zero (first_set zero xs) y"
  by (induction xs) (auto simp: first_set_def keep_def)

lemma merge_snoc: "merged_info (infos @ [info]) = mergeInto (merged_info infos) info"
  by (simp add: merged_info_def mergeInto_def first_set_snoc)

lemma merge_first: "mergeInto (no_info (ii_IP info)) info = merged_info [info]"
  by (simp add: merged_info_def mergeInto_def first_set_def keep_def no_info_def)

lemma merge_entries_key:
  "m key = merged_option infos \<Longrightarrow> merge_entries es m key = merged_option (infos @ entries_for key es)"
proof (induction es m arbitrary: infos rule: merge_entries.induct)
  case (3 k info es m)
  show ?case
  proof (cases "k = key")
    case True
    have "mergeInto (case m k of None \<Rightarrow> no_info (ii_IP info) | Some d \<Rightarrow> d) info = merged_info (infos @ [info])"
      using 3(2) True by (cases "infos = []") (simp_all add: merged_option_def merge_first merge_snoc)
    then show ?thesis using 3(1) [OF refl, of "infos @ [info]"] True
      by (simp add: merged_option_def fun_upd_def cong: if_cong)
  next
    case False
    then show ?thesis using 3(1) [OF refl, of infos] 3(2) by (simp add: fun_upd_def)
  qed
qed simp_all

lemma merge_providers_key:
  "m key = merged_option infos \<Longrightarrow> merge_providers ps ips m key = merged_option (infos @ reported ps ips key)"
proof (induction ps arbitrary: m infos)
  case (Cons p ps)
  then show ?case
    by (cases "p ips") (simp_all add: reported_def Cons.IH merge_entries_key)
qed (simp add: reported_def)

text \<open>
  C28. Combining providers gives for every address the field-wise merge of what they report: each field is
  the first set value in the order in which the providers complete, an address is present exactly when
  some provider reports it, and failing providers change nothing.
\<close>

theorem resolve_merges_fields:
  "Resolve providers ips key =
     (if ips = [] \<or> reported providers ips key = [] then None else Some (merged_info (reported providers ips key)))"
  using merge_providers_key [of Map.empty key "[]" providers ips]
  by (auto simp: Resolve_def merged_option_def reported_def)

text \<open>
  The providers complete in any order, so with two providers that both know a field the result is the
  one of the faster provider, not of the first in the list.
\<close>

lemma resolve_depends_on_completion:
  defines "a \<equiv> (\<lambda>_. Some [(''192.0.2.1'', Some ((no_info None)\<lparr>ii_ASName := ''A''\<rparr>))])"
    and "b \<equiv> (\<lambda>_. Some [(''192.0.2.1'', Some ((no_info None)\<lparr>ii_ASName := ''B''\<rparr>))])"
  shows "map_option ii_ASName (Resolve [a, b] [[192, 0, 2, 1]] ''192.0.2.1'') = Some ''A''"
    "map_option ii_ASName (Resolve [b, a] [[192, 0, 2, 1]] ''192.0.2.1'') = Some ''B''"
  by (simp_all add: a_def b_def Resolve_def mergeInto_def no_info_def keep_def)


section \<open>The name cache changes nothing\<close>

definition cache_ok :: "resolver \<Rightarrow> asNameCache \<Rightarrow> bool" where
  "cache_ok r c \<longleftrightarrow> (\<forall>asn name. c asn = Some name \<longrightarrow> name = lookupASName r asn)"

text \<open>What a lookup without the cache finds for one address.\<close>

definition cymru_info :: "resolver \<Rightarrow> IP \<Rightarrow> IPInfo option" where
  "cymru_info r ip =
     (case r (origin_name ip) of
        Some (txt # _) \<Rightarrow>
          (let (asn, prefix) = parseOriginTXT txt
           in if asn = 0 then None
              else Some ((no_info (Some ip))\<lparr>ii_ASN := asn, ii_Prefix := prefix, ii_ASName := lookupASName r asn\<rparr>))
      | _ \<Rightarrow> None)"

lemma asNameCache_get_ok:
  assumes "cache_ok r c"
  shows "fst (asNameCache_get r asn c) = lookupASName r asn" "cache_ok r (snd (asNameCache_get r asn c))"
  using assms by (auto simp: asNameCache_get_def cache_ok_def Let_def split: option.splits)

lemma cymru_lookupOne_ok:
  assumes "cache_ok r c"
  shows "fst (cymru_lookupOne r ip c) = cymru_info r ip" "cache_ok r (snd (cymru_lookupOne r ip c))"
  using asNameCache_get_ok [OF assms] assms
  by (auto simp: cymru_lookupOne_def cymru_info_def Let_def split: option.splits list.splits prod.splits)
    (metis fst_conv snd_conv)+

lemma cymru_entries_ok:
  "cache_ok r c \<Longrightarrow> cymru_entries env r ips c =
     concat (map (\<lambda>ip. case Option.bind (cymru_query ip) (cymru_info r) of
                          None \<Rightarrow> [] | Some info \<Rightarrow> [(e_IPString env ip, Some info)]) ips)"
proof (induction ips arbitrary: c)
  case (Cons ip ips)
  show ?case
  proof (cases "cymru_query ip")
    case (Some q)
    then show ?thesis using Cons.IH [OF cymru_lookupOne_ok(2) [OF Cons.prems, of q]] cymru_lookupOne_ok(1) [OF Cons.prems, of q]
      by (cases "cymru_lookupOne r q c") (auto split: option.splits)
  qed (use Cons in simp)
qed simp

text \<open>
  The cache of AS names is transparent: for every list of addresses the Team Cymru provider returns
  exactly the entries that separate lookups without a cache would give, one per address that has an
  origin record with a non-zero AS number.
\<close>

theorem cymru_cache_transparent:
  "cymru_Lookup env r ips =
     Some (concat (map (\<lambda>ip. case Option.bind (cymru_query ip) (cymru_info r) of
                                None \<Rightarrow> [] | Some info \<Rightarrow> [(e_IPString env ip, Some info)]) ips))"
  by (simp add: cymru_Lookup_def cymru_entries_ok cache_ok_def)

section \<open>Reading and asking\<close>

lemma TrimSpace_front:
  assumes "d \<noteq> []" "\<forall>c\<in>set d. \<not> is_space c"
  shows "TrimSpace (d @ t) = d @ rev (dropWhile is_space (rev t))"
proof -
  have "dropWhile is_space (d @ t) = d @ t" using assms by (cases d) auto
  moreover have "dropWhile is_space (rev t @ rev d) = dropWhile is_space (rev t) @ rev d"
  proof (cases "\<forall>c\<in>set t. is_space c")
    case True
    then have "dropWhile is_space (rev t) = []" by simp
    moreover have "dropWhile is_space (rev d) = rev d" using assms by (simp add: dropWhile_eq_self_iff hd_rev)
    ultimately show ?thesis using True by (simp add: dropWhile_append)
  next
    case False
    then show ?thesis unfolding dropWhile_append by auto
  qed
  ultimately show ?thesis by (simp add: TrimSpace_def)
qed

lemma TrimSpace_around:
  assumes "\<forall>c\<in>set p. \<not> is_space c"
  shows "TrimSpace (CHR '' '' # p @ '' '') = p"
proof (cases "p = []")
  case True
  then show ?thesis by (simp add: TrimSpace_def is_space_def)
next
  case False
  have "TrimSpace (CHR '' '' # p @ '' '') = TrimSpace (p @ '' '')" by (simp add: TrimSpace_def is_space_def)
  also have "\<dots> = p" using TrimSpace_front [OF False assms] by (simp add: is_space_def)
  finally show ?thesis .
qed

lemma rtrim_head: "t = [] \<or> hd t = c \<Longrightarrow> rev (dropWhile P (rev t)) = [] \<or> hd (rev (dropWhile P (rev t))) = c"
proof -
  assume t: "t = [] \<or> hd t = c"
  have "t = rev (dropWhile P (rev t)) @ rev (takeWhile P (rev t))"
    by (metis rev_append rev_rev_ident takeWhile_dropWhile_id)
  then show ?thesis using t by (metis append_is_Nil_conv hd_append2)
qed

lemma IndexByte_front:
  "c \<notin> set d \<Longrightarrow> u = [] \<or> hd u = c \<Longrightarrow>
   (case IndexByte c (d @ u) of None \<Rightarrow> d @ u | Some sp \<Rightarrow> take sp (d @ u)) = d"
  by (cases u) (auto simp: IndexByte_def takeWhile_append)

lemma parseOriginTXT_fields:
  assumes "splitPipe txt = f0 # f1 # fs"
    and "(case IndexByte CHR '' '' f0 of None \<Rightarrow> f0 | Some sp \<Rightarrow> take sp f0) = d" "ParseUint32 (TrimSpace d) = Inr n"
  shows "parseOriginTXT txt = (n, TrimSpace f1)"
  using assms by (auto simp: parseOriginTXT_def Let_def split: option.splits)

text \<open>
  An origin record is read as it is written: from \<open>asn others | prefix | rest\<close>, whatever further AS
  numbers and fields it has, the first AS number and the prefix are returned.
\<close>

theorem origin_record_read:
  assumes "CHR ''|'' \<notin> set others" "others = [] \<or> hd others = CHR '' ''"
    and "\<forall>c\<in>set prefix. \<not> is_space c \<and> c \<noteq> CHR ''|''"
  shows "parseOriginTXT (nat_dec (unat asn) @ others @ '' | '' @ prefix @ '' | '' @ rest) = (asn, prefix)"
proof -
  let ?d = "nat_dec (unat asn)" and ?u = "rev (dropWhile is_space (rev (others @ '' '')))"
  have d: "?d \<noteq> []" "\<forall>c\<in>set ?d. \<not> is_space c" "CHR '' '' \<notin> set ?d"
    using nat_dec_digits is_digit_not_space by (auto simp: nat_dec_not_in)
  have "Split CHR ''|'' (?d @ others @ '' | '' @ prefix @ '' | '' @ rest) =
      (?d @ others @ '' '') # (CHR '' '' # prefix @ '' '') # Split CHR ''|'' (CHR '' '' # rest)"
    using Split_append_sep [of "CHR ''|''" "?d @ others @ '' ''"] Split_append_sep [of "CHR ''|''" "CHR '' '' # prefix @ '' ''"]
      assms(1,3) by (auto simp: nat_dec_not_in)
  then have f: "splitPipe (?d @ others @ '' | '' @ prefix @ '' | '' @ rest) =
      (?d @ ?u) # prefix # map TrimSpace (Split CHR ''|'' (CHR '' '' # rest))"
    using TrimSpace_front [OF d(1,2), of "others @ '' ''"] TrimSpace_around [of prefix] assms(3)
    by (simp add: splitPipe_def)
  have u: "?u = [] \<or> hd ?u = CHR '' ''" by (rule rtrim_head) (use assms(2) in \<open>cases others; auto\<close>)
  have "TrimSpace prefix = prefix" by (rule TrimSpace_id) (use assms(3) in blast)
  moreover have "ParseUint32 ?d = Inr asn" using unsigned_less [of asn, where 'a = nat] by (simp add: ParseUint32_nat_dec)
  ultimately show ?thesis
    using parseOriginTXT_fields [OF f IndexByte_front [OF d(3) u]] by simp
qed

theorem origin_record_read_witness:
  "parseOriginTXT (nat_dec (unat (15169 :: u32)) @ '' 36040'' @ '' | '' @ ''8.8.8.0/24'' @ '' | '' @ ''US | arin'') =
     (15169, ''8.8.8.0/24'')"
  by (rule origin_record_read) (simp_all add: is_space_def)

lemma hex_char_inject:
  assumes "hex_char a = hex_char b" "unat a < 16" "unat b < 16"
  shows "a = b"
proof -
  have c: "(of_char (hex_char x) :: nat) = (if unat x < 10 then 48 + unat x else 87 + unat x)" if "unat x < 16" for x
    using that by (simp add: hex_char_def of_char_of Let_def)
  have "unat a = unat b" using c [OF assms(2)] c [OF assms(3)] assms(1) by (auto split: if_splits)
  then show ?thesis by (rule unsigned_word_eqI)
qed

lemma nibbles_byte:
  fixes a b :: byte
  assumes "hex_char (a AND 0x0F) = hex_char (b AND 0x0F)" "hex_char (drop_bit 4 a) = hex_char (drop_bit 4 b)"
  shows "a = b"
proof -
  have m: "(0x0F :: byte) = mask 4" by (simp add: mask_eq_exp_minus_1)
  have lo: "unat (x AND 0x0F) < 16" and hi: "unat (drop_bit 4 x) < 16" for x :: byte
    unfolding m using take_bit_nat_less_exp [of 4 "unat x"] unsigned_less [of x, where 'a = nat]
    by (simp_all add: take_bit_eq_mask [symmetric] unsigned_take_bit_eq drop_bit_eq_div unat_div_distrib)
  have "a AND mask 4 = b AND mask 4" "drop_bit 4 a = drop_bit 4 b"
    using hex_char_inject [OF assms(1) lo lo] hex_char_inject [OF assms(2) hi hi] by (simp_all add: m)
  then show ?thesis by (metis bits_ident take_bit_eq_mask)
qed

lemma nibbles_inject: "nibbles as = nibbles bs \<Longrightarrow> length as = length bs \<Longrightarrow> as = bs"
proof (induction as arbitrary: bs)
  case (Cons a as)
  then obtain b bs' where bs: "bs = b # bs'" by (cases bs) auto
  have "a = b" using Cons.prems unfolding bs by (auto intro: nibbles_byte)
  moreover have "nibbles as = nibbles bs'" using Cons.prems unfolding bs by (cases "as = []"; cases "bs' = []") auto
  ultimately show ?case using Cons.IH [of bs'] Cons.prems(2) by (simp add: bs)
qed simp

lemma reverseV4_inject:
  assumes "reverseV4 a = reverseV4 b" "length a = 4" "length b = 4"
  shows "a = b"
proof -
  have s: "Split CHR ''.'' (reverseV4 x) = [byte_dec (x ! 3), byte_dec (x ! 2), byte_dec (x ! 1), byte_dec (x ! 0)]" for x
    by (simp add: reverseV4_def byte_dec_def Split_append_sep Split_nosep nat_dec_not_in)
  have e: "byte_dec (a ! i) = byte_dec (b ! i)" if "i < 4" for i
    using s [of a] s [of b] assms(1) that by (auto simp: less_Suc_eq numeral_eq_Suc)
  then show ?thesis using assms(2,3) by (intro nth_equalityI unsigned_word_eqI) (simp_all add: byte_dec_def)
qed

text \<open>
  No two addresses share a question: the DNS names asked for the origins of two different usable
  addresses, of either family, differ.
\<close>

theorem origin_names_distinct:
  assumes "cymru_query a = Some p" "cymru_query b = Some q" "origin_name p = origin_name q"
  shows "p = q"
proof -
  have usable: "length x = 4 \<and> To4 x = Some x \<or> length x = 16 \<and> To4 x = None" if "cymru_query y = Some x" for x y
    using that by (auto simp: cymru_query_def To4_def To16_def split: if_splits option.splits)
  have zones: "x @ ''.'' @ cymruZoneOrigin \<noteq> y @ ''.'' @ cymruZoneOrigin6" for x y
  proof
    assume "x @ ''.'' @ cymruZoneOrigin = y @ ''.'' @ cymruZoneOrigin6"
    from arg_cong [OF this, of rev] show False by (simp add: cymruZoneOrigin_def cymruZoneOrigin6_def)
  qed
  show ?thesis using usable [OF assms(1)] usable [OF assms(2)] assms(3) reverseV4_inject [of p q]
      zones [of "reverseV4 p" "reverseV6Nibbles q"] zones [of "reverseV4 q" "reverseV6Nibbles p"]
      nibbles_inject [of "rev p" "rev q"]
    by (auto simp: origin_name_def reverseV6Nibbles_def)
qed

theorem origin_names_distinct_witness:
  "origin_name [8, 8, 8, 8] \<noteq> origin_name [8, 8, 4, 4]"
  using origin_names_distinct [of "[8, 8, 8, 8]" "[8, 8, 8, 8]" "[8, 8, 4, 4]" "[8, 8, 4, 4]"]
  by (auto simp: cymru_query_def To4_def)

end
