(* ===== verification/Traceroute.thy ===== *)
theory Traceroute
  imports Enrich "HOL-Library.Multiset"
begin

text \<open>
  The packages \<open>traceroute\<close> and \<open>traceroute6\<close>: configuration (\<open>config.go\<close>), probe packets, the matching of
  replies and the collection of hops (\<open>tracer.go\<close>, \<open>hop.go\<close>, \<open>endpoint.go\<close>). A packet is the layers
  that the packet library's dissector gives, with \<open>None\<close> for what is absent or of another type; the
  library's \<open>Sr1\<close>, which sends a probe and waits for a packet that the matcher accepts, is the outcome of each probe. Probes run
  concurrently; the order in which they complete is an argument. Durations are int64 nanoseconds.
\<close>

section \<open>Configuration\<close>

datatype Protocol = ProtoICMP | ProtoUDP | ProtoTCP

definition Protocol_String :: "Protocol \<Rightarrow> string" where
  "Protocol_String p = (case p of ProtoUDP \<Rightarrow> ''UDP'' | ProtoTCP \<Rightarrow> ''TCP'' | ProtoICMP \<Rightarrow> ''ICMP'')"

definition Protocol_String6 :: "Protocol \<Rightarrow> string" where
  "Protocol_String6 p = (case p of ProtoUDP \<Rightarrow> ''UDP'' | ProtoTCP \<Rightarrow> ''TCP'' | ProtoICMP \<Rightarrow> ''ICMPv6'')"

definition ParseProtocol :: "string \<Rightarrow> cfg_error + Protocol" where
  "ParseProtocol s =
     (if s \<in> {''icmp'', ''ICMP'', []} then Inr ProtoICMP
      else if s \<in> {''udp'', ''UDP''} then Inr ProtoUDP
      else if s \<in> {''tcp'', ''TCP''} then Inr ProtoTCP
      else Inl (UnknownProtocol s))"

definition ParseProtocol6 :: "string \<Rightarrow> cfg_error + Protocol" where
  "ParseProtocol6 s =
     (if s \<in> {''icmp'', ''ICMP'', ''icmp6'', ''ICMP6'', ''icmpv6'', ''ICMPv6'', []} then Inr ProtoICMP
      else if s \<in> {''udp'', ''UDP''} then Inr ProtoUDP
      else if s \<in> {''tcp'', ''TCP''} then Inr ProtoTCP
      else Inl (UnknownProtocol s))"

text \<open>One record for both packages: \<open>tc_MaxHops\<close> is \<open>HopLimit\<close> and \<open>tc_TOS\<close> is \<open>TrafficClass\<close> in
  \<open>traceroute6\<close>.\<close>

record trace_Config =
  tc_Targets :: "string list"
  tc_LocalAddr :: string
  tc_Interface :: string
  tc_Protocol :: Protocol
  tc_MaxHops :: int
  tc_Queries :: int
  tc_Port :: u16
  tc_Timeout :: int
  tc_TOS :: int
  tc_SrcPort :: u16
  tc_FixedDstPort :: bool
  tc_SrcIP :: string
  tc_DstIP :: string
  tc_Parallel :: int
  tc_ResolveDNS :: bool

definition DefaultConfig :: trace_Config where
  "DefaultConfig =
     \<lparr>tc_Targets = [], tc_LocalAddr = [], tc_Interface = [], tc_Protocol = ProtoICMP, tc_MaxHops = 30, tc_Queries = 3,
      tc_Port = 33434, tc_Timeout = second, tc_TOS = 0, tc_SrcPort = 0, tc_FixedDstPort = False, tc_SrcIP = [],
      tc_DstIP = [], tc_Parallel = 16, tc_ResolveDNS = True\<rparr>"

definition trace_checks :: "(string \<Rightarrow> bool) \<Rightarrow> (string \<Rightarrow> cfg_error) \<Rightarrow> trace_Config \<Rightarrow> cfg_error option" where
  "trace_checks addr_ok bad_addr c =
     (if tc_Targets c = [] then Some NoTargets
      else if tc_MaxHops c < 1 \<or> tc_MaxHops c > 255 then Some (BadMaxHops (tc_MaxHops c))
      else if tc_Queries c < 1 then Some (BadQueries (tc_Queries c))
      else if tc_Timeout c \<le> 0 then Some (BadTimeout (tc_Timeout c))
      else if tc_Parallel c < 1 then Some (BadParallel (tc_Parallel c))
      else if (tc_Protocol c = ProtoTCP \<or> tc_Protocol c = ProtoUDP) \<and> tc_Port c = 0 then Some PortZero
      else if tc_SrcIP c \<noteq> [] \<and> \<not> addr_ok (tc_SrcIP c) then Some (bad_addr (tc_SrcIP c))
      else if tc_DstIP c \<noteq> [] \<and> \<not> addr_ok (tc_DstIP c) then Some (bad_addr (tc_DstIP c))
      else if tc_Protocol c = ProtoICMP \<and> (tc_SrcPort c \<noteq> 0 \<or> tc_FixedDstPort c) then Some PortsForICMP
      else None)"

definition trace_Validate :: "net_env \<Rightarrow> trace_Config \<Rightarrow> cfg_error option" where
  "trace_Validate env = trace_checks (valid_ip4 env) NotIPv4"

definition isIPv6 :: "net_env \<Rightarrow> string \<Rightarrow> bool" where
  "isIPv6 env s = valid_ip6 env s"

definition trace6_Validate :: "net_env \<Rightarrow> trace_Config \<Rightarrow> cfg_error option" where
  "trace6_Validate env = trace_checks (isIPv6 env) NotIPv6"


section \<open>The local endpoint\<close>

definition interfaceForIP :: "net_env \<Rightarrow> IP \<Rightarrow> string" where
  "interfaceForIP env ip =
     (case e_Interfaces env of
        None \<Rightarrow> []
      | Some ifaces \<Rightarrow>
          (case List.find (\<lambda>i. if_Up i \<and> (case if_Addrs i of
                              None \<Rightarrow> False
                            | Some as \<Rightarrow> (\<exists>a\<in>set as. case a of None \<Rightarrow> False | Some x \<Rightarrow> IP_Equal x ip))) ifaces of
             None \<Rightarrow> []
           | Some i \<Rightarrow> if_Name i))"

text \<open>\<open>dial\<close> gives the local address of a UDP socket connected to a destination.\<close>

definition outboundIP :: "(IP \<Rightarrow> IP option) \<Rightarrow> IP \<Rightarrow> IP option" where
  "outboundIP dial dst = (case dial dst of None \<Rightarrow> None | Some ip \<Rightarrow> To4 ip)"

definition outboundIP6 :: "(IP \<Rightarrow> IP option) \<Rightarrow> IP \<Rightarrow> IP option" where
  "outboundIP6 dial dst = (case dial dst of None \<Rightarrow> None | Some ip \<Rightarrow> if To16 ip \<noteq> None then Some ip else None)"

definition endpoint_iface :: "net_env \<Rightarrow> trace_Config \<Rightarrow> IP \<Rightarrow> cfg_error + IP \<times> string" where
  "endpoint_iface env c srcIP =
     (if tc_Interface c \<noteq> [] then Inr (srcIP, tc_Interface c)
      else let ifn = interfaceForIP env srcIP in if ifn = [] then Inl (NoInterface (e_IPString env srcIP)) else Inr (srcIP, ifn))"

definition parseV4 :: "net_env \<Rightarrow> string \<Rightarrow> IP option" where
  "parseV4 env s = (case e_ParseIP env s of None \<Rightarrow> None | Some ip \<Rightarrow> To4 ip)"

definition parseV6 :: "net_env \<Rightarrow> string \<Rightarrow> IP option" where
  "parseV6 env s =
     (case e_ParseIP env s of None \<Rightarrow> None | Some ip \<Rightarrow> if To4 ip \<noteq> None \<or> To16 ip = None then None else To16 ip)"

definition localEndpoint :: "net_env \<Rightarrow> (IP \<Rightarrow> IP option) \<Rightarrow> trace_Config \<Rightarrow> IP \<Rightarrow> cfg_error + IP \<times> string" where
  "localEndpoint env dial c dst =
     (if tc_LocalAddr c \<noteq> [] then
        (case parseV4 env (tc_LocalAddr c) of
           None \<Rightarrow> Inl (NotIPv4 (tc_LocalAddr c)) | Some ip \<Rightarrow> endpoint_iface env c ip)
      else (case outboundIP dial dst of
              None \<Rightarrow> Inl (NoAddress (e_IPString env dst)) | Some ip \<Rightarrow> endpoint_iface env c ip))"

definition localEndpoint6 :: "net_env \<Rightarrow> (IP \<Rightarrow> IP option) \<Rightarrow> trace_Config \<Rightarrow> IP \<Rightarrow> cfg_error + IP \<times> string" where
  "localEndpoint6 env dial c dst =
     (if tc_LocalAddr c \<noteq> [] then
        (if valid_ip6 env (tc_LocalAddr c) then
           endpoint_iface env c (the (e_ParseIP env (tc_LocalAddr c)))
         else Inl (NotIPv6 (tc_LocalAddr c)))
      else (case outboundIP6 dial dst of
              None \<Rightarrow> Inl (NoAddress (e_IPString env dst)) | Some ip \<Rightarrow> endpoint_iface env c ip))"


section \<open>Probes\<close>

record ip_layer =
  ipl_src :: "IP option"
  ipl_dst :: "IP option"
  ipl_ttl :: byte
  ipl_tos :: byte
  ipl_proto :: byte

record icmp_layer =
  ic_type :: "byte option"
  ic_id :: "u16 option"
  ic_seq :: "u16 option"

record l4_layer =
  l4_sport :: "u16 option"
  l4_dport :: "u16 option"
  l4_flags :: "byte option"
  l4_seq :: "u32 option"

text \<open>\<open>tp_Echo\<close> and \<open>tp_EchoReply\<close> are the layers that hold identifier and sequence number in ICMPv6; in
  ICMP they are in the ICMP layer.\<close>

record tr_packet =
  tp_IP :: "ip_layer option"
  tp_ICMP :: "icmp_layer option"
  tp_Echo :: "icmp_layer option"
  tp_EchoReply :: "icmp_layer option"
  tp_TCP :: "l4_layer option"
  tp_UDP :: "l4_layer option"
  tp_Raw :: "byte list option"

definition no_layers :: tr_packet where
  "no_layers = \<lparr>tp_IP = None, tp_ICMP = None, tp_Echo = None, tp_EchoReply = None, tp_TCP = None, tp_UDP = None, tp_Raw = None\<rparr>"

definition dstPort :: "trace_Config \<Rightarrow> int \<Rightarrow> u16" where
  "dstPort c ttl = (if tc_FixedDstPort c then tc_Port c else tc_Port c + word_of_int ttl)"

definition ephemeralSrcPort :: "u16 \<Rightarrow> int \<Rightarrow> int \<Rightarrow> u16" where
  "ephemeralSrcPort pid ttl probe = 33000 + (pid + word_of_int ttl * 16 + word_of_int probe) mod 30000"

definition udpSrcPort :: "trace_Config \<Rightarrow> u16 \<Rightarrow> int \<Rightarrow> int \<Rightarrow> u16" where
  "udpSrcPort c pid ttl probe = (if tc_SrcPort c \<noteq> 0 then tc_SrcPort c else ephemeralSrcPort pid ttl probe)"

definition tcpSrcPort :: "trace_Config \<Rightarrow> u16 \<Rightarrow> int \<Rightarrow> int \<Rightarrow> u16" where
  "tcpSrcPort c pid ttl probe = (if tc_SrcPort c \<noteq> 0 then tc_SrcPort c else ephemeralSrcPort pid ttl probe)"

definition probePayload :: "int \<Rightarrow> int \<Rightarrow> byte list" where
  "probePayload ttl probe = [word_of_int ttl, word_of_int probe, 0, 0]"

definition echo_seq :: "int \<Rightarrow> int \<Rightarrow> u16" where
  "echo_seq ttl probe = push_bit 8 (word_of_int ttl) OR word_of_int (probe mod 256)"

definition TCPSyn :: byte where "TCPSyn = 0x02"
definition TCPRst :: byte where "TCPRst = 0x04"

definition probe_ip :: "trace_Config \<Rightarrow> IP \<Rightarrow> IP \<Rightarrow> int \<Rightarrow> byte \<Rightarrow> ip_layer" where
  "probe_ip c src dst ttl proto =
     \<lparr>ipl_src = Some src, ipl_dst = Some dst, ipl_ttl = word_of_int ttl, ipl_tos = word_of_int (tc_TOS c), ipl_proto = proto\<rparr>"

definition probe_udp :: "trace_Config \<Rightarrow> u16 \<Rightarrow> int \<Rightarrow> int \<Rightarrow> l4_layer" where
  "probe_udp c pid ttl probe =
     \<lparr>l4_sport = Some (udpSrcPort c pid ttl probe), l4_dport = Some (dstPort c ttl), l4_flags = None, l4_seq = None\<rparr>"

definition probe_tcp :: "trace_Config \<Rightarrow> u16 \<Rightarrow> int \<Rightarrow> int \<Rightarrow> l4_layer" where
  "probe_tcp c pid ttl probe =
     \<lparr>l4_sport = Some (tcpSrcPort c pid ttl probe), l4_dport = Some (tc_Port c), l4_flags = Some TCPSyn,
      l4_seq = Some (push_bit 16 (word_of_int ttl) OR word_of_int probe)\<rparr>"

definition buildProbe :: "trace_Config \<Rightarrow> u16 \<Rightarrow> IP \<Rightarrow> IP \<Rightarrow> int \<Rightarrow> int \<Rightarrow> tr_packet" where
  "buildProbe c pid src dst ttl probe =
     (case tc_Protocol c of
        ProtoUDP \<Rightarrow> no_layers\<lparr>tp_IP := Some (probe_ip c src dst ttl 17), tp_UDP := Some (probe_udp c pid ttl probe),
                      tp_Raw := Some (probePayload ttl probe)\<rparr>
      | ProtoTCP \<Rightarrow> no_layers\<lparr>tp_IP := Some (probe_ip c src dst ttl 6), tp_TCP := Some (probe_tcp c pid ttl probe)\<rparr>
      | ProtoICMP \<Rightarrow> no_layers\<lparr>tp_IP := Some (probe_ip c src dst ttl 1),
                       tp_ICMP := Some \<lparr>ic_type = Some 8, ic_id = Some pid, ic_seq = Some (echo_seq ttl probe)\<rparr>\<rparr>)"

definition buildProbe6 :: "trace_Config \<Rightarrow> u16 \<Rightarrow> IP \<Rightarrow> IP \<Rightarrow> int \<Rightarrow> int \<Rightarrow> tr_packet" where
  "buildProbe6 c pid src dst ttl probe =
     (case tc_Protocol c of
        ProtoUDP \<Rightarrow> no_layers\<lparr>tp_IP := Some (probe_ip c src dst ttl 17), tp_UDP := Some (probe_udp c pid ttl probe),
                      tp_Raw := Some (probePayload ttl probe)\<rparr>
      | ProtoTCP \<Rightarrow> no_layers\<lparr>tp_IP := Some (probe_ip c src dst ttl 6), tp_TCP := Some (probe_tcp c pid ttl probe)\<rparr>
      | ProtoICMP \<Rightarrow> no_layers\<lparr>tp_IP := Some (probe_ip c src dst ttl 58),
                       tp_ICMP := Some \<lparr>ic_type = None, ic_id = None, ic_seq = None\<rparr>,
                       tp_Echo := Some \<lparr>ic_type = None, ic_id = Some pid, ic_seq = Some (echo_seq ttl probe)\<rparr>\<rparr>)"


section \<open>Matching replies\<close>

definition u16_or0 :: "u16 option \<Rightarrow> u16" where
  "u16_or0 v = (case v of None \<Rightarrow> 0 | Some x \<Rightarrow> x)"

definition be16_at :: "byte list \<Rightarrow> nat \<Rightarrow> u16" where
  "be16_at bs i = push_bit 8 (ucast (bs ! i)) OR ucast (bs ! (i + 1))"

definition ident_matches :: "icmp_layer \<Rightarrow> icmp_layer \<Rightarrow> bool" where
  "ident_matches s r \<longleftrightarrow> u16_or0 (ic_id s) = u16_or0 (ic_id r) \<and> u16_or0 (ic_seq s) = u16_or0 (ic_seq r)"

definition echoIdentMatches :: "tr_packet \<Rightarrow> icmp_layer \<Rightarrow> bool" where
  "echoIdentMatches sent recvICMP = (case tp_ICMP sent of None \<Rightarrow> False | Some s \<Rightarrow> ident_matches s recvICMP)"

definition echoIdentMatches6 :: "tr_packet \<Rightarrow> tr_packet \<Rightarrow> bool" where
  "echoIdentMatches6 sent received =
     (case (tp_Echo sent, tp_EchoReply received) of (Some s, Some r) \<Rightarrow> ident_matches s r | _ \<Rightarrow> False)"

text \<open>The end of \<open>matchEmbedded\<close>: the quoted transport header against the one sent. A quote that is too
  short is accepted.\<close>

definition inner_matches :: "Protocol \<Rightarrow> icmp_layer option \<Rightarrow> tr_packet \<Rightarrow> byte list \<Rightarrow> bool" where
  "inner_matches proto sentEcho sent inner =
     (case proto of
        ProtoICMP \<Rightarrow>
          if length inner < 8 then True
          else (case sentEcho of
                  None \<Rightarrow> True
                | Some s \<Rightarrow> be16_at inner 4 = u16_or0 (ic_id s) \<and> be16_at inner 6 = u16_or0 (ic_seq s))
      | _ \<Rightarrow>
          if length inner < 4 then True
          else (case (if proto = ProtoTCP then tp_TCP sent else tp_UDP sent) of
                  None \<Rightarrow> True
                | Some s \<Rightarrow> be16_at inner 0 = u16_or0 (l4_sport s) \<and> be16_at inner 2 = u16_or0 (l4_dport s)))"

definition matchEmbedded :: "Protocol \<Rightarrow> tr_packet \<Rightarrow> tr_packet \<Rightarrow> IP \<Rightarrow> bool" where
  "matchEmbedded proto sent received sentDst =
     (case tp_Raw received of
        None \<Rightarrow> False
      | Some load \<Rightarrow>
          if length load < 20 then False
          else
            let ihl0 = unat (load ! 0 AND 0x0F) * 4;
                ihl = (if ihl0 < 20 \<or> length load < ihl0 then 20 else ihl0)
            in if \<not> IP_Equal (take 4 (drop 16 load)) sentDst then False
               else inner_matches proto (tp_ICMP sent) sent (drop ihl load))"

definition matchEmbedded6 :: "Protocol \<Rightarrow> tr_packet \<Rightarrow> tr_packet \<Rightarrow> IP \<Rightarrow> bool" where
  "matchEmbedded6 proto sent received sentDst =
     (case tp_Raw received of
        None \<Rightarrow> False
      | Some load0 \<Rightarrow>
          if length load0 < 4 + 40 then False
          else
            let load = drop 4 load0
            in if \<not> IP_Equal (take 16 (drop 24 load)) sentDst then False
               else inner_matches proto (tp_Echo sent) sent (drop 40 load))"

definition from_destination :: "ip_layer \<Rightarrow> IP \<Rightarrow> bool" where
  "from_destination recvIP sentDst = (case ipl_src recvIP of None \<Rightarrow> False | Some src \<Rightarrow> IP_Equal src sentDst)"

text \<open>The body that the matchers of both packages share; they differ in the ICMP types and in the two
  comparisons.\<close>

definition match_reply ::
    "byte \<Rightarrow> byte set \<Rightarrow> (tr_packet \<Rightarrow> icmp_layer \<Rightarrow> bool) \<Rightarrow> (tr_packet \<Rightarrow> tr_packet \<Rightarrow> IP \<Rightarrow> bool) \<Rightarrow>
     Protocol \<Rightarrow> tr_packet \<Rightarrow> tr_packet \<Rightarrow> bool" where
  "match_reply echoReply errors echoMatches embedded proto sent received =
     (case tp_IP received of None \<Rightarrow> False | Some recvIP \<Rightarrow>
     (case tp_IP sent of None \<Rightarrow> False | Some sentIP \<Rightarrow>
     (case ipl_dst sentIP of None \<Rightarrow> False | Some sentDst \<Rightarrow>
        if proto = ProtoTCP \<and> tp_ICMP received = None \<and> tp_TCP received \<noteq> None then from_destination recvIP sentDst
        else
          (case tp_ICMP received of None \<Rightarrow> False | Some recvICMP \<Rightarrow>
          (case ic_type recvICMP of None \<Rightarrow> False | Some icmpType \<Rightarrow>
             if icmpType = echoReply then
               proto = ProtoICMP \<and> from_destination recvIP sentDst \<and> echoMatches sent recvICMP
             else if icmpType \<in> errors then embedded sent received sentDst
             else False)))))"

definition buildMatcher :: "Protocol \<Rightarrow> tr_packet \<Rightarrow> tr_packet \<Rightarrow> bool" where
  "buildMatcher proto = match_reply 0 {3, 11} echoIdentMatches (matchEmbedded proto) proto"

definition buildMatcher6 :: "Protocol \<Rightarrow> tr_packet \<Rightarrow> tr_packet \<Rightarrow> bool" where
  "buildMatcher6 proto sent received =
     match_reply 129 {1, 3} (\<lambda>s _. echoIdentMatches6 s received) (matchEmbedded6 proto) proto sent received"

definition extract_reply :: "byte \<Rightarrow> byte \<Rightarrow> Protocol \<Rightarrow> tr_packet \<Rightarrow> IP option \<times> bool" where
  "extract_reply echoReply unreach proto resp =
     (let frm = (case tp_IP resp of None \<Rightarrow> None | Some l \<Rightarrow> ipl_src l);
          icmp = (case tp_ICMP resp of
                    None \<Rightarrow> False
                  | Some ic \<Rightarrow> (case ic_type ic of
                                 None \<Rightarrow> False
                               | Some t \<Rightarrow> t = echoReply \<or> t = unreach \<and> proto = ProtoUDP));
          tcp = (proto = ProtoTCP \<and>
                 (case tp_TCP resp of
                    None \<Rightarrow> False
                  | Some l \<Rightarrow> (case l4_flags l of
                                None \<Rightarrow> False | Some fl \<Rightarrow> fl AND TCPSyn \<noteq> 0 \<or> fl AND TCPRst \<noteq> 0)))
      in (frm, icmp \<or> tcp))"

definition extractReply :: "Protocol \<Rightarrow> tr_packet \<Rightarrow> IP option \<times> bool" where
  "extractReply = extract_reply 0 3"

definition extractReply6 :: "Protocol \<Rightarrow> tr_packet \<Rightarrow> IP option \<times> bool" where
  "extractReply6 = extract_reply 129 1"

record ProbeResult =
  pr_FromIP :: "IP option"
  pr_RTT :: int
  pr_Reached :: bool
  pr_TimedOut :: bool

text \<open>\<open>resp\<close> is what \<open>Sr1\<close> returned, \<open>None\<close> for an error or no reply in time.\<close>

definition sendProbe :: "trace_Config \<Rightarrow> tr_packet option \<Rightarrow> int \<Rightarrow> ProbeResult" where
  "sendProbe c resp rtt =
     (case resp of
        None \<Rightarrow> \<lparr>pr_FromIP = None, pr_RTT = 0, pr_Reached = False, pr_TimedOut = True\<rparr>
      | Some r \<Rightarrow> (let (frm, reached) = extractReply (tc_Protocol c) r
                    in \<lparr>pr_FromIP = frm, pr_RTT = rtt, pr_Reached = reached, pr_TimedOut = False\<rparr>))"

definition sendProbe6 :: "trace_Config \<Rightarrow> tr_packet option \<Rightarrow> int \<Rightarrow> ProbeResult" where
  "sendProbe6 c resp rtt =
     (case resp of
        None \<Rightarrow> \<lparr>pr_FromIP = None, pr_RTT = 0, pr_Reached = False, pr_TimedOut = True\<rparr>
      | Some r \<Rightarrow> (let (frm, reached) = extractReply6 (tc_Protocol c) r
                    in \<lparr>pr_FromIP = frm, pr_RTT = rtt, pr_Reached = reached, pr_TimedOut = False\<rparr>))"

section \<open>Hops\<close>

record Hop =
  hp_TTL :: int
  hp_Probes :: "ProbeResult list"
  hp_Addrs :: "IP list"
  hp_Hosts :: "string list"
  hp_Infos :: "IPInfo option list"

definition replied :: "Hop \<Rightarrow> ProbeResult list" where
  "replied h = filter (\<lambda>p. \<not> pr_TimedOut p) (hp_Probes h)"

definition sortedRTTs :: "Hop \<Rightarrow> int list" where
  "sortedRTTs h = sort (map pr_RTT (replied h))"

definition Hop_Received :: "Hop \<Rightarrow> nat" where
  "Hop_Received h = length (replied h)"

text \<open>\<open>LossRate\<close> as the exact quotient of the two counts.\<close>

definition LossRate :: "Hop \<Rightarrow> rat" where
  "LossRate h =
     (if hp_Probes h = [] then 0
      else (of_nat (length (hp_Probes h)) - of_nat (Hop_Received h)) / of_nat (length (hp_Probes h)))"

definition MinRTT :: "Hop \<Rightarrow> int" where
  "MinRTT h = (let rtts = sortedRTTs h in if rtts = [] then 0 else rtts ! 0)"

definition MaxRTT :: "Hop \<Rightarrow> int" where
  "MaxRTT h = (let rtts = sortedRTTs h in if rtts = [] then 0 else rtts ! (length rtts - 1))"

definition AvgRTT :: "Hop \<Rightarrow> int" where
  "AvgRTT h =
     (let rtts = sortedRTTs h
      in if rtts = [] then 0 else fold (\<lambda>r s. i64 (s + r)) rtts 0 sdiv int (length rtts))"

definition Hop_Reached :: "Hop \<Rightarrow> bool" where
  "Hop_Reached h \<longleftrightarrow> (\<exists>p\<in>set (hp_Probes h). pr_Reached p)"

definition addAddr :: "IP \<Rightarrow> Hop \<Rightarrow> Hop" where
  "addAddr ip h =
     (if \<exists>a\<in>set (hp_Addrs h). IP_Equal a ip then h
      else h\<lparr>hp_Addrs := hp_Addrs h @ [ip], hp_Hosts := hp_Hosts h @ [[]], hp_Infos := hp_Infos h @ [None]\<rparr>)"

definition appendProbe :: "ProbeResult \<Rightarrow> Hop \<Rightarrow> Hop" where
  "appendProbe pr h =
     (let h = h\<lparr>hp_Probes := hp_Probes h @ [pr]\<rparr>
      in case pr_FromIP pr of None \<Rightarrow> h | Some ip \<Rightarrow> addAddr ip h)"

record Result =
  rs_Dst :: string
  rs_DstIP :: "IP option"
  rs_Proto :: Protocol
  rs_MaxHops :: int
  rs_Hops :: "Hop list"
  rs_Reached :: bool

text \<open>\<open>finalize\<close>: the first hop with a probe that reached the destination ends the list.\<close>

fun first_reached :: "Hop list \<Rightarrow> nat option" where
  "first_reached [] = None"
| "first_reached (h # hs) = (if Hop_Reached h then Some 0 else map_option Suc (first_reached hs))"

definition finalize :: "Result \<Rightarrow> Result" where
  "finalize res =
     (case first_reached (rs_Hops res) of
        None \<Rightarrow> res
      | Some i \<Rightarrow> res\<lparr>rs_Reached := True, rs_Hops := take (i + 1) (rs_Hops res)\<rparr>)"

definition empty_hop :: "int \<Rightarrow> Hop" where
  "empty_hop ttl = \<lparr>hp_TTL = ttl, hp_Probes = [], hp_Addrs = [], hp_Hosts = [], hp_Infos = []\<rparr>"

text \<open>The probes of a target in the order in which they complete, each with its TTL.\<close>

type_synonym completions = "(int \<times> ProbeResult) list"

definition record_probe :: "int \<times> ProbeResult \<Rightarrow> Hop list \<Rightarrow> Hop list" where
  "record_probe e hops = hops[nat (fst e - 1) := appendProbe (snd e) (hops ! nat (fst e - 1))]"

definition traceTarget :: "trace_Config \<Rightarrow> string \<Rightarrow> IP \<Rightarrow> completions \<Rightarrow> Result" where
  "traceTarget c dst dstIP evs =
     finalize \<lparr>rs_Dst = dst, rs_DstIP = Some dstIP, rs_Proto = tc_Protocol c, rs_MaxHops = tc_MaxHops c,
               rs_Hops = fold record_probe evs (map (\<lambda>i. empty_hop (int i + 1)) [0..<nat (tc_MaxHops c)]),
               rs_Reached = False\<rparr>"

end
