(* ===== verification/Trace_Hops.thy ===== *)
theory Trace_Hops
  imports Traceroute
begin

text \<open>
  From probes to a result: the runs of \<open>traceroute\<close> and \<open>traceroute6\<close> (\<open>Run\<close>, \<open>resolveHosts\<close>, \<open>enrichHops\<close>), and the
  properties of the hops they return. A write to a slot that does not exist would panic; it is the
  value \<open>None\<close>.
\<close>

section \<open>Names and metadata of the hops\<close>

definition fill :: "(IP \<Rightarrow> 'a) \<Rightarrow> IP list \<Rightarrow> 'a list \<Rightarrow> 'a list option" where
  "fill f addrs slots =
     (if length addrs \<le> length slots then Some (map f addrs @ drop (length addrs) slots) else None)"

definition map_hops :: "(Hop \<Rightarrow> Hop option) \<Rightarrow> Result list \<Rightarrow> Result list option" where
  "map_hops f results =
     those (map (\<lambda>r. map_option (\<lambda>hs. r\<lparr>rs_Hops := hs\<rparr>) (those (map f (rs_Hops r)))) results)"

definition all_addrs :: "Result list \<Rightarrow> IP list" where
  "all_addrs results = concat (map (\<lambda>r. concat (map hp_Addrs (rs_Hops r))) results)"

definition host_name :: "(string \<Rightarrow> string list option) \<Rightarrow> string \<Rightarrow> string" where
  "host_name LookupAddr key = (case LookupAddr key of Some (name # _) \<Rightarrow> name | _ \<Rightarrow> [])"

text \<open>The lookups fill a cache; a key that is already there, be it only marked, is not asked again.\<close>

fun host_cache :: "(string \<Rightarrow> string list option) \<Rightarrow> string list \<Rightarrow> (string \<rightharpoonup> string) \<Rightarrow> (string \<rightharpoonup> string)" where
  "host_cache LookupAddr [] cache = cache"
| "host_cache LookupAddr (key # keys) cache =
     (if cache key \<noteq> None then host_cache LookupAddr keys cache
      else host_cache LookupAddr keys (cache(key \<mapsto> host_name LookupAddr key)))"

definition resolveHosts :: "net_env \<Rightarrow> (string \<Rightarrow> string list option) \<Rightarrow> Result list \<Rightarrow> Result list option" where
  "resolveHosts env LookupAddr results =
     (let cache = host_cache LookupAddr (map (e_IPString env) (all_addrs results)) Map.empty;
          name = (\<lambda>addr. case cache (e_IPString env addr) of None \<Rightarrow> [] | Some n \<Rightarrow> n)
      in map_hops (\<lambda>h. map_option (\<lambda>hs. h\<lparr>hp_Hosts := hs\<rparr>) (fill name (hp_Addrs h) (hp_Hosts h))) results)"

fun distinct_keys :: "(IP \<Rightarrow> string) \<Rightarrow> IP list \<Rightarrow> string list \<Rightarrow> IP list" where
  "distinct_keys key [] seen = []"
| "distinct_keys key (ip # ips) seen =
     (if key ip \<in> set seen then distinct_keys key ips seen else ip # distinct_keys key ips (key ip # seen))"

definition enrichHops :: "net_env \<Rightarrow> provider list \<Rightarrow> Result list \<Rightarrow> Result list option" where
  "enrichHops env providers results =
     (let ips = distinct_keys (e_IPString env) (all_addrs results) []
      in if providers = [] \<or> ips = [] then Some results
         else
           let infos = Resolve providers ips
           in map_hops (\<lambda>h. map_option (\<lambda>is. h\<lparr>hp_Infos := is\<rparr>)
                 (fill (\<lambda>addr. infos (e_IPString env addr)) (hp_Addrs h) (hp_Infos h))) results)"


section \<open>A run\<close>

text \<open>\<open>probes i\<close> are the completed probes of the target with index \<open>i\<close>. \<open>parse\<close> reads an address of the family,
  \<open>endpoint\<close> is the search for the local endpoint.\<close>

definition probe_addr :: "(string \<Rightarrow> IP option) \<Rightarrow> (string \<Rightarrow> cfg_error) \<Rightarrow> string \<Rightarrow> IP \<Rightarrow> cfg_error + IP" where
  "probe_addr parse bad s ip =
     (if s = [] then Inr ip else case parse s of None \<Rightarrow> Inl (bad s) | Some ip' \<Rightarrow> Inr ip')"

fun trace_targets ::
    "(string \<Rightarrow> IP option) \<Rightarrow> (string \<Rightarrow> cfg_error) \<Rightarrow> (IP \<Rightarrow> cfg_error + IP \<times> string) \<Rightarrow> trace_Config \<Rightarrow>
     (nat \<Rightarrow> completions) \<Rightarrow> nat \<Rightarrow> string list \<Rightarrow> cfg_error + Result list" where
  "trace_targets parse bad endpoint c probes i [] = Inr []"
| "trace_targets parse bad endpoint c probes i (dst # dsts) =
     (case parse dst of
        None \<Rightarrow>
          (case trace_targets parse bad endpoint c probes (i + 1) dsts of
             Inl e \<Rightarrow> Inl e
           | Inr rs \<Rightarrow> Inr (\<lparr>rs_Dst = dst, rs_DstIP = None, rs_Proto = tc_Protocol c, rs_MaxHops = tc_MaxHops c,
                              rs_Hops = [], rs_Reached = False\<rparr> # rs))
      | Some dstIP \<Rightarrow>
          (case probe_addr parse bad (tc_DstIP c) dstIP of Inl e \<Rightarrow> Inl e | Inr probeDst \<Rightarrow>
          (case endpoint probeDst of Inl e \<Rightarrow> Inl e | Inr (srcIP, ifn) \<Rightarrow>
          (case probe_addr parse bad (tc_SrcIP c) srcIP of Inl e \<Rightarrow> Inl e | Inr srcIP' \<Rightarrow>
          (case trace_targets parse bad endpoint c probes (i + 1) dsts of
             Inl e \<Rightarrow> Inl e
           | Inr rs \<Rightarrow> Inr (traceTarget c dst dstIP (probes i) # rs))))))"

definition finish_run :: "net_env \<Rightarrow> (string \<Rightarrow> string list option) \<Rightarrow> provider list \<Rightarrow> trace_Config \<Rightarrow> Result list \<Rightarrow> Result list option" where
  "finish_run env LookupAddr providers c results =
     (case (if tc_ResolveDNS c then resolveHosts env LookupAddr results else Some results) of
        None \<Rightarrow> None
      | Some rs \<Rightarrow> if providers \<noteq> [] then enrichHops env providers rs else Some rs)"

definition trace_Run ::
    "net_env \<Rightarrow> (IP \<Rightarrow> IP option) \<Rightarrow> (string \<Rightarrow> string list option) \<Rightarrow> provider list \<Rightarrow> trace_Config \<Rightarrow> (nat \<Rightarrow> completions) \<Rightarrow>
     cfg_error + Result list option" where
  "trace_Run env dial LookupAddr providers c probes =
     (case trace_targets (parseV4 env) NotIPv4 (localEndpoint env dial c) c probes 0 (tc_Targets c) of
        Inl e \<Rightarrow> Inl e | Inr rs \<Rightarrow> Inr (finish_run env LookupAddr providers c rs))"

definition trace6_Run ::
    "net_env \<Rightarrow> (IP \<Rightarrow> IP option) \<Rightarrow> (string \<Rightarrow> string list option) \<Rightarrow> provider list \<Rightarrow> trace_Config \<Rightarrow> (nat \<Rightarrow> completions) \<Rightarrow>
     cfg_error + Result list option" where
  "trace6_Run env dial LookupAddr providers c probes =
     (case trace_targets (parseV6 env) NotIPv6 (localEndpoint6 env dial c) c probes 0 (tc_Targets c) of
        Inl e \<Rightarrow> Inl e | Inr rs \<Rightarrow> Inr (finish_run env LookupAddr providers c rs))"


section \<open>Addresses up to their two forms\<close>

definition canon :: "IP \<Rightarrow> IP" where
  "canon ip = (if length ip = 4 then v4InV6Prefix @ ip else ip)"

lemma length_v4InV6Prefix [simp]: "length v4InV6Prefix = 12"
  by (simp add: v4InV6Prefix_def)

lemma IP_Equal_canon: "IP_Equal a b \<longleftrightarrow> canon a = canon b"
proof -
  have e: "v4InV6Prefix @ x = y \<longleftrightarrow> take 12 y = v4InV6Prefix \<and> x = drop 12 y" if "length y = 16" for x y :: "byte list"
    using that by (metis append_eq_conv_conj append_take_drop_id length_v4InV6Prefix)
  have e': "y = v4InV6Prefix @ x \<longleftrightarrow> take 12 y = v4InV6Prefix \<and> x = drop 12 y" if "length y = 16" for x y :: "byte list"
    using e [OF that, of x] by metis
  have "length (canon x) = (if length x = 4 then 16 else length x)" for x by (simp add: canon_def)
  then show ?thesis
    by (cases "length a = 4"; cases "length b = 4"; cases "length a = 16"; cases "length b = 16")
      (auto simp: IP_Equal_def canon_def e e' dest: arg_cong [of _ _ length])
qed

section \<open>What a hop holds\<close>

definition hop_ok :: "Hop \<Rightarrow> bool" where
  "hop_ok h \<longleftrightarrow> length (hp_Hosts h) = length (hp_Addrs h) \<and> length (hp_Infos h) = length (hp_Addrs h) \<and>
     distinct (map canon (hp_Addrs h)) \<and>
     canon ` set (hp_Addrs h) = {canon ip |ip. \<exists>p\<in>set (hp_Probes h). pr_FromIP p = Some ip}"

lemma hop_ok_empty: "hop_ok (empty_hop ttl)"
  by (simp add: hop_ok_def empty_hop_def)

lemma appendProbe_fields [simp]:
  "hp_Probes (appendProbe pr h) = hp_Probes h @ [pr]" "hp_TTL (appendProbe pr h) = hp_TTL h"
  by (auto simp: appendProbe_def addAddr_def Let_def split: option.splits)

lemma hop_ok_append:
  assumes "hop_ok h"
  shows "hop_ok (appendProbe pr h)"
proof (cases "pr_FromIP pr")
  case None
  then show ?thesis using assms by (auto simp: hop_ok_def appendProbe_def Let_def)
next
  case (Some ip)
  have new: "(\<exists>a\<in>set (hp_Addrs h). IP_Equal a ip) \<longleftrightarrow> canon ip \<in> canon ` set (hp_Addrs h)"
    by (auto simp: IP_Equal_canon intro: rev_image_eqI)
  have s: "{canon x |x. \<exists>p\<in>set (hp_Probes h @ [pr]). pr_FromIP p = Some x} =
      insert (canon ip) {canon x |x. \<exists>p\<in>set (hp_Probes h). pr_FromIP p = Some x}"
    using Some by auto
  show ?thesis
  proof (cases "\<exists>a\<in>set (hp_Addrs h). IP_Equal a ip")
    case True
    then have "appendProbe pr h = h\<lparr>hp_Probes := hp_Probes h @ [pr]\<rparr>"
      using Some by (simp add: appendProbe_def addAddr_def)
    then show ?thesis using assms True new s unfolding hop_ok_def by (simp add: insert_absorb)
  next
    case False
    then have "appendProbe pr h = h\<lparr>hp_Probes := hp_Probes h @ [pr], hp_Addrs := hp_Addrs h @ [ip],
        hp_Hosts := hp_Hosts h @ [[]], hp_Infos := hp_Infos h @ [None]\<rparr>"
      using Some by (simp add: appendProbe_def addAddr_def)
    then show ?thesis using assms False new s unfolding hop_ok_def by simp
  qed
qed

text \<open>The hops after all probes: hop \<open>i\<close> holds the results of TTL \<open>i + 1\<close> in completion order.\<close>

definition start_hops :: "int \<Rightarrow> Hop list" where
  "start_hops n = map (\<lambda>i. empty_hop (int i + 1)) [0..<nat n]"

lemma record_hops:
  "length (fold record_probe evs hops) = length hops \<and>
   (i < length hops \<longrightarrow>
      hp_TTL (fold record_probe evs hops ! i) = hp_TTL (hops ! i) \<and>
      hp_Probes (fold record_probe evs hops ! i) =
        hp_Probes (hops ! i) @ map snd (filter (\<lambda>e. nat (fst e - 1) = i) evs) \<and>
      (hop_ok (hops ! i) \<longrightarrow> hop_ok (fold record_probe evs hops ! i)))"
proof (induction evs arbitrary: hops)
  case (Cons e es)
  show ?case using Cons [of "record_probe e hops"]
    by (cases "i < length hops"; cases "nat (fst e - 1) = i") (auto simp: record_probe_def hop_ok_append)
qed simp

lemma traced_hop:
  fixes evs :: completions
  assumes "i < nat (tc_MaxHops c)"
  defines "h \<equiv> fold record_probe evs (start_hops (tc_MaxHops c)) ! i"
  shows "hp_TTL h = int i + 1" "hp_Probes h = map snd (filter (\<lambda>e. nat (fst e - 1) = i) evs)" "hop_ok h"
  using record_hops [of evs "start_hops (tc_MaxHops c)" i] assms(1)
  by (simp_all add: h_def start_hops_def hop_ok_empty) (simp_all add: empty_hop_def)

lemma length_traced [simp]: "length (fold record_probe evs (start_hops n)) = nat n"
  using record_hops [of evs "start_hops n" 0] by (simp add: start_hops_def)

lemma first_reached_None: "first_reached hs = None \<longleftrightarrow> (\<forall>h\<in>set hs. \<not> Hop_Reached h)"
  by (induction hs) auto

lemma first_reached_Some:
  "first_reached hs = Some i \<longleftrightarrow> i < length hs \<and> Hop_Reached (hs ! i) \<and> (\<forall>j<i. \<not> Hop_Reached (hs ! j))"
proof (induction hs arbitrary: i)
  case (Cons h hs)
  show ?case
  proof (cases i)
    case (Suc k)
    then show ?thesis using Cons [of k] by (auto simp: All_less_Suc2)
  qed auto
qed simp

definition reached_at :: "completions \<Rightarrow> nat \<Rightarrow> bool" where
  "reached_at evs i \<longleftrightarrow> (\<exists>e\<in>set evs. nat (fst e - 1) = i \<and> pr_Reached (snd e))"

lemma traced_reached:
  "i < nat (tc_MaxHops c) \<Longrightarrow>
   Hop_Reached (fold record_probe evs (start_hops (tc_MaxHops c)) ! i) \<longleftrightarrow> reached_at evs i"
  by (simp add: Hop_Reached_def traced_hop(2) reached_at_def) (metis fst_conv snd_conv prod.collapse)

text \<open>The result in closed form: all hops when no probe reached the destination, else those up to the first
  TTL with such a probe.\<close>

lemma traceTarget_closed:
  "traceTarget c dst ip evs =
     \<lparr>rs_Dst = dst, rs_DstIP = Some ip, rs_Proto = tc_Protocol c, rs_MaxHops = tc_MaxHops c,
      rs_Hops = take (if \<exists>i<nat (tc_MaxHops c). reached_at evs i then (LEAST i. reached_at evs i) + 1 else nat (tc_MaxHops c))
                  (fold record_probe evs (start_hops (tc_MaxHops c))),
      rs_Reached = (\<exists>i<nat (tc_MaxHops c). reached_at evs i)\<rparr>"
proof -
  let ?hops = "fold record_probe evs (start_hops (tc_MaxHops c))" and ?n = "nat (tc_MaxHops c)"
  have t: "traceTarget c dst ip evs = finalize \<lparr>rs_Dst = dst, rs_DstIP = Some ip, rs_Proto = tc_Protocol c,
      rs_MaxHops = tc_MaxHops c, rs_Hops = ?hops, rs_Reached = False\<rparr>"
    by (simp add: traceTarget_def start_hops_def)
  show ?thesis
  proof (cases "first_reached ?hops")
    case None
    then have "\<not> reached_at evs i" if "i < ?n" for i
      using that by (metis first_reached_None length_traced nth_mem traced_reached)
    then have "\<not> (\<exists>i<?n. reached_at evs i)" by blast
    then show ?thesis using None by (auto simp: t finalize_def)
  next
    case (Some i)
    then have i: "i < ?n" "reached_at evs i" "\<forall>j<i. \<not> reached_at evs j"
      by (auto simp: first_reached_Some traced_reached)
    then have "(LEAST i. reached_at evs i) = i" by (metis LeastI_ex Least_le linorder_neqE_nat not_le)
    then show ?thesis using Some i by (auto simp: t finalize_def)
  qed
qed

text \<open>
  C14. The hops of a result are a prefix of the path: their TTLs are 1, 2, 3 and so on, only the last hop
  may have reached the destination, the result is marked reached exactly when a probe reached it, and
  without one all hops up to the maximum are listed.
\<close>

theorem trace_ends_at_destination:
  assumes "res = traceTarget c dst ip evs" "\<forall>e\<in>set evs. 1 \<le> fst e \<and> fst e \<le> tc_MaxHops c"
  shows "map hp_TTL (rs_Hops res) = map (\<lambda>i. int i + 1) [0..<length (rs_Hops res)] \<and>
    (\<forall>i<length (rs_Hops res) - 1. \<not> Hop_Reached (rs_Hops res ! i)) \<and>
    (rs_Reached res \<longleftrightarrow> (\<exists>e\<in>set evs. pr_Reached (snd e))) \<and>
    (if rs_Reached res then rs_Hops res \<noteq> [] \<and> Hop_Reached (last (rs_Hops res))
     else length (rs_Hops res) = nat (tc_MaxHops c))"
proof -
  let ?hops = "fold record_probe evs (start_hops (tc_MaxHops c))" and ?n = "nat (tc_MaxHops c)"
  define m where "m = (if \<exists>i<?n. reached_at evs i then (LEAST i. reached_at evs i) + 1 else ?n)"
  have some: "(\<exists>i<?n. reached_at evs i) \<longleftrightarrow> (\<exists>e\<in>set evs. pr_Reached (snd e))"
    using assms(2) by (force simp: reached_at_def)
  have least: "(LEAST i. reached_at evs i) < ?n" "reached_at evs (LEAST i. reached_at evs i)" if "i < ?n" "reached_at evs i" for i
    using that by (auto intro: LeastI le_less_trans [OF Least_le])
  then have mn: "m \<le> ?n" unfolding m_def by (auto simp: Suc_le_eq)
  have r: "rs_Hops res = take m ?hops" "rs_Reached res \<longleftrightarrow> (\<exists>i<?n. reached_at evs i)"
    by (simp_all add: assms(1) traceTarget_closed m_def)
  have len: "length (rs_Hops res) = m" using mn by (simp add: r(1))
  have no: "\<not> Hop_Reached (rs_Hops res ! i)" if "i < m - 1" for i
  proof -
    have "\<not> reached_at evs i" using that not_less_Least [of i "reached_at evs"] by (auto simp: m_def split: if_splits)
    then show ?thesis using that mn by (simp add: r(1) traced_reached)
  qed
  have ttl: "map hp_TTL (rs_Hops res) = map (\<lambda>i. int i + 1) [0..<m]"
    by (rule nth_equalityI) (use mn in \<open>auto simp: r(1) traced_hop(1)\<close>)
  have "rs_Hops res \<noteq> [] \<and> Hop_Reached (last (rs_Hops res))" if ex: "\<exists>i<?n. reached_at evs i"
  proof -
    have m: "m = (LEAST i. reached_at evs i) + 1" using ex by (simp add: m_def)
    then have "rs_Hops res \<noteq> []" using len by auto
    moreover have "last (rs_Hops res) = ?hops ! (m - 1)" using calculation len mn m by (simp add: last_conv_nth r(1))
    ultimately show ?thesis using ex least m by (auto simp: traced_reached)
  qed
  then show ?thesis using ttl no len some r(2) by (auto simp: m_def)
qed

definition demo_hops :: trace_Config where
  "demo_hops = DefaultConfig\<lparr>tc_Targets := [''192.0.2.9''], tc_MaxHops := 4\<rparr>"

definition demo_done :: completions where
  "demo_done =
     [(3, \<lparr>pr_FromIP = Some [192, 0, 2, 9], pr_RTT = 30, pr_Reached = True, pr_TimedOut = False\<rparr>),
      (1, \<lparr>pr_FromIP = Some [10, 0, 0, 1], pr_RTT = 10, pr_Reached = False, pr_TimedOut = False\<rparr>),
      (4, \<lparr>pr_FromIP = Some [192, 0, 2, 9], pr_RTT = 31, pr_Reached = True, pr_TimedOut = False\<rparr>),
      (2, \<lparr>pr_FromIP = None, pr_RTT = 0, pr_Reached = False, pr_TimedOut = True\<rparr>)]"

theorem trace_ends_at_destination_witness:
  "rs_Reached (traceTarget demo_hops ''x'' [192, 0, 2, 9] demo_done) \<and>
   length (rs_Hops (traceTarget demo_hops ''x'' [192, 0, 2, 9] demo_done)) = 3"
proof -
  have "rs_Reached (traceTarget demo_hops ''x'' [192, 0, 2, 9] demo_done)"
    using trace_ends_at_destination [OF refl, of demo_done demo_hops "''x''" "[192, 0, 2, 9]"]
    by (simp add: demo_done_def demo_hops_def DefaultConfig_def)
  moreover have "length (rs_Hops (traceTarget demo_hops ''x'' [192, 0, 2, 9] demo_done)) = 3" by code_simp
  ultimately show ?thesis by simp
qed

text \<open>
  A Destination Unreachable ends a UDP trace whatever its code and whoever sent it: a router on the way
  that answers with it (no route, administratively prohibited) makes the target count as reached, and no
  hop behind that router is listed.
\<close>

theorem udp_unreachable_ends_trace:
  assumes "tc_Protocol c = ProtoUDP" "(ttl, sendProbe c (Some r) rtt) \<in> set evs" "1 \<le> ttl" "ttl \<le> tc_MaxHops c"
    and "tp_ICMP r = Some ic" "ic_type ic = Some 3"
  shows "rs_Reached (traceTarget c dst ip evs) \<and> int (length (rs_Hops (traceTarget c dst ip evs))) \<le> ttl"
proof -
  have "pr_Reached (sendProbe c (Some r) rtt)"
    using assms by (simp add: sendProbe_def extractReply_def extract_reply_def)
  then have at: "reached_at evs (nat (ttl - 1))" using assms(2) by (force simp: reached_at_def)
  moreover have "nat (ttl - 1) < nat (tc_MaxHops c)" using assms by simp
  ultimately have some: "\<exists>i<nat (tc_MaxHops c). reached_at evs i" by blast
  have "(LEAST i. reached_at evs i) \<le> nat (ttl - 1)" using at by (rule Least_le)
  then show ?thesis using some assms(3) by (simp add: traceTarget_closed)
qed

definition demo_prohibited :: tr_packet where
  "demo_prohibited = no_layers\<lparr>
     tp_IP := Some \<lparr>ipl_src = Some [10, 0, 0, 1], ipl_dst = Some [10, 0, 0, 9], ipl_ttl = 64, ipl_tos = 0, ipl_proto = 1\<rparr>,
     tp_ICMP := Some \<lparr>ic_type = Some 3, ic_id = None, ic_seq = None\<rparr>\<rparr>"

theorem udp_unreachable_ends_trace_witness:
  "let c = demo_hops\<lparr>tc_Protocol := ProtoUDP\<rparr>
   in rs_Reached (traceTarget c ''x'' [192, 0, 2, 9] ((2, sendProbe c (Some demo_prohibited) 5) # demo_done)) \<and>
      int (length (rs_Hops (traceTarget c ''x'' [192, 0, 2, 9] ((2, sendProbe c (Some demo_prohibited) 5) # demo_done)))) \<le> 2"
  unfolding Let_def
  by (rule udp_unreachable_ends_trace [where r = demo_prohibited and rtt = 5 and ic = "\<lparr>ic_type = Some 3, ic_id = None, ic_seq = None\<rparr>"])
    (simp_all add: demo_hops_def demo_prohibited_def DefaultConfig_def)

section \<open>The order of completion does not matter\<close>

lemma sort_mset_cong: "mset xs = mset ys \<Longrightarrow> sort xs = sort ys" for xs ys :: "int list"
  by (metis sorted_list_of_multiset_mset)

lemma hop_summary:
  assumes "mset (hp_Probes h) = mset (hp_Probes h')"
  shows "sortedRTTs h = sortedRTTs h'" "Hop_Received h = Hop_Received h'" "LossRate h = LossRate h'"
    "MinRTT h = MinRTT h'" "AvgRTT h = AvgRTT h'" "MaxRTT h = MaxRTT h'"
proof -
  have f: "mset (replied h) = mset (replied h')" using assms by (simp add: replied_def mset_filter)
  then show s: "sortedRTTs h = sortedRTTs h'" unfolding sortedRTTs_def by (intro sort_mset_cong) simp
  show n: "Hop_Received h = Hop_Received h'" unfolding Hop_Received_def by (rule mset_eq_length [OF f])
  have "hp_Probes h = [] \<longleftrightarrow> hp_Probes h' = []" by (metis assms mset_zero_iff)
  then show "LossRate h = LossRate h'" by (simp add: LossRate_def n mset_eq_length [OF assms])
  show "MinRTT h = MinRTT h'" "AvgRTT h = AvgRTT h'" "MaxRTT h = MaxRTT h'"
    by (simp_all add: MinRTT_def AvgRTT_def MaxRTT_def s)
qed

text \<open>
  C20. The report does not depend on the scheduling of the probes: for any two orders in which the same
  probes complete, the result has the same number of hops and the same verdict, and every hop has the
  same TTL, probe outcomes, responding addresses (up to the two forms of an IPv4 address), loss rate and
  minimum, average and maximum round-trip time.
\<close>

theorem trace_order_independent:
  assumes "mset evs = mset evs'" "res = traceTarget c dst ip evs" "res' = traceTarget c dst ip evs'"
  shows "rs_Reached res = rs_Reached res' \<and> length (rs_Hops res) = length (rs_Hops res') \<and>
    (\<forall>i<length (rs_Hops res). let h = rs_Hops res ! i; h' = rs_Hops res' ! i in
       hp_TTL h = hp_TTL h' \<and> mset (hp_Probes h) = mset (hp_Probes h') \<and>
       canon ` set (hp_Addrs h) = canon ` set (hp_Addrs h') \<and>
       LossRate h = LossRate h' \<and> MinRTT h = MinRTT h' \<and> AvgRTT h = AvgRTT h' \<and> MaxRTT h = MaxRTT h')"
proof -
  have same: "reached_at evs = reached_at evs'"
    using mset_eq_setD [OF assms(1)] by (simp add: reached_at_def fun_eq_iff)
  obtain m where r: "rs_Hops res = take m (fold record_probe evs (start_hops (tc_MaxHops c)))"
    "rs_Hops res' = take m (fold record_probe evs' (start_hops (tc_MaxHops c)))" "rs_Reached res = rs_Reached res'"
    unfolding assms(2,3) traceTarget_closed same by simp
  let ?hop = "\<lambda>es i. fold record_probe es (start_hops (tc_MaxHops c)) ! i"
  have p: "mset (hp_Probes (?hop evs i)) = mset (hp_Probes (?hop evs' i))" if "i < nat (tc_MaxHops c)" for i
    using assms(1) that by (simp add: traced_hop(2) mset_filter)
  have a: "canon ` set (hp_Addrs (?hop evs i)) = canon ` set (hp_Addrs (?hop evs' i))" if "i < nat (tc_MaxHops c)" for i
    using traced_hop(3) [OF that, of evs] traced_hop(3) [OF that, of evs'] mset_eq_setD [OF p [OF that]]
    by (simp add: hop_ok_def)
  show ?thesis using p a hop_summary [OF p] by (simp add: r traced_hop(1) Let_def)
qed

theorem trace_order_independent_witness:
  "length (rs_Hops (traceTarget demo_hops ''x'' [192, 0, 2, 9] demo_done)) =
   length (rs_Hops (traceTarget demo_hops ''x'' [192, 0, 2, 9] (rev demo_done)))"
  using trace_order_independent [OF _ refl refl, of demo_done "rev demo_done" demo_hops "''x''" "[192, 0, 2, 9]"] by simp


section \<open>A run fills every slot\<close>

lemma those_map: "\<forall>x\<in>set xs. f x = Some (g x) \<Longrightarrow> those (map f xs) = Some (map g xs)"
  by (induction xs) auto

lemma map_hops_total:
  "\<forall>r\<in>set rs. \<forall>h\<in>set (rs_Hops r). f h = Some (g h) \<Longrightarrow>
   map_hops f rs = Some (map (\<lambda>r. r\<lparr>rs_Hops := map g (rs_Hops r)\<rparr>) rs)"
  unfolding map_hops_def by (intro those_map ballI) (simp add: those_map [of _ f g])

definition results_ok :: "Result list \<Rightarrow> bool" where
  "results_ok rs \<longleftrightarrow> (\<forall>r\<in>set rs. \<forall>h\<in>set (rs_Hops r). hop_ok h)"

lemma host_cache_spec:
  "host_cache L keys cache key = (if cache key = None \<and> key \<in> set keys then Some (host_name L key) else cache key)"
  by (induction keys arbitrary: cache) auto

lemma resolveHosts_total:
  assumes "results_ok rs"
  shows "resolveHosts env L rs = Some (map (\<lambda>r. r\<lparr>rs_Hops := map (\<lambda>h. h\<lparr>hp_Hosts :=
     map (\<lambda>a. host_name L (e_IPString env a)) (hp_Addrs h)\<rparr>) (rs_Hops r)\<rparr>) rs)"
  unfolding resolveHosts_def Let_def
proof (rule map_hops_total, intro ballI)
  fix r h assume rh: "r \<in> set rs" "h \<in> set (rs_Hops r)"
  have "host_cache L (map (e_IPString env) (all_addrs rs)) Map.empty (e_IPString env a) = Some (host_name L (e_IPString env a))"
    if "a \<in> set (hp_Addrs h)" for a
    using that rh by (auto simp: host_cache_spec all_addrs_def)
  then show "map_option (\<lambda>hs. h\<lparr>hp_Hosts := hs\<rparr>)
      (fill (\<lambda>addr. case host_cache L (map (e_IPString env) (all_addrs rs)) Map.empty (e_IPString env addr) of
                       None \<Rightarrow> [] | Some n \<Rightarrow> n) (hp_Addrs h) (hp_Hosts h)) =
    Some (h\<lparr>hp_Hosts := map (\<lambda>a. host_name L (e_IPString env a)) (hp_Addrs h)\<rparr>)"
    using assms rh by (simp add: fill_def results_ok_def hop_ok_def)
qed

lemma enrichHops_total:
  assumes "results_ok rs" "providers \<noteq> []"
  shows "enrichHops env providers rs = Some (map (\<lambda>r. r\<lparr>rs_Hops := map (\<lambda>h. h\<lparr>hp_Infos :=
     map (\<lambda>a. Resolve providers (distinct_keys (e_IPString env) (all_addrs rs) []) (e_IPString env a)) (hp_Addrs h)\<rparr>) (rs_Hops r)\<rparr>) rs)"
proof (cases "all_addrs rs = []")
  case True
  have "h\<lparr>hp_Infos := []\<rparr> = h" if "r \<in> set rs" "h \<in> set (rs_Hops r)" for r h
    using that True assms(1) by (cases h) (force simp: all_addrs_def results_ok_def hop_ok_def)
  moreover have "hp_Addrs h = []" if "r \<in> set rs" "h \<in> set (rs_Hops r)" for r h
    using that True by (simp add: all_addrs_def)
  ultimately have "map (\<lambda>h. h\<lparr>hp_Infos := map f (hp_Addrs h)\<rparr>) (rs_Hops r) = rs_Hops r" if "r \<in> set rs" for r and f :: "IP \<Rightarrow> IPInfo option"
    using that by (intro map_idI) simp
  then show ?thesis using True by (simp add: enrichHops_def) (simp add: map_idI)
next
  case False
  then have "distinct_keys (e_IPString env) (all_addrs rs) [] \<noteq> []" by (cases "all_addrs rs") auto
  then have "enrichHops env providers rs = map_hops (\<lambda>h. map_option (\<lambda>is. h\<lparr>hp_Infos := is\<rparr>)
      (fill (\<lambda>a. Resolve providers (distinct_keys (e_IPString env) (all_addrs rs) []) (e_IPString env a)) (hp_Addrs h) (hp_Infos h))) rs"
    using assms(2) by (simp add: enrichHops_def Let_def)
  also have "\<dots> = Some (map (\<lambda>r. r\<lparr>rs_Hops := map (\<lambda>h. h\<lparr>hp_Infos :=
     map (\<lambda>a. Resolve providers (distinct_keys (e_IPString env) (all_addrs rs) []) (e_IPString env a)) (hp_Addrs h)\<rparr>) (rs_Hops r)\<rparr>) rs)"
    by (rule map_hops_total) (use assms(1) in \<open>auto simp: fill_def results_ok_def hop_ok_def\<close>)
  finally show ?thesis .
qed

lemma traceTarget_ok: "h \<in> set (rs_Hops (traceTarget c dst ip evs)) \<Longrightarrow> hop_ok h"
  by (auto simp: traceTarget_closed in_set_conv_nth traced_hop(3))

lemma trace_targets_ok:
  "trace_targets parse bad endpoint c probes i dsts = Inr rs \<Longrightarrow> results_ok rs \<and> map rs_Dst rs = dsts"
proof (induction dsts arbitrary: i rs)
  case (Cons dst dsts)
  show ?case using Cons.prems Cons.IH [of "i + 1"]
    by (auto simp: results_ok_def traceTarget_ok traceTarget_closed split: option.splits sum.splits)
qed (simp add: results_ok_def)

lemma all_addrs_keep:
  "(\<And>h. hp_Addrs (g h) = hp_Addrs h) \<Longrightarrow> all_addrs (map (\<lambda>r. r\<lparr>rs_Hops := map g (rs_Hops r)\<rparr>) rs) = all_addrs rs"
  by (simp add: all_addrs_def comp_def)

definition slots_filled :: "net_env \<Rightarrow> (string \<Rightarrow> string list option) \<Rightarrow> provider list \<Rightarrow> trace_Config \<Rightarrow> IP list \<Rightarrow> Hop \<Rightarrow> bool" where
  "slots_filled env L providers c addrs h \<longleftrightarrow>
     length (hp_Hosts h) = length (hp_Addrs h) \<and> length (hp_Infos h) = length (hp_Addrs h) \<and>
     distinct (map canon (hp_Addrs h)) \<and>
     (tc_ResolveDNS c \<longrightarrow> hp_Hosts h = map (\<lambda>a. host_name L (e_IPString env a)) (hp_Addrs h)) \<and>
     (providers \<noteq> [] \<longrightarrow>
        hp_Infos h = map (\<lambda>a. Resolve providers (distinct_keys (e_IPString env) addrs []) (e_IPString env a)) (hp_Addrs h))"

lemma finish_run_total:
  assumes "results_ok rs"
  shows "\<exists>rs'. finish_run env L providers c rs = Some rs' \<and> map rs_Dst rs' = map rs_Dst rs \<and>
    (\<forall>r\<in>set rs'. \<forall>h\<in>set (rs_Hops r). slots_filled env L providers c (all_addrs rs') h)"
proof -
  define name where "name = (\<lambda>a. host_name L (e_IPString env a))"
  define g where "g = (\<lambda>h::Hop. if tc_ResolveDNS c then h\<lparr>hp_Hosts := map name (hp_Addrs h)\<rparr> else h)"
  define rs1 where "rs1 = map (\<lambda>r. r\<lparr>rs_Hops := map g (rs_Hops r)\<rparr>) rs"
  have 1: "(if tc_ResolveDNS c then resolveHosts env L rs else Some rs) = Some rs1"
    by (simp add: resolveHosts_total [OF assms] rs1_def g_def name_def)
  have ok: "results_ok rs1" using assms by (auto simp: results_ok_def rs1_def g_def hop_ok_def)
  define info where "info = (\<lambda>a. Resolve providers (distinct_keys (e_IPString env) (all_addrs rs1) []) (e_IPString env a))"
  define k where "k = (\<lambda>h::Hop. if providers \<noteq> [] then h\<lparr>hp_Infos := map info (hp_Addrs h)\<rparr> else h)"
  define rs2 where "rs2 = map (\<lambda>r. r\<lparr>rs_Hops := map k (rs_Hops r)\<rparr>) rs1"
  have "finish_run env L providers c rs = Some rs2"
    by (simp add: finish_run_def 1 enrichHops_total [OF ok] rs2_def k_def info_def)
  moreover have "map rs_Dst rs2 = map rs_Dst rs" by (simp add: rs2_def rs1_def)
  moreover have "all_addrs rs2 = all_addrs rs1" unfolding rs2_def by (rule all_addrs_keep) (simp add: k_def)
  moreover have "slots_filled env L providers c (all_addrs rs1) h" if rh: "r \<in> set rs2" "h \<in> set (rs_Hops r)" for r h
  proof -
    obtain h0 where h0: "hop_ok h0" "h = k (g h0)"
      using rh assms by (force simp: rs2_def rs1_def results_ok_def)
    then show ?thesis by (auto simp: slots_filled_def k_def g_def hop_ok_def name_def info_def)
  qed
  ultimately show ?thesis by auto
qed

text \<open>
  A run that resolves its endpoints always returns a full report: one result per target in the order of
  the configuration, never a write out of range, and in every hop one host name and one metadata slot
  per distinct address, each holding what the resolver and the merged providers know of that address.
\<close>

theorem run_fills_every_slot:
  assumes "trace_Run env dial L providers c probes = Inr r"
  shows "\<exists>rs. r = Some rs \<and> map rs_Dst rs = tc_Targets c \<and>
    (\<forall>res\<in>set rs. \<forall>h\<in>set (rs_Hops res). slots_filled env L providers c (all_addrs rs) h)"
proof -
  obtain rs where t: "trace_targets (parseV4 env) NotIPv4 (localEndpoint env dial c) c probes 0 (tc_Targets c) = Inr rs"
    "r = finish_run env L providers c rs"
    using assms by (auto simp: trace_Run_def split: sum.splits)
  then show ?thesis using finish_run_total [of rs env L providers c] trace_targets_ok [OF t(1)] by auto
qed

definition demo_trace_env :: net_env where
  "demo_trace_env = \<lparr>e_Hostname = None, e_LookupHost = (\<lambda>_. None),
     e_ParseIP = (\<lambda>s. if s = ''192.0.2.9'' then Some [192, 0, 2, 9] else None),
     e_IPString = (\<lambda>ip. if ip = [192, 0, 2, 9] then ''192.0.2.9'' else ''10.0.0.1''),
     e_Interfaces = Some [\<lparr>if_Name = ''eth0'', if_Up = True, if_Loopback = False, if_Addrs = Some [Some [10, 0, 0, 7]]\<rparr>],
     e_ParseDuration = (\<lambda>_. None), e_ParseMAC = (\<lambda>_. None)\<rparr>"

theorem run_fills_every_slot_witness:
  "\<exists>rs. trace_Run demo_trace_env (\<lambda>_. Some [10, 0, 0, 7]) (\<lambda>k. Some [k @ ''.example.'']) [] demo_hops (\<lambda>_. demo_done) = Inr (Some rs) \<and>
     map rs_Dst rs = [''192.0.2.9''] \<and>
     (\<forall>res\<in>set rs. \<forall>h\<in>set (rs_Hops res).
        slots_filled demo_trace_env (\<lambda>k. Some [k @ ''.example.'']) [] demo_hops (all_addrs rs) h)"
proof -
  have "\<exists>r. trace_Run demo_trace_env (\<lambda>_. Some [10, 0, 0, 7]) (\<lambda>k. Some [k @ ''.example.'']) [] demo_hops (\<lambda>_. demo_done) = Inr r"
    by (simp add: trace_Run_def demo_hops_def DefaultConfig_def demo_trace_env_def parseV4_def To4_def probe_addr_def
        localEndpoint_def outboundIP_def endpoint_iface_def interfaceForIP_def IP_Equal_def)
  then show ?thesis
    using run_fills_every_slot [of demo_trace_env "\<lambda>_. Some [10, 0, 0, 7]" "\<lambda>k. Some [k @ ''.example.'']" "[]" demo_hops "\<lambda>_. demo_done"]
    by (auto simp: demo_hops_def)
qed

end
