(* ===== verification/Trace_Format.thy ===== *)
theory Trace_Format
  imports Trace_Hops
begin

text \<open>
  The text of a traceroute report (\<open>format.go\<close> of \<open>traceroute\<close> and \<open>traceroute6\<close>, which print the same lines). The rendering
  of a duration as milliseconds with three decimals is an argument, since it formats a float64.
\<close>

definition present :: "string \<Rightarrow> string list" where
  "present s = (if s = [] then [] else [s])"

definition formatInfo :: "IPInfo option \<Rightarrow> string" where
  "formatInfo info =
     (case info of
        None \<Rightarrow> []
      | Some i \<Rightarrow>
          (let asn = (if ii_ASN i \<noteq> 0 then [''AS'' @ nat_dec (unat (ii_ASN i))] else []) @
                     present (ii_ASName i) @ present (ii_Prefix i);
               geo0 = present (ii_Country i) @ present (ii_Region i) @ present (ii_City i);
               geo = (if geo0 = [] \<and> ii_Org i \<noteq> [] \<and> ii_ASName i = [] then [ii_Org i] else geo0);
               parts = (if asn \<noteq> [] then [Join '' '' asn] else []) @ (if geo \<noteq> [] then [Join '' '' geo] else [])
           in if parts = [] then [] else ''['' @ Join '' | '' parts @ '']''))"

definition pad_right :: "nat \<Rightarrow> string \<Rightarrow> string" where
  "pad_right n s = s @ replicate (n - length s) CHR '' ''"

definition trim_dot :: "string \<Rightarrow> string" where
  "trim_dot s = (if s \<noteq> [] \<and> last s = CHR ''.'' then butlast s else s)"

definition responder :: "net_env \<Rightarrow> Hop \<Rightarrow> nat \<Rightarrow> string" where
  "responder env h ai =
     (let addr = hp_Addrs h ! ai;
          host = (if ai < length (hp_Hosts h) then hp_Hosts h ! ai else []);
          label = (if host \<noteq> [] then trim_dot host else e_IPString env addr);
          extra = (if ai < length (hp_Infos h) then formatInfo (hp_Infos h ! ai) else [])
      in (if ai > 0 then ''    '' else []) @ label @ '' ('' @ e_IPString env addr @ '')'' @
         (if extra \<noteq> [] then '' '' @ extra else []) @ '' '')"

definition writeHopLine :: "net_env \<Rightarrow> (int \<Rightarrow> string) \<Rightarrow> Hop \<Rightarrow> string" where
  "writeHopLine env formatRTT h =
     pad_right 3 (int_dec (hp_TTL h)) @ '' '' @
     (if hp_Addrs h = [] then concat (map (\<lambda>_. ''* '') (hp_Probes h))
      else concat (map (responder env h) [0..<length (hp_Addrs h)]) @
           concat (map (\<lambda>p. if pr_TimedOut p then '' *'' else ''  '' @ formatRTT (pr_RTT p)) (hp_Probes h))) @
     [CHR 0x0A]"

definition Result_String :: "net_env \<Rightarrow> (int \<Rightarrow> string) \<Rightarrow> Result \<Rightarrow> string" where
  "Result_String env formatRTT r =
     ''traceroute to '' @ rs_Dst r @ '' ('' @
     (case rs_DstIP r of None \<Rightarrow> ''<nil>'' | Some ip \<Rightarrow> e_IPString env ip) @ ''), '' @ int_dec (rs_MaxHops r) @
     '' hops max, '' @ Protocol_String (rs_Proto r) @ '' probes, '' @ int_dec 60 @ '' byte packets'' @ [CHR 0x0A] @
     concat (map (writeHopLine env formatRTT) (rs_Hops r))"

definition Result_String6 :: "net_env \<Rightarrow> (int \<Rightarrow> string) \<Rightarrow> Result \<Rightarrow> string" where
  "Result_String6 env formatRTT r =
     ''traceroute6 to '' @ rs_Dst r @ '' ('' @
     (case rs_DstIP r of None \<Rightarrow> ''<nil>'' | Some ip \<Rightarrow> e_IPString env ip) @ ''), '' @ int_dec (rs_MaxHops r) @
     '' hops max, '' @ Protocol_String6 (rs_Proto r) @ '' probes, '' @ int_dec 60 @ '' byte packets'' @ [CHR 0x0A] @
     concat (map (writeHopLine env formatRTT) (rs_Hops r))"

text \<open>Metadata is printed exactly when some field is known.\<close>

lemma formatInfo_empty_iff:
  "formatInfo (Some i) = [] \<longleftrightarrow>
     ii_ASN i = 0 \<and> ii_ASName i = [] \<and> ii_Prefix i = [] \<and> ii_Country i = [] \<and> ii_Region i = [] \<and> ii_City i = [] \<and> ii_Org i = []"
  by (simp add: formatInfo_def Let_def present_def)

text \<open>One line per hop, when neither names nor metadata contain a line break.\<close>

definition newlines :: "string \<Rightarrow> nat" where
  "newlines s = length (filter (\<lambda>c. c = CHR 0x0A) s)"

definition one_line :: "net_env \<Rightarrow> (int \<Rightarrow> string) \<Rightarrow> Hop \<Rightarrow> bool" where
  "one_line env formatRTT h \<longleftrightarrow>
     (\<forall>a\<in>set (hp_Addrs h). newlines (e_IPString env a) = 0) \<and> (\<forall>s\<in>set (hp_Hosts h). newlines s = 0) \<and>
     (\<forall>i\<in>set (hp_Infos h). newlines (formatInfo i) = 0) \<and> (\<forall>p\<in>set (hp_Probes h). newlines (formatRTT (pr_RTT p)) = 0)"

lemma newlines_append [simp]: "newlines (s @ t) = newlines s + newlines t"
  by (simp add: newlines_def)

lemma newlines_Cons [simp]: "newlines (c # s) = (if c = CHR 0x0A then 1 else 0) + newlines s"
  by (simp add: newlines_def)

lemma newlines_Nil [simp]: "newlines [] = 0"
  by (simp add: newlines_def)

lemma newlines_concat: "\<forall>s\<in>set ss. newlines s = 0 \<Longrightarrow> newlines (concat ss) = 0"
  by (induction ss) auto

lemma newlines_int_dec [simp]: "newlines (int_dec i) = 0"
proof -
  have "\<not> is_digit (CHR 0x0A)" by (simp add: is_digit_def)
  then have "newlines (nat_dec n) = 0" for n
    using nat_dec_not_in [of "CHR 0x0A" n] by (auto simp: newlines_def filter_empty_conv)
  then show ?thesis by (simp add: int_dec_def)
qed

lemma newlines_pad [simp]: "newlines (pad_right n s) = newlines s"
  by (simp add: pad_right_def newlines_def)

lemma newlines_trim: "newlines s = 0 \<Longrightarrow> newlines (trim_dot s) = 0"
  by (cases s rule: rev_cases) (auto simp: trim_dot_def)

lemma hop_line_single:
  assumes "one_line env formatRTT h"
  shows "newlines (writeHopLine env formatRTT h) = 1"
proof -
  have "newlines (responder env h i) = 0" if "i < length (hp_Addrs h)" for i
    using that assms by (auto simp: responder_def Let_def one_line_def newlines_trim)
  then have "newlines (concat (map (responder env h) [0..<length (hp_Addrs h)])) = 0"
    by (intro newlines_concat) auto
  moreover have "newlines (concat (map (\<lambda>p. if pr_TimedOut p then '' *'' else ''  '' @ formatRTT (pr_RTT p)) (hp_Probes h))) = 0"
    using assms by (intro newlines_concat) (auto simp: one_line_def)
  moreover have "newlines (concat (map (\<lambda>_. ''* '') (hp_Probes h))) = 0" by (intro newlines_concat) auto
  ultimately show ?thesis by (simp add: writeHopLine_def)
qed

end
