(* ===== verification/Cmd_Targets.thy ===== *)
theory Cmd_Targets
  imports Cidr Ping Trace_Format
begin

text \<open>
  The commands that start from a list of targets: \<open>cmd/mping\<close>, \<open>cmd/mping6\<close>, \<open>cmd/traceroute\<close> and
  \<open>cmd/traceroute6\<close>. From the parsed flags and the positional arguments to the configuration handed to
  the packages, with every early exit. The flag parser is not modelled: its results are a record, whose
  value for no flags at all is the defaults the commands register.
\<close>

section \<open>Lists of targets\<close>

text \<open>Two forms of the same helper: \<open>mping\<close>, \<open>mping6\<close>, \<open>baize\<close>, \<open>bitflip\<close>, \<open>bitflip6\<close> and \<open>kuiniu\<close> have the first,
  \<open>lidar\<close> and the tracers the second.\<close>

definition splitNonEmpty :: "string \<Rightarrow> string list" where
  "splitNonEmpty s =
     (if s = [] then [] else filter (\<lambda>part. part \<noteq> []) (map TrimSpace (Split CHR '','' s)))"

definition splitNonEmpty_trace :: "string \<Rightarrow> string list" where
  "splitNonEmpty_trace s = filter (\<lambda>part. part \<noteq> []) (map TrimSpace (Split CHR '','' s))"

definition args_targets :: "(string \<Rightarrow> string list) \<Rightarrow> string list \<Rightarrow> string list" where
  "args_targets split args = concat (map split args)"


section \<open>mping and mping6\<close>

record mping_flags =
  mf_targets :: string
  mf_localAddr :: string
  mf_iface :: string
  mf_tos :: int
  mf_ttl :: int
  mf_count :: int
  mf_sendDuration :: int
  mf_delay :: int
  mf_timeout :: int
  mf_rate :: int
  mf_size :: int
  mf_verbose :: bool
  mf_hwts :: bool
  mf_maxTargets :: int

definition mping_flag_defaults :: mping_flags where
  "mping_flag_defaults =
     \<lparr>mf_targets = [], mf_localAddr = [], mf_iface = [], mf_tos = 0, mf_ttl = 64, mf_count = 0, mf_sendDuration = 0,
      mf_delay = 3 * second, mf_timeout = second, mf_rate = 100, mf_size = 64, mf_verbose = False, mf_hwts = True,
      mf_maxTargets = 65536\<rparr>"

text \<open>How a run ends: with a configuration, with an error message, or in a panic.\<close>

datatype 'c outcome = Start 'c | Exit cfg_error | Crash

text \<open>One target: a network, an address, or a name for the resolver. \<open>parseCIDR\<close> is \<open>net.ParseCIDR\<close>. The
  expansion is \<open>None\<close> when it does not return.\<close>

definition resolve_plain :: "(net_env \<Rightarrow> string \<Rightarrow> bool) \<Rightarrow> net_env \<Rightarrow> string \<Rightarrow> cfg_error + string list" where
  "resolve_plain valid env addr =
     (case e_ParseIP env addr of
        Some ip \<Rightarrow>
          if valid env addr then Inr [e_IPString env ip]
          else (case e_LookupHost env addr of None \<Rightarrow> Inl (LookupFailed addr) | Some addrs \<Rightarrow> Inr (filter (valid env) addrs))
      | None \<Rightarrow> (case e_LookupHost env addr of None \<Rightarrow> Inl (LookupFailed addr) | Some addrs \<Rightarrow> Inr (filter (valid env) addrs)))"

definition resolve_with ::
    "(net_env \<Rightarrow> IPNet \<Rightarrow> string list option) \<Rightarrow> (net_env \<Rightarrow> string \<Rightarrow> bool) \<Rightarrow> (string \<Rightarrow> IPNet option) \<Rightarrow> net_env \<Rightarrow> string \<Rightarrow>
     (cfg_error + string list) option" where
  "resolve_with expand valid parseCIDR env addr =
     (case parseCIDR addr of
        None \<Rightarrow> Some (resolve_plain valid env addr)
      | Some ipNet \<Rightarrow>
          (case expand env ipNet of
             None \<Rightarrow> None
           | Some expanded \<Rightarrow>
               if length expanded > 0 then Some (Inr expanded) else Some (resolve_plain valid env addr)))"

definition mping_resolve :: "(string \<Rightarrow> IPNet option) \<Rightarrow> net_env \<Rightarrow> string \<Rightarrow> (cfg_error + string list) option" where
  "mping_resolve = resolve_with expandCIDR valid_ip4"

definition mping6_resolve :: "(string \<Rightarrow> IPNet option) \<Rightarrow> net_env \<Rightarrow> string \<Rightarrow> (cfg_error + string list) option" where
  "mping6_resolve = resolve_with expandCIDR6 valid_ip6"

fun resolve_all :: "(string \<Rightarrow> (cfg_error + string list) option) \<Rightarrow> string list \<Rightarrow> string list \<Rightarrow> (cfg_error + string list) option" where
  "resolve_all resolve [] resolvedAddrs = Some (Inr resolvedAddrs)"
| "resolve_all resolve (addr # rest) resolvedAddrs =
     (case resolve addr of
        None \<Rightarrow> None
      | Some (Inl e) \<Rightarrow> Some (Inl e)
      | Some (Inr as) \<Rightarrow> resolve_all resolve rest (resolvedAddrs @ as))"

text \<open>The cap: a negative limit makes the slice expression panic.\<close>

definition cap_targets :: "int \<Rightarrow> string list \<Rightarrow> string list outcome" where
  "cap_targets maxTargets as =
     (if int (length as) > maxTargets
      then if maxTargets < 0 then Crash else Start (take (nat maxTargets) as)
      else Start as)"

definition mping_config :: "mping_flags \<Rightarrow> string list \<Rightarrow> ping_Config" where
  "mping_config f as =
     \<lparr>pg_TargetAddrs = as, pg_Rate = mf_rate f, pg_Span = second, pg_Delay = mf_delay f, pg_Count = mf_count f,
      pg_SendDuration = mf_sendDuration f, pg_Size = mf_size f, pg_TOS = mf_tos f, pg_TTL = mf_ttl f,
      pg_Timeout = mf_timeout f, pg_LocalAddr = mf_localAddr f, pg_Interface = mf_iface f,
      pg_Verbose = mf_verbose f, pg_Hwts = mf_hwts f\<rparr>"

definition mping_targets :: "mping_flags \<Rightarrow> string list \<Rightarrow> string list" where
  "mping_targets f args =
     (if mf_targets f \<noteq> [] then splitNonEmpty (mf_targets f) else []) @ args_targets splitNonEmpty args"

definition mping_start ::
    "(string \<Rightarrow> (cfg_error + string list) option) \<Rightarrow> (ping_Config \<Rightarrow> cfg_error + ping_Config) \<Rightarrow> mping_flags \<Rightarrow> string list \<Rightarrow>
     ping_Config outcome option" where
  "mping_start resolve validate f args =
     (let targetAddrs = mping_targets f args
      in if targetAddrs = [] then Some (Exit NoTargets)
         else case resolve_all resolve targetAddrs [] of
           None \<Rightarrow> None
         | Some (Inl e) \<Rightarrow> Some (Exit e)
         | Some (Inr []) \<Rightarrow> Some (Exit NoTargets)
         | Some (Inr as) \<Rightarrow>
             (case cap_targets (mf_maxTargets f) as of
                Start capped \<Rightarrow>
                  (case validate (mping_config f capped) of Inl e \<Rightarrow> Some (Exit e) | Inr cfg \<Rightarrow> Some (Start cfg))
              | Exit e \<Rightarrow> Some (Exit e)
              | Crash \<Rightarrow> Some Crash))"

definition mping_main :: "(string \<Rightarrow> IPNet option) \<Rightarrow> net_env \<Rightarrow> mping_flags \<Rightarrow> string list \<Rightarrow> ping_Config outcome option" where
  "mping_main parseCIDR env = mping_start (mping_resolve parseCIDR env) (ping_Validate env)"

definition mping6_main :: "(string \<Rightarrow> IPNet option) \<Rightarrow> net_env \<Rightarrow> mping_flags \<Rightarrow> string list \<Rightarrow> ping_Config outcome option" where
  "mping6_main parseCIDR env = mping_start (mping6_resolve parseCIDR env) (ping6_Validate env)"


section \<open>traceroute and traceroute6\<close>

record trace_flags =
  tf_protocol :: string
  tf_maxHops :: int
  tf_queries :: int
  tf_port :: u16
  tf_srcPort :: u16
  tf_fixedDstPort :: bool
  tf_srcIP :: string
  tf_dstIP :: string
  tf_timeout :: int
  tf_noDNS :: bool
  tf_tos :: int
  tf_parallel :: int
  tf_iface :: string
  tf_localAddr :: string
  tf_asn :: bool
  tf_geo :: bool
  tf_geoToken :: string

definition trace_flag_defaults :: trace_flags where
  "trace_flag_defaults =
     \<lparr>tf_protocol = ''icmp'', tf_maxHops = 30, tf_queries = 3, tf_port = 0, tf_srcPort = 0, tf_fixedDstPort = False,
      tf_srcIP = [], tf_dstIP = [], tf_timeout = second, tf_noDNS = False, tf_tos = 0, tf_parallel = 16,
      tf_iface = [], tf_localAddr = [], tf_asn = False, tf_geo = False, tf_geoToken = []\<rparr>"

definition default_port :: "Protocol \<Rightarrow> u16 \<Rightarrow> u16" where
  "default_port proto port = (if port = 0 then (case proto of ProtoTCP \<Rightarrow> 80 | _ \<Rightarrow> 33434) else port)"

text \<open>\<open>resolveTargets\<close>: \<open>pick\<close> turns an address of the right family into its text. The set of seen texts
  is that of the result so far.\<close>

definition add_target :: "string \<Rightarrow> string list \<Rightarrow> string list" where
  "add_target ip out = (if ip \<in> set out then out else out @ [ip])"

definition pick4 :: "net_env \<Rightarrow> IP \<Rightarrow> string option" where
  "pick4 env ip = map_option (e_IPString env) (To4 ip)"

definition pick6 :: "net_env \<Rightarrow> IP \<Rightarrow> string option" where
  "pick6 env ip = (if To4 ip = None \<and> To16 ip \<noteq> None then Some (e_IPString env ip) else None)"

definition first_picked :: "net_env \<Rightarrow> (IP \<Rightarrow> string option) \<Rightarrow> string list \<Rightarrow> string option" where
  "first_picked env pick addrs =
     (case List.find (\<lambda>a. Option.bind (e_ParseIP env a) pick \<noteq> None) addrs of
        None \<Rightarrow> None
      | Some a \<Rightarrow> Option.bind (e_ParseIP env a) pick)"

fun resolve_targets ::
    "net_env \<Rightarrow> (IP \<Rightarrow> string option) \<Rightarrow> (string \<Rightarrow> cfg_error) \<Rightarrow> string list \<Rightarrow> string list \<Rightarrow> cfg_error + string list" where
  "resolve_targets env pick wrong [] out = Inr out"
| "resolve_targets env pick wrong (input # inputs) out =
     (case e_ParseIP env input of
        Some ip \<Rightarrow>
          (case pick ip of
             Some t \<Rightarrow> resolve_targets env pick wrong inputs (add_target t out)
           | None \<Rightarrow> Inl (wrong input))
      | None \<Rightarrow>
          (case e_LookupHost env input of
             None \<Rightarrow> Inl (LookupFailed input)
           | Some addrs \<Rightarrow>
               (case first_picked env pick addrs of
                  Some t \<Rightarrow> resolve_targets env pick wrong inputs (add_target t out)
                | None \<Rightarrow> Inl (NoAddress input))))"

definition resolveTargets :: "net_env \<Rightarrow> string list \<Rightarrow> cfg_error + string list" where
  "resolveTargets env inputs =
     (case resolve_targets env (pick4 env) NotIPv4 inputs [] of
        Inl e \<Rightarrow> Inl e
      | Inr out \<Rightarrow> if out = [] then Inl NoTargets else Inr out)"

definition resolveTargets6 :: "net_env \<Rightarrow> string list \<Rightarrow> cfg_error + string list" where
  "resolveTargets6 env inputs =
     (case resolve_targets env (pick6 env) NotIPv6 inputs [] of
        Inl e \<Rightarrow> Inl e
      | Inr out \<Rightarrow> if out = [] then Inl NoTargets else Inr out)"

definition trace_config :: "trace_flags \<Rightarrow> Protocol \<Rightarrow> string list \<Rightarrow> trace_Config" where
  "trace_config f proto targets =
     \<lparr>tc_Targets = targets, tc_LocalAddr = tf_localAddr f, tc_Interface = tf_iface f, tc_Protocol = proto,
      tc_MaxHops = tf_maxHops f, tc_Queries = tf_queries f, tc_Port = default_port proto (tf_port f),
      tc_Timeout = tf_timeout f, tc_TOS = tf_tos f, tc_SrcPort = tf_srcPort f, tc_FixedDstPort = tf_fixedDstPort f,
      tc_SrcIP = tf_srcIP f, tc_DstIP = tf_dstIP f, tc_Parallel = tf_parallel f, tc_ResolveDNS = (\<not> tf_noDNS f)\<rparr>"

definition trace_start ::
    "(string \<Rightarrow> cfg_error + Protocol) \<Rightarrow> (string list \<Rightarrow> cfg_error + string list) \<Rightarrow> (trace_Config \<Rightarrow> cfg_error option) \<Rightarrow>
     trace_flags \<Rightarrow> string list \<Rightarrow> trace_Config outcome" where
  "trace_start parseProto resolve validate f args =
     (case parseProto (tf_protocol f) of
        Inl e \<Rightarrow> Exit e
      | Inr proto \<Rightarrow>
          (let rawTargets = args_targets splitNonEmpty_trace args
           in if rawTargets = [] then Exit NoTargets
              else case resolve rawTargets of
                Inl e \<Rightarrow> Exit e
              | Inr targets \<Rightarrow>
                  (case validate (trace_config f proto targets) of
                     Some e \<Rightarrow> Exit e
                   | None \<Rightarrow> Start (trace_config f proto targets))))"

definition traceroute_main :: "net_env \<Rightarrow> trace_flags \<Rightarrow> string list \<Rightarrow> trace_Config outcome" where
  "traceroute_main env = trace_start ParseProtocol (resolveTargets env) (trace_Validate env)"

definition traceroute6_main :: "net_env \<Rightarrow> trace_flags \<Rightarrow> string list \<Rightarrow> trace_Config outcome" where
  "traceroute6_main env = trace_start ParseProtocol6 (resolveTargets6 env) (trace6_Validate env)"

text \<open>The rest of the command: the metadata providers of the flags (\<open>cymru\<close> and \<open>ipinfo\<close> are the constructed
  providers), the run, and the reports with an empty line between them.\<close>

definition trace_providers :: "provider \<Rightarrow> (string \<Rightarrow> provider) \<Rightarrow> trace_flags \<Rightarrow> provider list" where
  "trace_providers cymru ipinfo f =
     (if tf_asn f then [cymru] else []) @ (if tf_geo f then [ipinfo (tf_geoToken f)] else [])"

definition print_reports :: "string list \<Rightarrow> string" where
  "print_reports texts = Join [CHR 0x0A] texts"

definition traceroute_run ::
    "net_env \<Rightarrow> (int \<Rightarrow> string) \<Rightarrow> (IP \<Rightarrow> IP option) \<Rightarrow> (string \<Rightarrow> string list option) \<Rightarrow> provider \<Rightarrow> (string \<Rightarrow> provider) \<Rightarrow>
     (nat \<Rightarrow> completions) \<Rightarrow> trace_flags \<Rightarrow> string list \<Rightarrow> string outcome" where
  "traceroute_run env formatRTT dial LookupAddr cymru ipinfo probes f args =
     (case traceroute_main env f args of
        Exit e \<Rightarrow> Exit e
      | Crash \<Rightarrow> Crash
      | Start cfg \<Rightarrow>
          (case trace_Run env dial LookupAddr (trace_providers cymru ipinfo f) cfg probes of
             Inl e \<Rightarrow> Exit e
           | Inr None \<Rightarrow> Crash
           | Inr (Some results) \<Rightarrow> Start (print_reports (map (Result_String env formatRTT) results))))"

definition traceroute6_run ::
    "net_env \<Rightarrow> (int \<Rightarrow> string) \<Rightarrow> (IP \<Rightarrow> IP option) \<Rightarrow> (string \<Rightarrow> string list option) \<Rightarrow> provider \<Rightarrow> (string \<Rightarrow> provider) \<Rightarrow>
     (nat \<Rightarrow> completions) \<Rightarrow> trace_flags \<Rightarrow> string list \<Rightarrow> string outcome" where
  "traceroute6_run env formatRTT dial LookupAddr cymru ipinfo probes f args =
     (case traceroute6_main env f args of
        Exit e \<Rightarrow> Exit e
      | Crash \<Rightarrow> Crash
      | Start cfg \<Rightarrow>
          (case trace6_Run env dial LookupAddr (trace_providers cymru ipinfo f) cfg probes of
             Inl e \<Rightarrow> Exit e
           | Inr None \<Rightarrow> Crash
           | Inr (Some results) \<Rightarrow> Start (print_reports (map (Result_String6 env formatRTT) results))))"

section \<open>mping always comes back\<close>

lemma To4_length: "To4 ip = Some ip4 \<Longrightarrow> length ip4 = 4"
  by (auto simp: To4_def split: if_splits)

lemma expandCIDR_returns: "expandCIDR env ipNet \<noteq> None"
proof (cases "To4 (n_IP ipNet)")
  case (Some ip)
  let ?net = "map2 (AND) ip (n_Mask ipNet)"
  let ?bro = "map2 (\<lambda>n m. n OR NOT m) ?net (n_Mask ipNet)"
  have "unat (be_word ?bro - be_word ?net - 1 :: u32) \<le> unat (be_word ?net - be_word ?net - 1 :: u32)"
    using word_order.extremum [of "be_word ?bro - be_word ?net - 1 :: u32"] by (simp add: word_le_nat_alt)
  then have "length (n_Mask ipNet) = 4 \<Longrightarrow> \<exists>as. expand_loop ?net ?bro ?net [] = Some as"
    using To4_length [OF Some] by (auto simp: expand_loop_ends)
  then show ?thesis using Some by (auto simp: expandCIDR_def Let_def)
qed (simp add: expandCIDR_def)

lemma mping_resolve_returns: "\<exists>r. mping_resolve parseCIDR env addr = Some r"
  using expandCIDR_returns by (auto simp: mping_resolve_def resolve_with_def split: option.split) (metis option.distinct(1))

lemma resolve_all_returns: "(\<And>addr. \<exists>r. resolve addr = Some r) \<Longrightarrow> \<exists>r. resolve_all resolve addrs as = Some r"
proof (induction addrs arbitrary: as)
  case (Cons addr addrs)
  obtain r where r: "resolve addr = Some r" using Cons.prems by blast
  show ?case
  proof (cases r)
    case (Inr xs)
    then show ?thesis using r Cons.IH [OF Cons.prems, of "as @ xs"] by simp
  qed (simp add: r)
qed simp

lemma ping_Validate_targets:
  assumes "ping_Validate env c = Inr c'"
  shows "pg_TargetAddrs c' = pg_TargetAddrs c" "pg_TargetAddrs c \<noteq> []" "\<forall>a \<in> set (pg_TargetAddrs c). valid_ip4 env a"
proof -
  have "pg_TargetAddrs (ping_defaults c) = pg_TargetAddrs c" for c by (simp add: ping_defaults_def Let_def)
  then have "ping_check_local env r k c = Inr c' \<Longrightarrow> pg_TargetAddrs c' = pg_TargetAddrs c" for r k
    by (auto simp: ping_check_local_def Let_def split: sum.splits option.splits if_splits)
  then show "pg_TargetAddrs c' = pg_TargetAddrs c" "pg_TargetAddrs c \<noteq> []" "\<forall>a \<in> set (pg_TargetAddrs c). valid_ip4 env a"
    using assms by (auto simp: ping_Validate_def find_None_iff check_ip4_def split: if_splits option.splits)
qed

text \<open>
  C26. \<open>mping\<close> always gets through its targets: whatever networks, addresses and names it is given and whatever
  the resolver answers, the expansion ends. What starts is a non-empty list of valid IPv4 addresses no longer
  than the limit, and a panic needs a negative limit.
\<close>

theorem mping_returns:
  "\<exists>r. mping_main parseCIDR env f args = Some r \<and> (r = Crash \<longrightarrow> mf_maxTargets f < 0) \<and>
    (\<forall>cfg. r = Start cfg \<longrightarrow> pg_TargetAddrs cfg \<noteq> [] \<and> int (length (pg_TargetAddrs cfg)) \<le> mf_maxTargets f \<and>
       (\<forall>a \<in> set (pg_TargetAddrs cfg). valid_ip4 env a))"
proof -
  let ?ts = "mping_targets f args"
  obtain r where r: "resolve_all (mping_resolve parseCIDR env) ?ts [] = Some r"
    using resolve_all_returns [of "mping_resolve parseCIDR env"] mping_resolve_returns by blast
  have cap: "cap_targets m as = Start ts \<Longrightarrow> int (length ts) \<le> m" "cap_targets m as = Crash \<Longrightarrow> m < 0"
    "cap_targets m as \<noteq> Exit e" for m as ts e
    by (auto simp: cap_targets_def split: if_splits)
  show ?thesis
  proof (cases "?ts = [] \<or> (\<exists>e. r = Inl e) \<or> r = Inr []")
    case True
    then show ?thesis using r by (auto simp: mping_main_def mping_start_def Let_def)
  next
    case False
    then obtain a as where as: "r = Inr (a # as)" by (cases r) (auto simp: neq_Nil_conv)
    have tgt: "pg_TargetAddrs (mping_config f ts) = ts" for ts by (simp add: mping_config_def)
    have "mping_main parseCIDR env f args = (case cap_targets (mf_maxTargets f) (a # as) of
        Start ts \<Rightarrow> (case ping_Validate env (mping_config f ts) of Inl e \<Rightarrow> Some (Exit e) | Inr cfg \<Rightarrow> Some (Start cfg))
      | Exit e \<Rightarrow> Some (Exit e) | Crash \<Rightarrow> Some Crash)"
      using False r as unfolding mping_main_def mping_start_def Let_def by simp
    then show ?thesis using cap ping_Validate_targets [of env "mping_config f _"] tgt
      by (fastforce split: outcome.splits sum.splits)
  qed
qed

definition demo_cmd_env :: net_env where
  "demo_cmd_env = demo_env\<lparr>e_IPString := (\<lambda>_. ''10.0.0.1'')\<rparr>"

theorem mping_returns_witness:
  "\<exists>cfg. mping_main (\<lambda>_. None) demo_cmd_env (mping_flag_defaults\<lparr>mf_localAddr := ''10.0.0.1'', mf_iface := ''eth0''\<rparr>) [''10.0.0.1, 10.0.0.1'']
      = Some (Start cfg) \<and> pg_TargetAddrs cfg \<noteq> [] \<and> (\<forall>a \<in> set (pg_TargetAddrs cfg). valid_ip4 demo_cmd_env a)"
proof -
  let ?f = "mping_flag_defaults\<lparr>mf_localAddr := ''10.0.0.1'', mf_iface := ''eth0''\<rparr>"
  have "case mping_main (\<lambda>_. None) demo_cmd_env ?f [''10.0.0.1, 10.0.0.1''] of Some (Start cfg) \<Rightarrow> True | _ \<Rightarrow> False" by code_simp
  then obtain cfg where "mping_main (\<lambda>_. None) demo_cmd_env ?f [''10.0.0.1, 10.0.0.1''] = Some (Start cfg)"
    by (auto split: option.splits outcome.splits)
  then show ?thesis using mping_returns [of "\<lambda>_. None" demo_cmd_env ?f "[''10.0.0.1, 10.0.0.1'']"] by auto
qed

section \<open>The targets of the tracers\<close>

text \<open>What one input contributes.\<close>

definition target_of :: "net_env \<Rightarrow> (IP \<Rightarrow> string option) \<Rightarrow> string \<Rightarrow> string option" where
  "target_of env pick input =
     (case e_ParseIP env input of
        Some ip \<Rightarrow> pick ip
      | None \<Rightarrow> Option.bind (e_LookupHost env input) (first_picked env pick))"

lemma set_add_target [simp]: "set (add_target t out) = insert t (set out)"
  by (auto simp: add_target_def)

lemma resolve_targets_correct:
  assumes "resolve_targets env pick wrong inputs out = Inr res" "distinct out"
  shows "distinct res \<and> set res = set out \<union> {t. \<exists>i \<in> set inputs. target_of env pick i = Some t} \<and>
    (\<forall>i \<in> set inputs. target_of env pick i \<noteq> None)"
  using assms
proof (induction inputs arbitrary: out)
  case (Cons input inputs)
  obtain t where t: "target_of env pick input = Some t"
      "resolve_targets env pick wrong inputs (add_target t out) = Inr res"
    using Cons.prems(1) by (auto simp: target_of_def split: option.splits)
  have "distinct (add_target t out)" using Cons.prems(2) by (simp add: add_target_def)
  then show ?case using Cons.IH [OF t(2)] t(1) by auto
qed auto

text \<open>
  The tracer probes every distinct target once. Started with a known protocol and its other flags at their
  defaults, the command runs exactly on the addresses its inputs denote (an address for itself, a name for its
  first IPv4 address), each once, and on port 80 for TCP and 33434 otherwise; the configuration it builds is
  always accepted.
\<close>

theorem traceroute_default_run:
  assumes "ParseProtocol p = Inr proto" "resolveTargets env (args_targets splitNonEmpty_trace args) = Inr targets"
  shows "traceroute_main env (trace_flag_defaults\<lparr>tf_protocol := p\<rparr>) args =
      Start (trace_config (trace_flag_defaults\<lparr>tf_protocol := p\<rparr>) proto targets) \<and>
    distinct targets \<and>
    set targets = {t. \<exists>i \<in> set (args_targets splitNonEmpty_trace args). target_of env (pick4 env) i = Some t} \<and>
    tc_Port (trace_config (trace_flag_defaults\<lparr>tf_protocol := p\<rparr>) proto targets) = (if proto = ProtoTCP then 80 else 33434)"
proof -
  have r: "resolve_targets env (pick4 env) NotIPv4 (args_targets splitNonEmpty_trace args) [] = Inr targets" "targets \<noteq> []"
    using assms(2) by (auto simp: resolveTargets_def split: sum.splits if_splits)
  then have "args_targets splitNonEmpty_trace args \<noteq> []" by auto
  moreover have "trace_Validate env (trace_config (trace_flag_defaults\<lparr>tf_protocol := p\<rparr>) proto targets) = None"
    using r(2) by (auto simp: trace_Validate_def trace_checks_def trace_config_def trace_flag_defaults_def default_port_def second_def
        split: Protocol.splits)
  moreover have "default_port proto 0 = (if proto = ProtoTCP then 80 else 33434)"
    by (auto simp: default_port_def split: Protocol.splits)
  ultimately show ?thesis
    using assms resolve_targets_correct [OF r(1)]
    by (simp add: traceroute_main_def trace_start_def trace_flag_defaults_def Let_def) (auto simp: trace_config_def split: if_splits)
qed

theorem traceroute_default_run_witness:
  "\<exists>cfg. traceroute_main demo_cmd_env (trace_flag_defaults\<lparr>tf_protocol := ''tcp''\<rparr>) [''10.0.0.1,h'', '' 10.0.0.1''] = Start cfg \<and>
    tc_Targets cfg = [''10.0.0.1''] \<and> tc_Port cfg = 80"
proof -
  let ?args = "[''10.0.0.1,h'', '' 10.0.0.1'']"
  have "resolveTargets demo_cmd_env (args_targets splitNonEmpty_trace ?args) = Inr [''10.0.0.1'']" by code_simp
  moreover have "ParseProtocol ''tcp'' = Inr ProtoTCP" by code_simp
  ultimately show ?thesis
    using traceroute_default_run [of "''tcp''" ProtoTCP demo_cmd_env ?args "[''10.0.0.1'']"] by (auto simp: trace_config_def)
qed

section \<open>What the tracers print\<close>

lemma trace_start_targets:
  assumes "trace_start parseProto resolve validate f args = Start cfg"
  shows "resolve (args_targets splitNonEmpty_trace args) = Inr (tc_Targets cfg)"
  using assms by (auto simp: trace_start_def trace_config_def Let_def split: sum.splits if_splits option.splits)

lemma run_reports:
  assumes "trace_targets parse bad endpoint c probes 0 ts = Inr rs"
  shows "\<exists>rs'. finish_run env L providers c rs = Some rs' \<and> map rs_Dst rs' = ts"
  using trace_targets_ok [OF assms] finish_run_total [of rs env L providers c] by auto



end
