(* ===== verification/Ping_Session.thy ===== *)
theory Ping_Session
  imports Ping_Sockets Stat_Processor Cmd_Targets
begin

text \<open>
  A whole run of \<open>mping\<close>: from the flags through the validated configuration, the new pinger and its
  opened socket (\<open>cmd/mping/main.go\<close>, \<open>ping/pinger.go\<close>) to any interleaving of its three goroutines, which
  send echo requests, handle what arrives and report the statistics.
\<close>

section \<open>Interleaved steps\<close>

text \<open>One request to a target, one packet with its receive time, or one visit of the processor to the
  statistics of a target.\<close>

datatype ping_event = EchoTo nat echo_io | Arrived "byte list" int | VisitStat nat int

fun ping_step :: "(byte list \<Rightarrow> reply option) \<Rightarrow> ping_event \<Rightarrow> Pinger \<Rightarrow> (Pinger \<times> (nat \<times> StatResult) list) option" where
  "ping_step dissect (EchoTo i io) p = map_option (\<lambda>(p', out). (p', [])) (send_echo io i p)"
| "ping_step dissect (Arrived raw rxts) p = map_option (\<lambda>p'. (p', [])) (processPacket dissect raw rxts p)"
| "ping_step dissect (VisitStat i now) p =
     map_option (\<lambda>(proc, outs). (p\<lparr>pn_proc := proc\<rparr>, outs)) (proc_step (At i (Tick now)) (pn_proc p))"

fun ping_session ::
    "(byte list \<Rightarrow> reply option) \<Rightarrow> ping_event list \<Rightarrow> Pinger \<Rightarrow> (Pinger \<times> (nat \<times> StatResult) list) option" where
  "ping_session dissect [] p = Some (p, [])"
| "ping_session dissect (e # es) p =
     (case ping_step dissect e p of
        None \<Rightarrow> None
      | Some (p1, out) \<Rightarrow> map_option (\<lambda>(p2, outs). (p2, out @ outs)) (ping_session dissect es p1))"

text \<open>Targets exist and times are Unix times.\<close>

fun ping_event_ok :: "nat \<Rightarrow> ping_event \<Rightarrow> bool" where
  "ping_event_ok n (EchoTo i io) \<longleftrightarrow> i < n \<and> (\<forall>ts \<in> insert (eo_now io) (set_option (eo_txts io)). 0 \<le> ts \<and> in_i64 ts)"
| "ping_event_ok n (Arrived raw rxts) \<longleftrightarrow> 0 \<le> rxts \<and> in_i64 rxts"
| "ping_event_ok n (VisitStat i now) \<longleftrightarrow> i < n"

section \<open>No step fails\<close>

definition ping_ready :: "nat \<Rightarrow> Pinger \<Rightarrow> bool" where
  "ping_ready n p \<longleftrightarrow> pinger_ok p \<and> length (pn_targets p) = n \<and> length (p_stats (pn_proc p)) = n \<and>
     (\<forall>t \<in> set (pn_targets p). tg_stat t < n) \<and> (\<forall>s \<in> set (p_stats (pn_proc p)). stat_ok s)"

text \<open>What a run leaves of the targets.\<close>

definition same_targets :: "Pinger \<Rightarrow> Pinger \<Rightarrow> bool" where
  "same_targets p p' \<longleftrightarrow> map (\<lambda>t. (tg_addr t, tg_ip t, tg_icmpID t, tg_stat t)) (pn_targets p') =
     map (\<lambda>t. (tg_addr t, tg_ip t, tg_icmpID t, tg_stat t)) (pn_targets p)"

lemma same_targets_trans: "same_targets p q \<Longrightarrow> same_targets q r \<Longrightarrow> same_targets p r"
  by (simp add: same_targets_def)

lemma call_stat_ready:
  assumes "\<forall>s \<in> set (p_stats proc). stat_ok s" "i < length (p_stats proc)" "call_ts_ok c" "\<And>s. f s = lift_bkts (run_call c) s"
  shows "\<exists>proc'. call_stat f i proc = Some proc' \<and> length (p_stats proc') = length (p_stats proc) \<and> (\<forall>s \<in> set (p_stats proc'). stat_ok s)"
proof -
  have "stat_ok (p_stats proc ! i)" using assms(1,2) by simp
  then obtain s' where "run_event (Record c) (p_stats proc ! i) = Some (s', [])" "stat_ok s'"
    using run_event_total [of "p_stats proc ! i" "Record c"] assms(3) by auto
  then show ?thesis using assms(1,2,4)
    by (auto simp: call_stat_def set_stat_def dest!: set_update_subset_insert [THEN subsetD])
qed

lemma send_echo_ready:
  assumes "ping_ready n p" "ping_event_ok n (EchoTo i io)"
  shows "\<exists>p' out. send_echo io i p = Some (p', out) \<and> ping_ready n p' \<and> same_targets p p'"
proof -
  let ?t = "(pn_targets p ! i)\<lparr>tg_seq := tg_seq (pn_targets p ! i) + 1\<rparr>"
  let ?ts = "case eo_txts io of None \<Rightarrow> eo_now io | Some ts \<Rightarrow> ts"
  have i: "i < length (pn_targets p)" "i < n" using assms by (simp_all add: ping_ready_def)
  then have t: "tg_stat ?t < length (p_stats (pn_proc p))" using assms(1) by (simp add: ping_ready_def)
  have "0 \<le> ?ts \<and> in_i64 ?ts" using assms(2) by (auto split: option.split)
  then obtain proc where proc: "call_stat (Stat_Put 0 0 (ucast (ucast (tg_seq ?t AND 0xFFFF) :: u16)) ?ts) (tg_stat ?t) (pn_proc p) = Some proc"
      "length (p_stats proc) = n" "\<forall>s \<in> set (p_stats proc). stat_ok s"
    using call_stat_ready [of "pn_proc p" "tg_stat ?t" "CPut 0 0 (ucast (ucast (tg_seq ?t AND 0xFFFF) :: u16)) ?ts"
        "Stat_Put 0 0 (ucast (ucast (tg_seq ?t AND 0xFFFF) :: u16)) ?ts"] t assms(1)
    by (auto simp: ping_ready_def Stat_Put_def lift_bkts_def)
  define q where "q = p\<lparr>pn_targets := (pn_targets p)[i := ?t]\<rparr>"
  have step: "\<exists>out. send_echo io i p = Some (q, out) \<or> send_echo io i p = Some (q\<lparr>pn_proc := proc\<rparr>, out)"
    using proc(1) by (cases "eo_build_ok io \<and> eo_write_ok io") (auto simp: send_echo_def Let_def q_def)
  have tg: "pn_targets q = (pn_targets p)[i := ?t]" by (simp add: q_def)
  have "same_targets p q" using i(1) by (auto simp: same_targets_def tg map_update list_update_same_conv nth_map)
  moreover have "length (pn_targets q) = n" "\<forall>t \<in> set (pn_targets q). tg_stat t < n"
    using assms(1) i t by (auto simp: tg ping_ready_def dest!: set_update_subset_insert [THEN subsetD])
  moreover have "p_stats (pn_proc q) = p_stats (pn_proc p)" by (simp add: q_def)
  ultimately show ?thesis
    using step send_echo_ok [of p i io] assms(1) i(1) proc(2,3) by (fastforce simp: ping_ready_def same_targets_def)
qed

lemma handleEchoReply_ready:
  assumes "ping_ready n p" "0 \<le> rxts" "in_i64 rxts"
  shows "\<exists>p'. handleEchoReply r rxts p = Some p' \<and> ping_ready n p' \<and> same_targets p p'"
proof -
  have rec: "\<exists>proc. call_stat (Stat_Received sq rxts rtt bf) (tg_stat t) (pn_proc p) = Some proc \<and>
      length (p_stats proc) = n \<and> (\<forall>s \<in> set (p_stats proc). stat_ok s)"
    if t: "t \<in> set (pn_targets p)" for sq rtt bf t
  proof -
    have "tg_stat t < length (p_stats (pn_proc p))" using assms(1) t by (simp add: ping_ready_def)
    then show ?thesis
      using call_stat_ready [of "pn_proc p" "tg_stat t" "CReceived sq rxts rtt bf" "Stat_Received sq rxts rtt bf"] assms
      by (auto simp: ping_ready_def Stat_Received_def lift_bkts_def)
  qed
  have keep: "ping_ready n (p\<lparr>pn_proc := proc\<rparr>) \<and> same_targets p (p\<lparr>pn_proc := proc\<rparr>)"
    if "length (p_stats proc) = n" "\<forall>s \<in> set (p_stats proc). stat_ok s" for proc
    using assms(1) that by (simp add: ping_ready_def pinger_ok_def same_targets_def)
  have "findTargetByICMPID p k = Some t \<Longrightarrow> t \<in> set (pn_targets p)" for k t
    by (auto simp: findTargetByICMPID_def find_Some_iff)
  then show ?thesis using rec keep assms(1)
    by (fastforce simp: handleEchoReply_def same_targets_def split: option.split)
qed

lemma ping_step_ready:
  assumes "ping_ready n p" "ping_event_ok n e"
  shows "\<exists>p' outs. ping_step dissect e p = Some (p', outs) \<and> ping_ready n p' \<and> same_targets p p'"
proof (cases e)
  case (EchoTo i io)
  then show ?thesis using send_echo_ready [OF assms(1), of i io] assms(2) by auto
next
  case (Arrived raw rxts)
  then show ?thesis using handleEchoReply_ready [OF assms(1), of rxts] assms
    by (auto simp: processPacket_def same_targets_def split: option.split)
next
  case (VisitStat i now)
  then have i: "i < length (p_stats (pn_proc p))" "stat_ok (p_stats (pn_proc p) ! i)" using assms by (simp_all add: ping_ready_def)
  then obtain s' out where "statOnce now (p_stats (pn_proc p) ! i) = Some (s', out)" "stat_ok s'" using statOnce_total by blast
  then show ?thesis using i(1) assms(1) VisitStat
    by (auto simp: ping_ready_def pinger_ok_def same_targets_def dest!: set_update_subset_insert [THEN subsetD])
qed

lemma ping_session_ready:
  assumes "ping_ready n p" "\<forall>e \<in> set es. ping_event_ok n e"
  shows "\<exists>p' outs. ping_session dissect es p = Some (p', outs) \<and> ping_ready n p' \<and> same_targets p p'"
  using assms
proof (induction es arbitrary: p)
  case (Cons e es)
  obtain p1 out where p1: "ping_step dissect e p = Some (p1, out)" "ping_ready n p1" "same_targets p p1"
    using ping_step_ready [OF Cons.prems(1), of e dissect] Cons.prems(2) by auto
  obtain p2 outs where "ping_session dissect es p1 = Some (p2, outs)" "ping_ready n p2" "same_targets p1 p2"
    using Cons.IH [OF p1(2)] Cons.prems(2) by auto
  then show ?case using p1 same_targets_trans by auto
qed (simp add: same_targets_def)

section \<open>A run of mping\<close>

lemma ping_Validate_numbers:
  assumes "ping_Validate env c = Inr c'" "pg_Span c = second"
  shows "8 \<le> pg_Size c'" "pg_Span c' = second"
proof -
  have d: "8 \<le> pg_Size (ping_defaults c)" "pg_Span c = second \<Longrightarrow> pg_Span (ping_defaults c) = second" for c
    by (simp_all add: ping_defaults_def Let_def second_def)
  have "\<exists>c1. c' = ping_defaults c1 \<and> pg_Span c1 = pg_Span c"
    using assms(1) by (fastforce simp: ping_Validate_def ping_check_local_def Let_def split: if_splits option.splits sum.splits)
  then show "8 \<le> pg_Size c'" "pg_Span c' = second" using d assms(2) by auto
qed

lemma mping_main_Start:
  assumes "mping_main parseCIDR env f args = Some (Start cfg)"
  shows "\<exists>as. ping_Validate env (mping_config f as) = Inr cfg \<and> int (length (pg_TargetAddrs cfg)) \<le> mf_maxTargets f"
proof -
  obtain as ts where ts: "cap_targets (mf_maxTargets f) as = Start ts" "ping_Validate env (mping_config f ts) = Inr cfg"
    using assms by (auto simp: mping_main_def mping_start_def Let_def split: if_splits option.splits sum.splits list.splits outcome.splits)
  have "int (length ts) \<le> mf_maxTargets f" using ts(1) by (auto simp: cap_targets_def split: if_splits)
  moreover have "pg_TargetAddrs cfg = ts" using ping_Validate_targets(1) [OF ts(2)] by (simp add: mping_config_def)
  ultimately show ?thesis using ts(2) by blast
qed

lemma run_targets_ready:
  assumes "0 < pg_Span conf" "\<forall>s \<in> set (p_stats proc). stat_ok s" "run_targets seqs conf ts proc = (ts', proc')"
  shows "length (p_stats proc') = length (p_stats proc) + length ts" "\<forall>t \<in> set ts'. tg_stat t < length (p_stats proc')"
    "\<forall>s \<in> set (p_stats proc'). stat_ok s" "map (\<lambda>t. (tg_addr t, tg_ip t)) ts' = map (\<lambda>t. (tg_addr t, tg_ip t)) ts"
proof -
  have "length (p_stats proc') = length (p_stats proc) + length ts \<and> (\<forall>t \<in> set ts'. tg_stat t < length (p_stats proc')) \<and>
    (\<forall>s \<in> set (p_stats proc'). stat_ok s) \<and> map (\<lambda>t. (tg_addr t, tg_ip t)) ts' = map (\<lambda>t. (tg_addr t, tg_ip t)) ts"
    using assms(2,3)
  proof (induction ts arbitrary: proc ts')
    case (Cons t ts)
    let ?s = "NewStat (pg_LocalAddr conf) (tg_addr t) zero_range zero_range (pg_Rate conf) (pg_Span conf) (pg_Delay conf) True"
    obtain ts1 where ts1: "run_targets seqs conf ts (AddStat ?s proc) = (ts1, proc')"
        "ts' = t\<lparr>tg_stat := length (p_stats proc), tg_seq := seqs (length (p_stats proc))\<rparr> # ts1"
      using Cons.prems(2) by (auto simp: Let_def split: prod.splits)
    have "\<forall>s \<in> set (p_stats (AddStat ?s proc)). stat_ok s"
      using Cons.prems(1) stat_ok_New(1) [OF assms(1)] by (auto simp: AddStat_def)
    from Cons.IH [OF this ts1(1)] show ?case using ts1(2) by (auto simp: AddStat_def)
  qed simp
  then show "length (p_stats proc') = length (p_stats proc) + length ts" "\<forall>t \<in> set ts'. tg_stat t < length (p_stats proc')"
    "\<forall>s \<in> set (p_stats proc'). stat_ok s" "map (\<lambda>t. (tg_addr t, tg_ip t)) ts' = map (\<lambda>t. (tg_addr t, tg_ip t)) ts" by blast+
qed

lemma Run_setup_ready:
  assumes "new_pinger ip_of conf ospid = Some p" "8 \<le> pg_Size conf" "length (pg_TargetAddrs conf) \<le> 65536" "0 < pg_Span conf"
  shows "ping_ready (length (pg_TargetAddrs conf)) (Run_setup seqs p)"
    "map (\<lambda>t. (tg_addr t, tg_ip t)) (pn_targets (Run_setup seqs p)) = map (\<lambda>a. (a, ip_of a)) (pg_TargetAddrs conf)"
proof -
  have p: "pn_conf p = conf" "pn_targets p = new_targets ip_of (pn_pid p) (pg_TargetAddrs conf)"
    using assms(1) by (auto simp: new_pinger_def Let_def split: option.splits)
  obtain ts proc where rt: "run_targets seqs conf (pn_targets p) (NewProcessor (pg_Span conf) (pg_Delay conf)) = (ts, proc)" by fastforce
  have len: "length (pn_targets p) = length (pg_TargetAddrs conf)" by (simp add: p(2) new_targets_def)
  have tgt: "map (\<lambda>t. (tg_addr t, tg_ip t)) (pn_targets p) = map (\<lambda>a. (a, ip_of a)) (pg_TargetAddrs conf)"
    by (rule nth_equalityI) (simp_all add: p(2) new_targets_def nth_enumerate_eq)
  have made: "pn_targets (Run_setup seqs p) = ts" "pn_proc (Run_setup seqs p) = proc"
    by (simp_all add: Run_setup_def p(1) rt)
  have "\<forall>s \<in> set (p_stats (NewProcessor (pg_Span conf) (pg_Delay conf))). stat_ok s" "p_stats (NewProcessor (pg_Span conf) (pg_Delay conf)) = []"
    by (simp_all add: NewProcessor_def)
  note r = run_targets_ready [OF assms(4) this(1) rt] this(2)
  have "length ts = length (pg_TargetAddrs conf)" using arg_cong [where f = length, OF r(4)] len by simp
  then show "ping_ready (length (pg_TargetAddrs conf)) (Run_setup seqs p)"
    using pinger_setup [OF assms(1-3)] r(1-3,5) len unfolding ping_ready_def made by simp
  show "map (\<lambda>t. (tg_addr t, tg_ip t)) (pn_targets (Run_setup seqs p)) = map (\<lambda>a. (a, ip_of a)) (pg_TargetAddrs conf)"
    using r(4) tgt unfolding made by (rule trans)
qed

text \<open>An unchanged reply of the target at a position is credited to it, whichever of its probes it answers.\<close>

definition credits_replies :: "Pinger \<Rightarrow> nat \<Rightarrow> bool" where
  "credits_replies p i \<longleftrightarrow> (\<exists>ip. tg_ip (pn_targets p ! i) = Some ip \<and> length ip = 4 \<and>
    (\<forall>src sq now rxts. IP_Equal src ip \<and> now \<noteq> 0 \<and> in_i64 now \<and> 0 \<le> rxts \<and> in_i64 rxts \<longrightarrow>
      (\<exists>proc. handleEchoReply \<lparr>rp_type = Some 0, rp_id = Some (tg_icmpID (pn_targets p ! i)), rp_src = Some src,
          rp_seq = Some (ucast (sq AND 0xFFFF)), rp_load = Some (echo_payload p sq now)\<rparr> rxts p = Some (p\<lparr>pn_proc := proc\<rparr>) \<and>
        call_stat (Stat_Received (ucast (ucast (sq AND 0xFFFF) :: u16)) rxts (i64 (rxts - now)) False)
          (tg_stat (pn_targets p ! i)) (pn_proc p) = Some proc)))"

lemma map_option_SomeD: "x = map_option f y \<Longrightarrow> x = Some v \<Longrightarrow> \<exists>w. x = Some (f w) \<and> y = Some w"
  by (cases y) auto

lemma reply_credited:
  assumes ready: "ping_ready n p" and tgt: "map (\<lambda>t. (tg_addr t, tg_ip t)) (pn_targets p) =
      map (\<lambda>a. (a, case e_ParseIP env a of None \<Rightarrow> None | Some ip \<Rightarrow> To4 ip)) addrs"
    and i: "i < length addrs" and valid: "\<forall>a \<in> set addrs. valid_ip4 env a"
  shows "credits_replies p i"
proof -
  have n: "length (pn_targets p) = length addrs" using arg_cong [where f = length, OF tgt] by simp
  have "tg_ip (pn_targets p ! i) = (case e_ParseIP env (addrs ! i) of None \<Rightarrow> None | Some ip \<Rightarrow> To4 ip)"
    using arg_cong [where f = "\<lambda>xs. snd (xs ! i)", OF tgt] i n by simp
  moreover have "valid_ip4 env (addrs ! i)" using valid i by simp
  ultimately obtain ip where ip: "tg_ip (pn_targets p ! i) = Some ip" "length ip = 4"
    by (auto simp: valid_ip4_def To4_def v4InV6Prefix_def split: option.splits if_splits)
  have ok: "pinger_ok p" "i < length (pn_targets p)" using ready i n by (simp_all add: ping_ready_def)
  have "\<exists>proc. handleEchoReply \<lparr>rp_type = Some 0, rp_id = Some (tg_icmpID (pn_targets p ! i)), rp_src = Some src,
          rp_seq = Some (ucast (sq AND 0xFFFF)), rp_load = Some (echo_payload p sq now)\<rparr> rxts p = Some (p\<lparr>pn_proc := proc\<rparr>) \<and>
        call_stat (Stat_Received (ucast (ucast (sq AND 0xFFFF) :: u16)) rxts (i64 (rxts - now)) False)
          (tg_stat (pn_targets p ! i)) (pn_proc p) = Some proc"
    if a: "IP_Equal src ip \<and> now \<noteq> 0 \<and> in_i64 now \<and> 0 \<le> rxts \<and> in_i64 rxts" for src sq now rxts
  proof -
    obtain p' where p': "handleEchoReply \<lparr>rp_type = Some 0, rp_id = Some (tg_icmpID (pn_targets p ! i)), rp_src = Some src,
          rp_seq = Some (ucast (sq AND 0xFFFF)), rp_load = Some (echo_payload p sq now)\<rparr> rxts p = Some p'"
      using handleEchoReply_ready [OF ready, of rxts] a by blast
    show ?thesis by (rule map_option_SomeD [OF clean_reply_credited [OF ok ip(1)] p']) (use a in simp_all)
  qed
  then show ?thesis unfolding credits_replies_def by (intro exI [of _ ip] conjI ip allI impI)
qed

text \<open>
  C7. From the command line to the replies: when \<open>mping\<close> starts, with at most 65536 targets as the default
  limit has it, the pinger can be made, and once its socket is open no interleaving of requests, arriving
  packets of any content and reports makes it fail. At every point the targets are those of the
  command line with their addresses, and an unchanged reply of a target, whichever of its probes it
  answers, is credited to the statistics of that target with the time since the probe.
\<close>

theorem mping_never_fails:
  assumes "mping_main parseCIDR env f args = Some (Start cfg)" "mf_maxTargets f \<le> 65536"
  shows "\<exists>p. NewPinger env cfg ospid = Some p \<and>
    (\<forall>p0 tx rx es. ping_Run le seqs p = Inr (p0, tx, rx) \<and> (\<forall>e \<in> set es. ping_event_ok (length (pg_TargetAddrs cfg)) e) \<longrightarrow>
      (\<exists>p' outs. ping_session dissect es p0 = Some (p', outs) \<and> map tg_addr (pn_targets p') = pg_TargetAddrs cfg \<and>
        (\<forall>i < length (pg_TargetAddrs cfg). credits_replies p' i)))"
proof -
  let ?n = "length (pg_TargetAddrs cfg)" and ?ip = "\<lambda>addr. case e_ParseIP env addr of None \<Rightarrow> None | Some ip \<Rightarrow> To4 ip"
  obtain as where as: "ping_Validate env (mping_config f as) = Inr cfg" "int ?n \<le> mf_maxTargets f"
    using mping_main_Start [OF assms(1)] by blast
  note num = ping_Validate_numbers [OF as(1)]
  have cfg: "8 \<le> pg_Size cfg" "0 < pg_Span cfg" "?n \<le> 65536" "\<forall>a \<in> set (pg_TargetAddrs cfg). valid_ip4 env a"
    using num as(2) assms(2) ping_Validate_targets [OF as(1)] by (auto simp: mping_config_def second_def)
  obtain p where p: "NewPinger env cfg ospid = Some p"
    using cfg(1) by (auto simp: NewPinger_def new_pinger_def NewSalts_def timestampLen_def Let_def)
  have "\<exists>p' outs. ping_session dissect es p0 = Some (p', outs) \<and> map tg_addr (pn_targets p') = pg_TargetAddrs cfg \<and>
      (\<forall>i < ?n. credits_replies p' i)"
    if a: "ping_Run le seqs p = Inr (p0, tx, rx) \<and> (\<forall>e \<in> set es. ping_event_ok ?n e)" for p0 tx rx es
  proof -
    have p0: "p0 = Run_setup seqs p" using a by (auto simp: ping_Run_def split: opened.splits)
    note ready = Run_setup_ready [OF p [unfolded NewPinger_def] cfg(1,3,2), of seqs, folded p0]
    obtain p' outs where p': "ping_session dissect es p0 = Some (p', outs)" "ping_ready ?n p'" "same_targets p0 p'"
      using ping_session_ready [OF ready(1)] a by blast
    have tgt: "map (\<lambda>t. (tg_addr t, tg_ip t)) (pn_targets p') = map (\<lambda>a. (a, ?ip a)) (pg_TargetAddrs cfg)"
      using arg_cong [where f = "map (\<lambda>(a, b, c, d). (a, b))", OF p'(3) [unfolded same_targets_def]] ready(2)
      by (simp add: comp_def)
    have addrs: "map tg_addr (pn_targets p') = pg_TargetAddrs cfg"
      using arg_cong [where f = "map fst", OF tgt] by (simp add: comp_def)
    have "\<forall>i < ?n. credits_replies p' i" using reply_credited [OF p'(2) tgt _ cfg(4)] by blast
    then show ?thesis using p'(1) addrs by blast
  qed
  then show ?thesis using p by blast
qed

definition demo_listen :: listen_env where
  "demo_listen = \<lparr>ln_ListenPacket = (\<lambda>_. True), ln_File_ok = True, ln_bind6_ok = True,
     ln_kernel = \<lparr>kn_socket_ok = True, kn_ioctl = (\<lambda>_ _ _. None), kn_setsockopt = (\<lambda>_. True)\<rparr>\<rparr>"

lemma demo_listen_opens: "ping_Run demo_listen seqs p = Inr (Run_setup seqs p, pg_Hwts (pn_conf p), pg_Hwts (pn_conf p))"
  by (simp add: ping_Run_def openConn_def stamp_and_timeout_def demo_listen_def configure_stamps_def set_timeouts_def
      configureTimestamps_def Let_def)

theorem mping_never_fails_witness:
  "\<exists>cfg p p' outs. mping_main (\<lambda>_. None) demo_cmd_env (mping_flag_defaults\<lparr>mf_localAddr := ''10.0.0.1'', mf_iface := ''eth0''\<rparr>)
      [''10.0.0.1, 10.0.0.1''] = Some (Start cfg) \<and> NewPinger demo_cmd_env cfg 77 = Some p \<and>
    ping_session (\<lambda>_. None) [EchoTo 0 (demo_round 0), Arrived [] 20, VisitStat 0 30] (Run_setup (\<lambda>_. 5) p) = Some (p', outs) \<and>
    credits_replies p' 0"
proof -
  let ?f = "mping_flag_defaults\<lparr>mf_localAddr := ''10.0.0.1'', mf_iface := ''eth0''\<rparr>"
  have "case mping_main (\<lambda>_. None) demo_cmd_env ?f [''10.0.0.1, 10.0.0.1''] of Some (Start cfg) \<Rightarrow> pg_TargetAddrs cfg \<noteq> [] | _ \<Rightarrow> False" by code_simp
  then obtain cfg where cfg: "mping_main (\<lambda>_. None) demo_cmd_env ?f [''10.0.0.1, 10.0.0.1''] = Some (Start cfg)" "pg_TargetAddrs cfg \<noteq> []"
    by (auto split: option.splits outcome.splits)
  have ok: "\<forall>e \<in> set [EchoTo 0 (demo_round 0), Arrived [] 20, VisitStat 0 30]. ping_event_ok (length (pg_TargetAddrs cfg)) e" "mf_maxTargets ?f \<le> 65536"
    using cfg(2) by (simp_all add: demo_round_def in_i64_def mping_flag_defaults_def)
  obtain p where p: "NewPinger demo_cmd_env cfg 77 = Some p"
    and run: "\<forall>p0 tx rx es. ping_Run demo_listen (\<lambda>_. 5) p = Inr (p0, tx, rx) \<and> (\<forall>e \<in> set es. ping_event_ok (length (pg_TargetAddrs cfg)) e) \<longrightarrow>
      (\<exists>p' outs. ping_session (\<lambda>_. None) es p0 = Some (p', outs) \<and> map tg_addr (pn_targets p') = pg_TargetAddrs cfg \<and>
        (\<forall>i < length (pg_TargetAddrs cfg). credits_replies p' i))"
    using mping_never_fails [OF cfg(1) ok(2), of 77 demo_listen "\<lambda>_. 5" "\<lambda>_. None"] by blast
  obtain p' outs where "ping_session (\<lambda>_. None) [EchoTo 0 (demo_round 0), Arrived [] 20, VisitStat 0 30] (Run_setup (\<lambda>_. 5) p) = Some (p', outs)"
      "\<forall>i < length (pg_TargetAddrs cfg). credits_replies p' i"
    using run demo_listen_opens ok(1) by meson
  then show ?thesis using cfg p by blast
qed

text \<open>A kernel without hardware timestamps does not keep \<open>mping\<close> from running: of the calls that set up
  the stamps only a refusal of both kinds of stamp ends it.\<close>

lemma openConn_opens:
  "(\<exists>tx rx. openConn env conf = Opened tx rx) \<longleftrightarrow>
     ln_ListenPacket env (if pg_LocalAddr conf = [] then ''0.0.0.0'' else pg_LocalAddr conf) \<and> ln_File_ok env \<and>
     (pg_Hwts conf \<longrightarrow> kn_setsockopt (ln_kernel env) (OPT_TIMESTAMPING stamping_flags) \<or> kn_setsockopt (ln_kernel env) (OPT_TIMESTAMPNS 1)) \<and>
     set_timeouts (ln_kernel env) (pg_Timeout conf) = None"
  by (auto simp: openConn_def stamp_and_timeout_def configure_stamps_def configureTimestamps_def Let_def split: option.splits)

text \<open>On the other systems the microseconds of a timeout survive their conversion.\<close>

lemma setSocketTimeouts_other_same:
  assumes "0 \<le> timeout"
  shows "setSocketTimeouts_other timeout = setSocketTimeouts timeout"
proof -
  have "0 \<le> timeout mod 1000000000 div 1000" by (simp add: pos_imp_zdiv_nonneg_iff)
  moreover have "timeout mod 1000000000 div 1000 < 1000000"
    using pos_mod_bound [of 1000000000 timeout] by (simp add: div_less_iff_less_mult)
  ultimately have "sint (word_of_int (timeout mod 1000000000 div 1000) :: 32 word) = timeout mod 1000000000 div 1000"
    by (simp add: signed_of_int signed_take_bit_int_eq_self_iff)
  moreover have "(timeout smod second) sdiv 1000 = timeout mod 1000000000 div 1000"
    using assms by (simp add: second_def sdiv_nonneg signed_modulo_int_def sgn_if abs_if)
  ultimately show ?thesis by (simp add: setSocketTimeouts_other_def setSocketTimeouts_def Let_def)
qed

end
