(* ===== verification/Stat_Records.thy ===== *)
theory Stat_Records
  imports Stat_Report
begin

text \<open>
  Properties of the single records that the operations of the statistics keep. A client of the package
  gives a property of a sequence number and its record; the lemmas say what each recording operation
  needs to preserve it in all buckets, and that reporting always does.
\<close>

definition all_requests :: "(u64 \<Rightarrow> request \<Rightarrow> bool) \<Rightarrow> buckets \<Rightarrow> bool" where
  "all_requests P bs \<longleftrightarrow> map_all (\<lambda>k b. map_all P (b_requests b)) (bs_buckets bs)"

lemma all_requests_new [simp]: "all_requests P (newBuckets spn rate side)"
  by (simp add: all_requests_def newBuckets_def)

lemma all_requests_mono:
  "all_requests P bs \<Longrightarrow> (\<And>seq r. P seq r \<Longrightarrow> Q seq r) \<Longrightarrow> all_requests Q bs"
  unfolding all_requests_def map_all_def by blast

lemma all_requests_table: "all_requests P bs \<Longrightarrow> table_of bs (k, seq) = Some r \<Longrightarrow> P seq r"
  by (auto simp: all_requests_def table_of_def dest!: map_all_lookup split: option.splits)

lemma all_requests_modify:
  assumes "all_requests P bs" "\<And>b. map_all P (b_requests b) \<Longrightarrow> map_all P (b_requests (f b))"
  shows "all_requests P (modify_bucket k f bs)"
  using assms unfolding all_requests_def
  by (auto simp: modify_bucket_def intro!: map_all_update dest: map_all_lookup split: option.splits)

lemma all_requests_ensure: "all_requests P bs \<Longrightarrow> all_requests P (ensure_bucket k bs)"
  unfolding all_requests_def
  by (auto simp: ensure_bucket_def newBucket_def intro!: map_all_update split: option.splits)

lemma all_requests_try:
  assumes "all_requests P bs" "try_update k u bs = Some bs'"
    and "\<And>b. map_all P (b_requests b) \<Longrightarrow> map_all P (b_requests (fst (u b)))"
  shows "all_requests P bs'"
proof -
  obtain b b' where b: "map_of (bs_buckets bs) k = Some b" "u b = (b', True)"
      "bs' = bs\<lparr>bs_buckets := AList.update k b' (bs_buckets bs)\<rparr>"
    using assms(2) by (auto simp: try_update_def split: option.splits prod.splits if_splits)
  have "map_all P (b_requests b)" using assms(1) map_all_lookup [OF _ b(1)] by (simp add: all_requests_def)
  then have "map_all P (b_requests b')" using assms(3) [of b] b(2) by simp
  then show ?thesis using assms(1) b(3) by (simp add: all_requests_def map_all_update)
qed

text \<open>What one bucket does to its records.\<close>

lemma bucket_put_requests:
  assumes "map_all P (b_requests b)" "P seq (request0\<lparr>r_clientPort := cp, r_serverPort := sp, r_seq := seq, r_ts := ts, r_rtt := rttUnset\<rparr>)"
    and "\<And>r. P seq r \<Longrightarrow> P seq (r\<lparr>r_clientPort := cp, r_serverPort := sp, r_ts := ts\<rparr>)"
  shows "map_all P (b_requests (bucket_put cp sp seq ts b))"
  using assms by (auto simp: bucket_put_def intro!: map_all_update dest: map_all_lookup split: option.splits)

lemma bucket_received_requests:
  assumes "map_all P (b_requests b)" "P seq (request0\<lparr>r_seq := seq, r_rtt := rtt, r_hasBitflip := bf\<rparr>)"
    and "\<And>r. P seq r \<Longrightarrow> P seq (r\<lparr>r_rtt := rtt, r_hasBitflip := bf\<rparr>)"
  shows "map_all P (b_requests (bucket_received seq rtt bf b))"
    "map_all P (b_requests (fst (bucket_updateReceived seq rtt bf b)))"
  using assms by (auto simp: bucket_received_def bucket_updateReceived_def intro!: map_all_update
      dest: map_all_lookup split: option.splits)

text \<open>The operations of a statistics object.\<close>

lemma Stat_Put_requests:
  assumes "all_requests P (us_bkts s)" "Stat_Put cp sp seq ts s = Some s'"
    and "P seq (request0\<lparr>r_clientPort := cp, r_serverPort := sp, r_seq := seq, r_ts := ts, r_rtt := rttUnset\<rparr>)"
    and "\<And>r. P seq r \<Longrightarrow> P seq (r\<lparr>r_clientPort := cp, r_serverPort := sp, r_ts := ts\<rparr>)"
  shows "all_requests P (us_bkts s')"
  using assms
  by (auto simp: Stat_Put_def lift_bkts_def buckets_put_def
      intro!: all_requests_modify all_requests_ensure bucket_put_requests split: option.splits)

lemma Stat_Delete_requests:
  assumes "all_requests P (us_bkts s)" "Stat_Delete seq ts s = Some s'"
  shows "all_requests P (us_bkts s')"
  using assms
  by (auto simp: Stat_Delete_def lift_bkts_def buckets_delete_def bucket_delete_def
      intro!: all_requests_modify map_all_delete split: option.splits)

lemma Stat_Received_requests:
  assumes "all_requests P (us_bkts s)" "Stat_Received seq ts rtt bf s = Some s'"
    and "P seq (request0\<lparr>r_seq := seq, r_rtt := rtt, r_hasBitflip := bf\<rparr>)"
    and "\<And>r. P seq r \<Longrightarrow> P seq (r\<lparr>r_rtt := rtt, r_hasBitflip := bf\<rparr>)"
  shows "all_requests P (us_bkts s')"
proof -
  note upd = bucket_received_requests [where P = P, OF _ assms(3,4)]
  have "all_requests P (modify_bucket k (bucket_received seq rtt bf) (ensure_bucket k (us_bkts s)))" for k
    using assms(1) upd(1) by (intro all_requests_modify all_requests_ensure)
  then show ?thesis
    using assms(1,2) all_requests_try [OF assms(1) _ upd(2)]
    by (auto simp: Stat_Received_def lift_bkts_def buckets_received_def split: option.splits)
qed

lemma Stat_ReceivedAndFix_requests:
  assumes "all_requests P (us_bkts s)" "Stat_ReceivedAndFix seq ts rtt n sp dp bf s = Some s'"
    and "P seq (request0\<lparr>r_seq := seq, r_rtt := rtt, r_hasBitflip := bf\<rparr>)"
    and "\<And>r. P seq r \<Longrightarrow> P seq (r\<lparr>r_rtt := rtt, r_hasBitflip := bf\<rparr>)"
  shows "all_requests P (us_bkts s')"
  using assms
  by (auto simp: Stat_ReceivedAndFix_def lift_bkts_def buckets_receivedAndFix_def Let_def
      intro!: all_requests_modify all_requests_ensure bucket_received_requests split: option.splits if_splits)

lemma all_requests_remove: "all_requests P bs \<Longrightarrow> all_requests P (buckets_remove k bs)"
  by (simp add: all_requests_def map_all_delete)

lemma drop_reported_requests:
  "drop_reported n bs = Some y \<Longrightarrow> all_requests P bs \<longrightarrow> all_requests P (fst y)"
proof (rule drop_reported.raw_induct [of "\<lambda>n bs y. all_requests P bs \<longrightarrow> all_requests P (fst y)"])
  fix f n bs y
  assume "\<And>n bs y. f n bs = Some y \<Longrightarrow> all_requests P bs \<longrightarrow> all_requests P (fst y)"
    and "(case buckets_oldest bs of None \<Rightarrow> Some (bs, None)
      | Some b \<Rightarrow> if b_id b \<le> n then f n (buckets_remove (b_id b) bs) else Some (bs, Some b)) = Some y"
  then show "all_requests P bs \<longrightarrow> all_requests P (fst y)"
    using all_requests_remove [of P bs] by (auto split: option.splits if_splits)
qed

lemma statOnce_requests:
  assumes "statOnce now s = Some (s', out)" "all_requests P (us_bkts s)"
  shows "all_requests P (us_bkts s')"
  using assms drop_reported_requests [where P = P]
  by (fastforce simp: statOnce_def Let_def all_requests_remove split: option.splits bool.splits)

lemma runOnce_loop_requests:
  assumes "runOnce_loop now n ss = Some (ss', os)"
  shows "length ss' = length ss"
    "i < length ss \<Longrightarrow> all_requests P (us_bkts (ss ! i)) \<Longrightarrow> all_requests P (us_bkts (ss' ! i))"
proof -
  have "length ss' = length ss \<and>
      (\<forall>i < length ss. all_requests P (us_bkts (ss ! i)) \<longrightarrow> all_requests P (us_bkts (ss' ! i)))"
    using assms
  proof (induction now n ss arbitrary: ss' os rule: runOnce_loop.induct)
    case (2 now n s ss)
    obtain s1 out ss1 outs1 where s1: "statOnce (now n) s = Some (s1, out)" "runOnce_loop now (Suc n) ss = Some (ss1, outs1)"
        "ss' = s1 # ss1"
      using "2.prems" by (auto split: option.splits)
    have "all_requests P (us_bkts s) \<longrightarrow> all_requests P (us_bkts s1)" using statOnce_requests [OF s1(1)] by blast
    moreover have "length ss1 = length ss \<and> (\<forall>i < length ss. all_requests P (us_bkts (ss ! i)) \<longrightarrow> all_requests P (us_bkts (ss1 ! i)))"
      using "2.IH" [OF s1(1) refl s1(2)] .
    ultimately show ?case using s1(3) by (auto simp: less_Suc_eq_0_disj)
  qed simp
  then show "length ss' = length ss"
    "i < length ss \<Longrightarrow> all_requests P (us_bkts (ss ! i)) \<Longrightarrow> all_requests P (us_bkts (ss' ! i))"
    by auto
qed

lemma runOnce_requests:
  assumes "runOnce now p = Some (p', outs)"
  shows "length (p_stats p') = length (p_stats p)"
    "i < length (p_stats p) \<Longrightarrow> all_requests P (us_bkts (p_stats p ! i)) \<Longrightarrow> all_requests P (us_bkts (p_stats p' ! i))"
  using assms runOnce_loop_requests by (auto simp: runOnce_def)

end
