(* ===== verification/Sonar_System.thy ===== *)
theory Sonar_System
  imports Sonar_Server Stat_Records
begin

text \<open>
  The bit-flip probe as a system: a client, the servers it probes, and the network between them, as a
  step relation. The network may lose, delay, reorder and duplicate packets and damage their bodies:
  every packet ever written can be delivered at any later time, any number of times. The client's send
  loop, its receivers and the two processors take their steps in any interleaving.
\<close>

section \<open>Steps\<close>

text \<open>\<open>sy_served\<close> is a history of the payloads each server has answered, \<open>sy_echoes\<close> holds the packets on
  their way back; both are tagged with the address of the server.\<close>

record sonar_system =
  sy_sender :: sender_state
  sy_servers :: "string \<Rightarrow> Server"
  sy_served :: "(string \<times> byte list) list"
  sy_echoes :: "(string \<times> byte list) list"

text \<open>What the network may do to a payload: change its body, never its header or length.\<close>

definition damaged_from :: "byte list \<Rightarrow> byte list \<Rightarrow> bool" where
  "damaged_from d d' \<longleftrightarrow> length d' = length d \<and> take MsgHeaderLen d' = take MsgHeaderLen d"

abbreviation client_of :: "sonar_system \<Rightarrow> Client" where
  "client_of s \<equiv> ss_client (sy_sender s)"

inductive sys_step :: "builder \<Rightarrow> (byte list \<Rightarrow> byte list option) \<Rightarrow> sonar_system \<Rightarrow> sonar_system \<Rightarrow> bool"
  for build dissect where
  send: "send_probe build io key (sy_sender s) = Some (st', res) \<Longrightarrow> sys_step build dissect s (s\<lparr>sy_sender := st'\<rparr>)"
| deliver: "\<lbrakk>(srv, data) \<in> set (ss_wire (sy_sender s)); dissect data = Some sent; damaged_from sent payload;
     readPackets now port ip rport payload (sy_servers s srv) = Some (server', Some echo);
     dissect pkt = Some answer; damaged_from echo answer\<rbrakk> \<Longrightarrow>
   sys_step build dissect s (s\<lparr>sy_servers := (sy_servers s)(srv := server'),
     sy_served := (srv, payload) # sy_served s, sy_echoes := (srv, pkt) # sy_echoes s\<rparr>)"
| reject: "\<lbrakk>(srv, data) \<in> set (ss_wire (sy_sender s)); dissect data = Some sent; damaged_from sent payload;
     readPackets now port ip rport payload (sy_servers s srv) = Some (server', None)\<rbrakk> \<Longrightarrow>
   sys_step build dissect s (s\<lparr>sy_servers := (sy_servers s)(srv := server')\<rparr>)"
| receive: "\<lbrakk>(srv, pkt) \<in> set (sy_echoes s); handlePacket dissect now since srv pkt (client_of s) = Some c'\<rbrakk> \<Longrightarrow>
   sys_step build dissect s (s\<lparr>sy_sender := (sy_sender s)\<lparr>ss_client := c'\<rparr>\<rparr>)"
| report: "runOnce clock (cl_proc (client_of s)) = Some (proc', outs) \<Longrightarrow>
   sys_step build dissect s (s\<lparr>sy_sender := (sy_sender s)\<lparr>ss_client := (client_of s)\<lparr>cl_proc := proc'\<rparr>\<rparr>\<rparr>)"
| server_report: "runOnce clock (se_proc (sy_servers s srv)) = Some (proc', outs) \<Longrightarrow>
   sys_step build dissect s (s\<lparr>sy_servers := (sy_servers s)(srv := (sy_servers s srv)\<lparr>se_proc := proc'\<rparr>)\<rparr>)"

inductive sys_reachable :: "builder \<Rightarrow> (byte list \<Rightarrow> byte list option) \<Rightarrow> sonar_system \<Rightarrow> sonar_system \<Rightarrow> bool"
  for build dissect s0 where
  start: "sys_reachable build dissect s0 s0"
| steps: "sys_reachable build dissect s0 s \<Longrightarrow> sys_step build dissect s s' \<Longrightarrow> sys_reachable build dissect s0 s'"

definition sonar_start :: "Client \<Rightarrow> (string \<Rightarrow> Server) \<Rightarrow> sonar_system" where
  "sonar_start c servers = \<lparr>sy_sender = start_sending c, sy_servers = servers, sy_served = [], sy_echoes = []\<rparr>"


section \<open>Peers and their statistics\<close>

text \<open>Every peer has a statistics object of its own, and its records all have a property.\<close>

definition own_stats :: "(string \<Rightarrow> u64 \<Rightarrow> request \<Rightarrow> bool) \<Rightarrow> Client \<Rightarrow> bool" where
  "own_stats P c \<longleftrightarrow>
     (\<forall>k p. map_of (cl_peers c) k = Some p \<longrightarrow> pe_stat p < length (p_stats (cl_proc c)) \<and>
        all_requests (P k) (us_bkts (p_stats (cl_proc c) ! pe_stat p)) \<and>
        (\<forall>k' p'. map_of (cl_peers c) k' = Some p' \<longrightarrow> pe_stat p' = pe_stat p \<longrightarrow> k' = k))"

lemma own_statsI:
  assumes "\<And>k p. map_of (cl_peers c) k = Some p \<Longrightarrow> pe_stat p < length (p_stats (cl_proc c))"
    and "\<And>k p. map_of (cl_peers c) k = Some p \<Longrightarrow> all_requests (P k) (us_bkts (p_stats (cl_proc c) ! pe_stat p))"
    and "\<And>k p k' p'. \<lbrakk>map_of (cl_peers c) k = Some p; map_of (cl_peers c) k' = Some p'; pe_stat p' = pe_stat p\<rbrakk> \<Longrightarrow> k' = k"
  shows "own_stats P c"
  using assms unfolding own_stats_def by blast

lemma own_statsD:
  assumes "own_stats P c" "map_of (cl_peers c) k = Some p"
  shows "pe_stat p < length (p_stats (cl_proc c))"
    "all_requests (P k) (us_bkts (p_stats (cl_proc c) ! pe_stat p))"
    "map_of (cl_peers c) k' = Some p' \<Longrightarrow> pe_stat p' = pe_stat p \<Longrightarrow> k' = k"
  using assms unfolding own_stats_def by blast+

lemma own_stats_mono: "own_stats P c \<Longrightarrow> (\<And>k seq r. P k seq r \<Longrightarrow> Q k seq r) \<Longrightarrow> own_stats Q c"
  unfolding own_stats_def using all_requests_mono by metis

lemma initPeers_own: "own_stats P c \<Longrightarrow> own_stats P (initPeers env seqs addrs c)"
proof (induction addrs arbitrary: c)
  case (Cons a addrs)
  let ?n = "length (p_stats (cl_proc c))"
  let ?p = "new_peer env (cl_conf c) (seqs ?n) ?n a"
  let ?s = "NewStat (c_ClientAddr (cl_conf c)) a (c_ClientPortRange (cl_conf c)) (c_ServerPortRange (cl_conf c))
                (c_RateInSpan (cl_conf c)) (c_Span (cl_conf c)) (c_Delay (cl_conf c)) True"
  have new: "pe_stat ?p = ?n" by (simp add: new_peer_def)
  let ?c = "c\<lparr>cl_peers := AList.update a ?p (cl_peers c), cl_proc := AddStat ?s (cl_proc c)\<rparr>"
  have c: "map_of (cl_peers ?c) = (map_of (cl_peers c))(a \<mapsto> ?p)" "p_stats (cl_proc ?c) = p_stats (cl_proc c) @ [?s]"
    by (simp_all add: update_conv' AddStat_def)
  have old: "map_of (cl_peers c) k = Some p \<Longrightarrow> pe_stat p < ?n" for k p
    using own_statsD(1) [OF Cons.prems] .
  have "own_stats P ?c"
  proof (rule own_statsI, unfold c)
    fix k p assume k: "((map_of (cl_peers c))(a \<mapsto> ?p)) k = Some p"
    show "pe_stat p < length (p_stats (cl_proc c) @ [?s])"
      using k new old [of k p] by (auto split: if_splits)
    show "all_requests (P k) (us_bkts ((p_stats (cl_proc c) @ [?s]) ! pe_stat p))"
      using k new old [of k p] own_statsD(2) [OF Cons.prems, of k p]
      by (auto simp: nth_append NewStat_def split: if_splits)
    fix k' p' assume k': "((map_of (cl_peers c))(a \<mapsto> ?p)) k' = Some p'" "pe_stat p' = pe_stat p"
    then show "k' = k"
      using k new old [of k p] old [of k' p'] own_statsD(3) [OF Cons.prems, of k p k' p'] by (auto split: if_splits)
  qed
  then show ?case using Cons.IH by (simp add: Let_def)
qed simp

lemma NewClient_own: "NewClient env seqs conf proc = Some c \<Longrightarrow> own_stats P c"
  by (auto simp: NewClient_def Let_def own_stats_def [of P "\<lparr>cl_conf = _, cl_peers = [], cl_salts = _, cl_proc = _, cl_delayBitflip = _\<rparr>"]
      intro!: initPeers_own split: option.splits)

text \<open>A recording call keeps what the recording operation keeps, at every position.\<close>

lemma call_stat_keeps:
  assumes "call_stat f i proc = Some proc'" "all_requests P (us_bkts (p_stats proc ! j))"
    and "\<And>s s'. f s = Some s' \<Longrightarrow> all_requests P (us_bkts s) \<Longrightarrow> i = j \<Longrightarrow> all_requests P (us_bkts s')"
  shows "all_requests P (us_bkts (p_stats proc' ! j))"
  using assms by (auto simp: call_stat_def set_stat_def nth_list_update split: if_splits)

lemma own_stats_replaced:
  assumes "own_stats P c" "length (p_stats (cl_proc c')) = length (p_stats (cl_proc c))"
    and "\<And>k. map_option pe_stat (map_of (cl_peers c') k) = map_option pe_stat (map_of (cl_peers c) k)"
    and "\<And>k p. map_of (cl_peers c) k = Some p \<Longrightarrow> all_requests (P k) (us_bkts (p_stats (cl_proc c') ! pe_stat p))"
  shows "own_stats P c'"
proof -
  have old: "\<exists>q. map_of (cl_peers c) k = Some q \<and> pe_stat q = pe_stat p" if "map_of (cl_peers c') k = Some p" for k p
    using that assms(3) [of k] by (cases "map_of (cl_peers c) k") auto
  show ?thesis
  proof (rule own_statsI)
    fix k p assume "map_of (cl_peers c') k = Some p"
    then obtain q where q: "map_of (cl_peers c) k = Some q" "pe_stat q = pe_stat p" using old by blast
    show "pe_stat p < length (p_stats (cl_proc c'))" using own_statsD(1) [OF assms(1) q(1)] q(2) assms(2) by simp
    show "all_requests (P k) (us_bkts (p_stats (cl_proc c') ! pe_stat p))" using assms(4) [OF q(1)] q(2) by simp
    fix k' p' assume "map_of (cl_peers c') k' = Some p'" "pe_stat p' = pe_stat p"
    then show "k' = k" using old [of k' p'] own_statsD(3) [OF assms(1) q(1)] q(2) by fastforce
  qed
qed

text \<open>The properties of records that sending keeps: they hold of a probe that waits for its answer, and do
  not look at ports and timestamps.\<close>

definition send_closed :: "(u64 \<Rightarrow> request \<Rightarrow> bool) \<Rightarrow> bool" where
  "send_closed P \<longleftrightarrow> (\<forall>seq r cp sp ts. (r_rtt r = rttUnset \<longrightarrow> P seq r) \<and>
     (P seq r \<longrightarrow> P seq (r\<lparr>r_clientPort := cp, r_serverPort := sp, r_ts := ts\<rparr>)))"

lemma Stat_Put_closed:
  assumes "send_closed P" "Stat_Put cp sp seq ts s = Some s'" "all_requests P (us_bkts s)"
  shows "all_requests P (us_bkts s')"
  using assms(3,2)
proof (rule Stat_Put_requests)
  show "P seq (request0\<lparr>r_clientPort := cp, r_serverPort := sp, r_seq := seq, r_ts := ts, r_rtt := rttUnset\<rparr>)"
    using assms(1) unfolding send_closed_def by simp
  show "P seq r \<Longrightarrow> P seq (r\<lparr>r_clientPort := cp, r_serverPort := sp, r_ts := ts\<rparr>)" for r
    using assms(1) unfolding send_closed_def by blast
qed

lemma call_stat_put:
  assumes "call_stat (Stat_Put cp sp seq ts) i proc = Some proc'" "send_closed P" "all_requests P (us_bkts (p_stats proc ! j))"
  shows "all_requests P (us_bkts (p_stats proc' ! j))"
  by (rule call_stat_keeps [OF assms(1,3)]) (rule Stat_Put_closed [OF assms(2)])

lemma call_stat_delete:
  assumes "call_stat (Stat_Delete seq ts) i proc = Some proc'" "all_requests P (us_bkts (p_stats proc ! j))"
  shows "all_requests P (us_bkts (p_stats proc' ! j))"
  by (rule call_stat_keeps [OF assms]) (rule Stat_Delete_requests)

lemma send_probe_wire:
  assumes "send_probe build io key st = Some (st', r)" "map_of (cl_peers (ss_client st)) key = Some p"
  shows "set (ss_wire st) \<subseteq> set (ss_wire st')"
  using assms unfolding send_probe_def Let_def by (auto split: option.splits if_splits)

lemma send_probe_proc:
  assumes "send_probe build io key st = Some (st', r)" "map_of (cl_peers (ss_client st)) key = Some p"
  obtains "cl_proc (ss_client st') = cl_proc (ss_client st)"
  | cp sp seq ts proc where "call_stat (Stat_Put cp sp seq ts) (pe_stat (advance_peer p)) (cl_proc (ss_client st)) = Some proc"
      "cl_proc (ss_client st') = proc \<or> call_stat (Stat_Delete seq ts) (pe_stat (advance_peer p)) proc = Some (cl_proc (ss_client st'))"
  using assms unfolding send_probe_def Let_def by (auto split: option.splits if_splits)

lemma send_probe_keeps:
  assumes "send_probe build io key st = Some (st', r)" "own_stats P (ss_client st)" "\<And>k. send_closed (P k)"
  shows "own_stats P (ss_client st')"
proof -
  let ?proc = "cl_proc (ss_client st)" and ?proc' = "cl_proc (ss_client st')"
  obtain p where p: "map_of (cl_peers (ss_client st)) key = Some p"
      "cl_peers (ss_client st') = AList.update key (advance_peer p) (cl_peers (ss_client st))"
    using send_probe_effect [OF assms(1)] by metis
  have "all_requests (P k) (us_bkts (p_stats ?proc' ! j))" if "all_requests (P k) (us_bkts (p_stats ?proc ! j))" for k j
    using send_probe_proc [OF assms(1) p(1)]
  proof cases
    case 2
    then show ?thesis using call_stat_put [OF _ assms(3) that] call_stat_delete by metis
  qed (simp add: that)
  moreover have "length (p_stats ?proc') = length (p_stats ?proc)"
    using send_probe_proc [OF assms(1) p(1)] call_stat_length by cases metis+
  moreover have "pe_stat (advance_peer p) = pe_stat p" by (simp add: advance_peer_def)
  ultimately show ?thesis
    using p own_statsD(2) [OF assms(2)] by (intro own_stats_replaced [OF assms(2)]) (auto simp: update_conv')
qed

text \<open>An echo from \<open>srv\<close> changes the statistics of that peer only, and there the record of the sequence
  number it carries.\<close>

lemma handlePacket_keeps:
  assumes "handlePacket dissect now since srv pkt c = Some c'" "own_stats P c"
    and "\<And>payload r rtt bf. dissect pkt = Some payload \<Longrightarrow> P srv (fst (Decode payload)) (r\<lparr>r_rtt := rtt, r_hasBitflip := bf\<rparr>)"
  shows "own_stats P c'"
proof -
  consider "c' = c" | payload p seq ts rtt bf proc' where "dissect pkt = Some payload" "seq = fst (Decode payload)"
      "map_of (cl_peers c) srv = Some p" "c' = c\<lparr>cl_proc := proc'\<rparr>"
      "call_stat (Stat_Received seq ts rtt bf) (pe_stat p) (cl_proc c) = Some proc'"
    using assms(1) unfolding handlePacket_def Let_def
    by (cases "dissect pkt"; cases "map_of (cl_peers c) srv") (auto split: option.splits if_splits prod.splits)
  then show ?thesis
  proof cases
    case 2
    have "all_requests (P k) (us_bkts (p_stats proc' ! pe_stat q))" if q: "map_of (cl_peers c) k = Some q" for k q
    proof (rule call_stat_keeps [OF 2(5) own_statsD(2) [OF assms(2) q]])
      fix s s' assume s: "Stat_Received seq ts rtt bf s = Some s'" "all_requests (P k) (us_bkts s)" "pe_stat p = pe_stat q"
      have "k = srv" using own_statsD(3) [OF assms(2) 2(3) q] s(3) by simp
      then show "all_requests (P k) (us_bkts s')"
        using Stat_Received_requests [OF s(2,1)] assms(3) [OF 2(1)] 2(2) by blast
    qed
    then show ?thesis using 2(4) call_stat_length [OF 2(5)] by (intro own_stats_replaced [OF assms(2)]) auto
  qed (simp add: assms(2))
qed

section \<open>The invariant of the system\<close>

text \<open>A sequence number has been served when the server at \<open>srv\<close> answered a payload that carries it, and sent
  when a packet written to that server carries it.\<close>

definition served_seq :: "sonar_system \<Rightarrow> string \<Rightarrow> u64 \<Rightarrow> bool" where
  "served_seq s srv seq \<longleftrightarrow> (\<exists>payload. (srv, payload) \<in> set (sy_served s) \<and> fst (Decode payload) = seq)"

definition sent_seq :: "(byte list \<Rightarrow> byte list option) \<Rightarrow> sonar_system \<Rightarrow> string \<Rightarrow> u64 \<Rightarrow> bool" where
  "sent_seq dissect s srv seq \<longleftrightarrow>
     (\<exists>data sent. (srv, data) \<in> set (ss_wire (sy_sender s)) \<and> dissect data = Some sent \<and> fst (Decode sent) = seq)"

definition answered_only :: "sonar_system \<Rightarrow> string \<Rightarrow> u64 \<Rightarrow> request \<Rightarrow> bool" where
  "answered_only s srv seq r \<longleftrightarrow> (r_rtt r \<noteq> rttUnset \<longrightarrow> served_seq s srv seq)"

definition sys_inv :: "(byte list \<Rightarrow> byte list option) \<Rightarrow> sonar_system \<Rightarrow> bool" where
  "sys_inv dissect s \<longleftrightarrow>
     own_stats (answered_only s) (client_of s) \<and>
     (\<forall>srv seq. served_seq s srv seq \<longrightarrow> sent_seq dissect s srv seq) \<and>
     (\<forall>srv pkt. (srv, pkt) \<in> set (sy_echoes s) \<longrightarrow>
        (\<exists>answer. dissect pkt = Some answer \<and> served_seq s srv (fst (Decode answer))))"

lemma damaged_from_seq:
  assumes "damaged_from d d'"
  shows "fst (Decode d') = fst (Decode d)"
proof -
  have len: "length d' = length d" and "take 32 d' = take 32 d"
    using assms by (auto simp: damaged_from_def header_lengths)
  then have "take 16 (take 32 d') = take 16 (take 32 d)" by simp
  then have "drop 8 (take 16 d') = drop 8 (take 16 d)" by simp
  then have "slice 8 16 d' = slice 8 16 d" by (simp add: slice_def drop_take)
  then show ?thesis using len by (simp add: Decode_def header_lengths)
qed

lemma answered_only_closed: "send_closed (answered_only s srv)"
  by (simp add: send_closed_def answered_only_def)

lemma readPackets_echoes: "readPackets now port ip rport payload v = Some (v', Some echo) \<Longrightarrow> echo = payload"
  by (auto simp: readPackets_def Let_def split: if_splits prod.splits option.splits)

text \<open>The histories only grow.\<close>

lemma sys_step_grows:
  assumes "sys_step build dissect s s'" "own_stats P (client_of s)"
  shows "set (sy_served s) \<subseteq> set (sy_served s')" "set (ss_wire (sy_sender s)) \<subseteq> set (ss_wire (sy_sender s'))"
proof -
  show "set (sy_served s) \<subseteq> set (sy_served s')" using assms(1) by cases auto
  show "set (ss_wire (sy_sender s)) \<subseteq> set (ss_wire (sy_sender s'))"
    using assms(1)
  proof cases
    case (send io key st' res)
    then show ?thesis using send_probe_wire [OF send(2)] send_probe_effect [OF send(2)] by auto
  qed auto
qed

lemma sys_step_inv:
  assumes "sys_step build dissect s s'" "sys_inv dissect s"
  shows "sys_inv dissect s'"
proof -
  have own: "own_stats (answered_only s) (client_of s)"
    and served: "\<And>srv seq. served_seq s srv seq \<Longrightarrow> sent_seq dissect s srv seq"
    and echoes: "\<And>srv pkt. (srv, pkt) \<in> set (sy_echoes s) \<Longrightarrow>
        \<exists>answer. dissect pkt = Some answer \<and> served_seq s srv (fst (Decode answer))"
    using assms(2) by (auto simp: sys_inv_def)
  have up: "served_seq s srv seq \<Longrightarrow> served_seq s' srv seq" "sent_seq dissect s srv seq \<Longrightarrow> sent_seq dissect s' srv seq" for srv seq
    using sys_step_grows [OF assms(1) own] unfolding served_seq_def sent_seq_def by blast+
  have own': "own_stats (answered_only s) c \<Longrightarrow> own_stats (answered_only s') c" for c
    using up(1) by (elim own_stats_mono) (auto simp: answered_only_def)
  show ?thesis using assms(1)
  proof cases
    case (send io key st' res)
    then have "own_stats (answered_only s) (client_of s')"
      using send_probe_keeps [OF send(2) own answered_only_closed] by simp
    then show ?thesis using own' up served echoes send(1) by (auto simp: sys_inv_def served_seq_def)
  next
    case (deliver srv data sent payload now port ip rport server' reply pkt answer)
    have "fst (Decode payload) = fst (Decode sent)" "fst (Decode answer) = fst (Decode payload)"
      using damaged_from_seq deliver(4,7) readPackets_echoes [OF deliver(5)] by auto
    then have "sent_seq dissect s srv (fst (Decode payload))" "served_seq s' srv (fst (Decode answer))"
      using deliver(1-3) by (auto simp: sent_seq_def served_seq_def)
    moreover have "served_seq s' a seq \<longleftrightarrow> served_seq s a seq \<or> (a = srv \<and> seq = fst (Decode payload))" for a seq
      using deliver(1) by (auto simp: served_seq_def)
    moreover have "client_of s' = client_of s" "sy_echoes s' = (srv, pkt) # sy_echoes s" using deliver(1) by simp_all
    ultimately show ?thesis using own' [OF own] up served deliver(6) unfolding sys_inv_def by (auto dest: echoes)
  next
    case reject
    then show ?thesis using own' [OF own] up served echoes by (auto simp: sys_inv_def served_seq_def)
  next
    case (receive srv pkt now since c')
    have "own_stats (answered_only s) c'"
    proof (rule handlePacket_keeps [OF receive(3) own])
      fix payload r rtt bf assume "dissect pkt = Some payload"
      then show "answered_only s srv (fst (Decode payload)) (r\<lparr>r_rtt := rtt, r_hasBitflip := bf\<rparr>)"
        using echoes [OF receive(2)] by (auto simp: answered_only_def)
    qed
    then show ?thesis using receive(1) own' up served echoes by (auto simp: sys_inv_def served_seq_def)
  next
    case (report clock proc' outs)
    have "own_stats (answered_only s) ((client_of s)\<lparr>cl_proc := proc'\<rparr>)"
    proof (rule own_stats_replaced [OF own]; simp)
      show "length (p_stats proc') = length (p_stats (cl_proc (client_of s)))" using runOnce_requests(1) [OF report(2)] .
      show "map_of (cl_peers (client_of s)) k = Some p \<Longrightarrow> all_requests (answered_only s k) (us_bkts (p_stats proc' ! pe_stat p))" for k p
        using runOnce_requests(2) [OF report(2)] own_statsD(1,2) [OF own] by blast
    qed
    then show ?thesis using report(1) own' up served echoes by (auto simp: sys_inv_def served_seq_def)
  next
    case server_report
    then show ?thesis using own' [OF own] up served echoes by (auto simp: sys_inv_def served_seq_def)
  qed
qed

lemma sys_reachable_inv:
  assumes "sys_reachable build dissect (sonar_start c servers) s" "own_stats (\<lambda>_ _ r. r_rtt r = rttUnset) c"
  shows "sys_inv dissect s"
  using assms(1)
proof induction
  case start
  have "own_stats (answered_only (sonar_start c servers)) c"
    using assms(2) by (rule own_stats_mono) (simp add: answered_only_def)
  then show ?case by (simp add: sys_inv_def sonar_start_def start_sending_def served_seq_def)
qed (rule sys_step_inv)


text \<open>A run: a probe to the only server, answered and recorded.\<close>

definition demo_new_client :: Client where
  "demo_new_client = the (NewClient demo_env (\<lambda>_. 7) demo_conf \<lparr>p_stats = [], p_span = 10, p_delay = 30\<rparr>)"

definition demo_sent :: sender_state where
  "demo_sent = fst (the (send_probe (\<lambda>_ _ _ _ _ payload. Some payload) (snd (demo_io 15)) ''10.0.0.1'' (start_sending demo_new_client)))"

definition demo_probe :: "byte list" where
  "demo_probe = snd (hd (ss_wire demo_sent))"

definition demo_served :: Server where
  "demo_served = fst (the (readPackets 18 21 ''10.0.0.1'' 10 demo_probe demo_server_state))"

definition demo_received :: Client where
  "demo_received = the (handlePacket Some 22 0 ''10.0.0.1'' demo_probe (ss_client demo_sent))"

definition demo_system :: sonar_system where
  "demo_system = \<lparr>sy_sender = demo_sent\<lparr>ss_client := demo_received\<rparr>, sy_servers = (\<lambda>_. demo_server_state)(''10.0.0.1'' := demo_served),
     sy_served = [(''10.0.0.1'', demo_probe)], sy_echoes = [(''10.0.0.1'', demo_probe)]\<rparr>"

lemma demo_send:
  "send_probe (\<lambda>_ _ _ _ _ payload. Some payload) (snd (demo_io 15)) ''10.0.0.1'' (start_sending demo_new_client) = Some (demo_sent, Continue)"
proof -
  have "map_option snd (send_probe (\<lambda>_ _ _ _ _ payload. Some payload) (snd (demo_io 15)) ''10.0.0.1'' (start_sending demo_new_client))
      = Some Continue"
    by code_simp
  then show ?thesis by (auto simp: demo_sent_def)
qed

lemma demo_serve: "readPackets 18 21 ''10.0.0.1'' 10 demo_probe demo_server_state = Some (demo_served, Some demo_probe)"
proof -
  have "map_option snd (readPackets 18 21 ''10.0.0.1'' 10 demo_probe demo_server_state) = Some (Some demo_probe)"
    by code_simp
  then show ?thesis by (auto simp: demo_served_def)
qed

lemma demo_receive: "handlePacket Some 22 0 ''10.0.0.1'' demo_probe (ss_client demo_sent) = Some demo_received"
proof -
  have "handlePacket Some 22 0 ''10.0.0.1'' demo_probe (ss_client demo_sent) \<noteq> None" by code_simp
  then show ?thesis by (auto simp: demo_received_def)
qed

lemma demo_new: "NewClient demo_env (\<lambda>_. 7) demo_conf \<lparr>p_stats = [], p_span = 10, p_delay = 30\<rparr> = Some demo_new_client"
proof -
  have "NewClient demo_env (\<lambda>_. 7) demo_conf \<lparr>p_stats = [], p_span = 10, p_delay = 30\<rparr> \<noteq> None" by code_simp
  then show ?thesis by (auto simp: demo_new_client_def)
qed

lemma demo_system_reachable:
  "sys_reachable (\<lambda>_ _ _ _ _ payload. Some payload) Some (sonar_start demo_new_client (\<lambda>_. demo_server_state)) demo_system"
proof -
  let ?step = "sys_step (\<lambda>_ _ _ _ _ payload. Some payload) Some"
  let ?s0 = "sonar_start demo_new_client (\<lambda>_. demo_server_state)"
  let ?s1 = "?s0\<lparr>sy_sender := demo_sent\<rparr>"
  let ?s2 = "?s1\<lparr>sy_servers := (sy_servers ?s1)(''10.0.0.1'' := demo_served),
     sy_served := (''10.0.0.1'', demo_probe) # sy_served ?s1, sy_echoes := (''10.0.0.1'', demo_probe) # sy_echoes ?s1\<rparr>"
  have 1: "?step ?s0 ?s1"
    by (rule sys_step.send [where io = "snd (demo_io 15)" and key = "''10.0.0.1''" and res = Continue])
      (simp add: sonar_start_def demo_send)
  have wire: "ss_wire demo_sent = [(''10.0.0.1'', demo_probe)]" by code_simp
  have 2: "?step ?s1 ?s2"
    by (rule sys_step.deliver [where data = demo_probe and sent = demo_probe and now = 18 and port = 21 and ip = "''10.0.0.1''"
          and rport = 10 and echo = demo_probe and answer = demo_probe])
      (simp_all add: damaged_from_def sonar_start_def wire demo_serve)
  have 3: "?step ?s2 (?s2\<lparr>sy_sender := (sy_sender ?s2)\<lparr>ss_client := demo_received\<rparr>\<rparr>)"
    by (rule sys_step.receive [where srv = "''10.0.0.1''" and pkt = demo_probe and now = 22 and since = 0])
      (simp_all add: demo_receive)
  have "?s2\<lparr>sy_sender := (sy_sender ?s2)\<lparr>ss_client := demo_received\<rparr>\<rparr> = demo_system"
    by (simp add: demo_system_def sonar_start_def)
  then show ?thesis
    using sys_reachable.steps [OF sys_reachable.steps [OF sys_reachable.steps [OF sys_reachable.start 1] 2] 3] by (simp only:)
qed


end
