(* ===== verification/Sonar6_Client.thy ===== *)
theory Sonar6_Client
  imports Sonar_Server
begin

text \<open>
  The IPv6 bitflip client, \<open>sonar6/client/client.go\<close>. Its loops are those of the IPv4 client with the
  IPv6 packet builder, which checks the address lengths; its own are the peers keyed by the canonical
  text of their address, zones, and the key under which a received packet's sender is looked up.
\<close>

section \<open>Setting up\<close>

fun initPeers6 :: "net_env \<Rightarrow> (nat \<Rightarrow> u64) \<Rightarrow> string list \<Rightarrow> Client \<Rightarrow> Client" where
  "initPeers6 env seqs [] c = c"
| "initPeers6 env seqs (addr # addrs) c =
     (let canonicalKey = ip_text env (e_ParseIP env addr);
          st = length (p_stats (cl_proc c));
          p = new_peer env (cl_conf c) (seqs st) st addr;
          s = NewStat (c_ClientAddr (cl_conf c)) addr (c_ClientPortRange (cl_conf c)) (c_ServerPortRange (cl_conf c))
                (c_RateInSpan (cl_conf c)) (c_Span (cl_conf c)) (c_Delay (cl_conf c)) True
      in initPeers6 env seqs addrs
           (c\<lparr>cl_peers := AList.update canonicalKey p (cl_peers c), cl_proc := AddStat s (cl_proc c)\<rparr>))"

definition NewClient6 :: "net_env \<Rightarrow> (nat \<Rightarrow> u64) \<Rightarrow> Config \<Rightarrow> Processor \<Rightarrow> Client option" where
  "NewClient6 env seqs conf proc =
     (let conf = (if c_MsgLen conf < int MsgHeaderLen then conf\<lparr>c_MsgLen := int MsgHeaderLen\<rparr> else conf)
      in case NewSalts (c_MsgLen conf - int MsgHeaderLen) of
           None \<Rightarrow> None
         | Some salts \<Rightarrow>
             Some (initPeers6 env seqs (c_ServerAddrs conf)
               \<lparr>cl_conf = conf, cl_peers = [], cl_salts = salts, cl_proc = proc, cl_delayBitflip = 30 * second\<rparr>))"

definition localAddr :: "Config6 \<Rightarrow> string" where
  "localAddr c = (if c_ClientZone c \<noteq> [] then c_ClientAddr c @ ''%'' @ c_ClientZone c else c_ClientAddr c)"

definition serveRead6_filters :: "Config \<Rightarrow> Instruction list list" where
  "serveRead6_filters conf =
     map (\<lambda>(lo, hi). sonar6_portRangeBPF lo hi) (serveRead_chunks (c_ClientPortRange conf))"


section \<open>Sending\<close>

type_synonym builder6 =
  "byte list \<Rightarrow> byte list \<Rightarrow> byte \<Rightarrow> byte \<Rightarrow> u16 \<Rightarrow> u16 \<Rightarrow> byte list \<Rightarrow> string + byte list"

text \<open>A nil address has length 0.\<close>

definition ip_bytes :: "IP option \<Rightarrow> byte list" where
  "ip_bytes ip = (case ip of None \<Rightarrow> [] | Some b \<Rightarrow> b)"

definition encode6 :: "builder6 \<Rightarrow> Config \<Rightarrow> builder" where
  "encode6 build conf localIP remoteIP localPort remotePort hopLimit payload =
     (case EncodeUDPPacket6 build (ip_bytes localIP) (ip_bytes remoteIP) localPort remotePort
             (word_of_int (c_TOS conf)) (uint hopLimit) payload of
        Inl _ \<Rightarrow> None
      | Inr data \<Rightarrow> Some data)"

definition send_probe6 :: "builder6 \<Rightarrow> send_io \<Rightarrow> string \<Rightarrow> sender_state \<Rightarrow> (sender_state \<times> send_result) option" where
  "send_probe6 build io key st = send_probe (encode6 build (cl_conf (ss_client st))) io key st"

definition serveWrite6 :: "builder6 \<Rightarrow> (string \<times> send_io) list \<Rightarrow> sender_state \<Rightarrow> (sender_state \<times> send_result) option" where
  "serveWrite6 build ios st = serveWrite (encode6 build (cl_conf (ss_client st))) ios st"


section \<open>Receiving\<close>

text \<open>The sender of a packet: an IP address with a zone, or some other address known by its text.\<close>

datatype net_addr = IPAddr IP string | OtherAddr string

definition Addr_String :: "net_env \<Rightarrow> net_addr \<Rightarrow> string" where
  "Addr_String env remote =
     (case remote of
        OtherAddr s \<Rightarrow> s
      | IPAddr ip zone \<Rightarrow> if zone = [] then e_IPString env ip else e_IPString env ip @ ''%'' @ zone)"

definition peerKey :: "net_env \<Rightarrow> net_addr \<Rightarrow> string" where
  "peerKey env remote =
     (case remote of
        IPAddr ip zone \<Rightarrow> if length ip > 0 then e_IPString env ip else Addr_String env remote
      | OtherAddr _ \<Rightarrow> Addr_String env remote)"

definition handlePacket6 ::
    "net_env \<Rightarrow> (byte list \<Rightarrow> byte list option) \<Rightarrow> int \<Rightarrow> int \<Rightarrow> net_addr \<Rightarrow> byte list \<Rightarrow> Client \<Rightarrow> Client option" where
  "handlePacket6 env dissect now sinceStartup remote pkt c =
     handlePacket dissect now sinceStartup (peerKey env remote) pkt c"


section \<open>Replies find their peer\<close>

lemma initPeers6_key:
  "e_ParseIP env addr = Some ip \<Longrightarrow> addr \<in> set addrs \<or> map_of (cl_peers c) (e_IPString env ip) \<noteq> None \<Longrightarrow>
     map_of (cl_peers (initPeers6 env seqs addrs c)) (e_IPString env ip) \<noteq> None"
proof (induction addrs arbitrary: c)
  case (Cons a addrs)
  then show ?case
    by (cases "a = addr") (simp_all add: Let_def ip_text_def update_conv')
qed simp

text \<open>
  Replies find their peer whatever the spelling of the configured address and whatever zone the
  packet arrived on: the sender's key is the canonical key of every configured server with the
  same address.
\<close>

theorem reply6_finds_peer:
  assumes "NewClient6 env seqs conf proc = Some c" "addr \<in> set (c_ServerAddrs conf)"
    and "e_ParseIP env addr = Some ip" "ip \<noteq> []"
  shows "\<exists>p. map_of (cl_peers c) (peerKey env (IPAddr ip zone)) = Some p"
proof -
  have "\<exists>c0 addrs. c = initPeers6 env seqs addrs c0 \<and> addrs = c_ServerAddrs conf"
    using assms(1) by (auto simp: NewClient6_def Let_def split: option.splits if_splits)
  then show ?thesis
    using initPeers6_key [OF assms(3)] assms(2,4) by (auto simp: peerKey_def)
qed

theorem reply6_finds_peer_witness:
  "\<exists>c p. NewClient6 demo_env (\<lambda>_. 7) (demo_conf\<lparr>c_ServerAddrs := [''fe80::1'']\<rparr>) (NewProcessor 10 30) = Some c \<and>
     map_of (cl_peers c) (peerKey demo_env (IPAddr (0xfe # 0x80 # replicate 13 0 @ [1]) ''eth0'')) = Some p"
proof -
  have "\<exists>c. NewClient6 demo_env (\<lambda>_. 7) (demo_conf\<lparr>c_ServerAddrs := [''fe80::1'']\<rparr>) (NewProcessor 10 30) = Some c"
    by (simp add: NewClient6_def demo_conf_def NewSalts_def header_lengths Let_def)
  then obtain c where c: "NewClient6 demo_env (\<lambda>_. 7) (demo_conf\<lparr>c_ServerAddrs := [''fe80::1'']\<rparr>) (NewProcessor 10 30) = Some c"
    by blast
  show ?thesis
    using reply6_finds_peer [OF c, of "''fe80::1''" "0xfe # 0x80 # replicate 13 0 @ [1]" "''eth0''"] c
    by (auto simp: demo_env_def)
qed

end
