(* ===== verification/Sonar6_Server.thy ===== *)
theory Sonar6_Server
  imports Sonar6_Client
begin

text \<open>
  The IPv6 echo server, \<open>sonar6/server/server.go\<close>. A datagram is handled as in the IPv4 server, under the
  text of the sender's address without its zone; the configured clients are registered under the
  canonical text of their addresses. Shown here: the server knows its configured clients however they
  are spelled, so that a probe of theirs never opens a second statistics object.
\<close>

section \<open>Definitions\<close>

record datagram6 =
  d6_now :: int
  d6_port :: int
  d6_remoteIP :: IP
  d6_remoteZone :: string
  d6_remotePort :: int
  d6_data :: "byte list"

definition readPackets6 :: "net_env \<Rightarrow> datagram6 \<Rightarrow> Server \<Rightarrow> (Server \<times> byte list option) option" where
  "readPackets6 env d s =
     readPackets (d6_now d) (d6_port d) (e_IPString env (d6_remoteIP d)) (d6_remotePort d) (d6_data d) s"

fun serve6 :: "net_env \<Rightarrow> datagram6 list \<Rightarrow> Server \<Rightarrow> (Server \<times> byte list list) option" where
  "serve6 env [] s = Some (s, [])"
| "serve6 env (d # ds) s =
     (case readPackets6 env d s of
        None \<Rightarrow> None
      | Some (s', echo) \<Rightarrow>
          (case serve6 env ds s' of
             None \<Rightarrow> None
           | Some (s'', echoes) \<Rightarrow> Some (s'', (case echo of None \<Rightarrow> [] | Some e \<Rightarrow> [e]) @ echoes)))"

section \<open>Configured clients are known\<close>

lemma fold_register:
  assumes "server_inv t"
  shows "server_inv (fold (\<lambda>a. register (key a) a) as t) \<and> se_conf (fold (\<lambda>a. register (key a) a) as t) = se_conf t \<and>
    (\<forall>k. k \<in> key ` set as \<or> map_of (se_stats t) k \<noteq> None \<longrightarrow> map_of (se_stats (fold (\<lambda>a. register (key a) a) as t)) k \<noteq> None)"
  using assms
proof (induction as arbitrary: t)
  case (Cons a as)
  have "map_of (se_stats (register (key a) a t)) k \<noteq> None" if "k = key a \<or> map_of (se_stats t) k \<noteq> None" for k
    using that by (auto simp: register_def update_conv')
  moreover have "se_conf (register (key a) a t) = se_conf t" by (simp add: register_def)
  ultimately show ?case using Cons.IH [OF register_inv [OF Cons.prems, of "key a" a]] by auto
qed simp

lemma New6_inv:
  assumes "New6 env conf proc = Some (Some s)"
  shows "server_inv s" "c_Span (se_conf s) = c_Span conf"
    "addr \<in> set (c_ClientAddrs conf) \<Longrightarrow> e_ParseIP env addr = Some ip \<Longrightarrow> map_of (se_stats s) (e_IPString env ip) \<noteq> None"
proof -
  let ?key = "\<lambda>addr. ip_text env (e_ParseIP env addr)"
  obtain t where t: "s = fold (\<lambda>a. register (?key a) a) (c_ClientAddrs conf) t" "se_conf t = server_conf conf" "se_stats t = []"
    using assms by (auto simp: New6_def server_conf_def Let_def split: option.splits if_splits)
  have inv: "server_inv t" using t(3) by (simp add: server_inv_def map_ok_def)
  note f = fold_register [OF inv, of ?key "c_ClientAddrs conf"]
  show "server_inv s" "c_Span (se_conf s) = c_Span conf" using f t(1,2) by (simp_all add: server_conf_def)
  assume "addr \<in> set (c_ClientAddrs conf)" "e_ParseIP env addr = Some ip"
  then have "e_IPString env ip \<in> ?key ` set (c_ClientAddrs conf)" by (force simp: ip_text_def)
  then show "map_of (se_stats s) (e_IPString env ip) \<noteq> None" using f t(1) by blast
qed

text \<open>A datagram of a known client leaves the map and the number of objects alone.\<close>

lemma readPackets_known:
  assumes "server_inv s" "c_Span (se_conf s) \<noteq> 0" "map_of (se_stats s) ip \<noteq> None"
  shows "\<exists>s'. readPackets now port ip rport data s = Some (s', if IsValid data then Some data else None) \<and>
    server_inv s' \<and> se_conf s' = se_conf s \<and> se_stats s' = se_stats s \<and>
    length (p_stats (se_proc s')) = length (p_stats (se_proc s))"
proof -
  obtain s' where s': "readPackets now port ip rport data s = Some (s', if IsValid data then Some data else None)"
      "server_inv s'" "se_conf s' = se_conf s"
    using readPackets_total [OF assms(1,2)] by blast
  have len: "call_stat f i proc = Some proc' \<Longrightarrow> length (p_stats proc') = length (p_stats proc)" for f i proc proc'
    by (auto simp: call_stat_def set_stat_def split: option.splits if_splits)
  obtain i where i: "getOrCreateStat ip s = (s, i)" using assms(3) by (auto simp: getOrCreateStat_def)
  obtain seq ts n sp dp where d: "Decode data = (seq, ts, n, sp, dp)" by (cases "Decode data")
  have "se_stats s' = se_stats s \<and> length (p_stats (se_proc s')) = length (p_stats (se_proc s))"
  proof (cases "IsValid data \<and> \<not> length data < MsgHeaderLen")
    case True
    then obtain p1 p2 where p: "call_stat (Stat_Put (word_of_int rport) (word_of_int port) seq ts) i (se_proc s) = Some p1"
        "call_stat (Stat_ReceivedAndFix seq ts (i64 (now - ts)) n sp dp (server_bitflip s seq data)) i p1 = Some p2"
        "s' = s\<lparr>se_proc := p2\<rparr>"
      using s'(1) by (auto simp: readPackets_def i d split: option.splits)
    then show ?thesis using len [OF p(1)] len [OF p(2)] by simp
  next
    case False
    then show ?thesis using s'(1) by (auto simp: readPackets_def split: if_splits)
  qed
  then show ?thesis using s' by blast
qed


definition demo6_conf :: Config where
  "demo6_conf = demo_conf\<lparr>c_Role := RoleServer, c_ServerAddrs := [''fe80::1''], c_ClientAddrs := [''fe80::1'']\<rparr>"


end
