(* ===== verification/Config_Evr.thy ===== *)
theory Config_Evr
  imports Net_Env
begin

text \<open>
  The configurations of the GPU fabric probe and of the VXLAN probe: \<open>kuiniu/config/config.go\<close> and
  \<open>evr/config/config.go\<close>, with the textual form of the latter's targets.
\<close>

section \<open>kuiniu\<close>

record kuiniu_Config =
  kc_PprofAddr :: string
  kc_LogDir :: string
  kc_LogMaxAgeDays :: int
  kc_Role :: string
  kc_LocalGPUAddrs :: "string list"
  kc_RemoteGPUAddrs :: "string list"
  kc_TOS :: int
  kc_ClientPortRange :: PortRange
  kc_ServerPortRange :: PortRange
  kc_ClientPortRangeStr :: string
  kc_ServerPortRangeStr :: string
  kc_RateInSpan :: int
  kc_Span :: int
  kc_SpanStr :: string
  kc_Delay :: int
  kc_DelayStr :: string
  kc_MsgLen :: int
  kc_Count :: int
  kc_SendDuration :: int
  kc_SendDurStr :: string
  kc_Verbose :: bool

definition range_or_default :: "string \<Rightarrow> PortRange \<Rightarrow> cfg_error + PortRange" where
  "range_or_default s dflt = (if s \<noteq> [] then ParsePortRange s else Inr dflt)"

definition duration_or_default :: "net_env \<Rightarrow> string \<Rightarrow> int \<Rightarrow> cfg_error + int" where
  "duration_or_default env s dflt =
     (if s \<noteq> [] then (case e_ParseDuration env s of None \<Rightarrow> Inl (BadDuration s) | Some d \<Rightarrow> Inr d) else Inr dflt)"

definition kuiniu_check_addrs :: "net_env \<Rightarrow> kuiniu_Config \<Rightarrow> cfg_error option" where
  "kuiniu_check_addrs env c =
     (let needsClient = (kc_Role c = ''client'' \<or> kc_Role c = ''both'');
          needsServer = (kc_Role c = ''server'' \<or> kc_Role c = ''both'')
      in if needsClient \<or> needsServer then
           (if kc_LocalGPUAddrs c = [] then Some MissingAddrs
            else if kc_RemoteGPUAddrs c = [] then Some MissingAddrs
            else if length (kc_LocalGPUAddrs c) \<noteq> length (kc_RemoteGPUAddrs c)
            then Some (CountMismatch (length (kc_LocalGPUAddrs c)) (length (kc_RemoteGPUAddrs c)))
            else case List.find (\<lambda>a. \<not> valid_ip4 env a) (kc_LocalGPUAddrs c) of
              Some a \<Rightarrow> Some (NotIPv4 a)
            | None \<Rightarrow>
                (case List.find (\<lambda>a. \<not> valid_ip4 env a) (kc_RemoteGPUAddrs c) of
                   Some a \<Rightarrow> Some (NotIPv4 a)
                 | None \<Rightarrow> None))
         else None)"

definition kuiniu_Validate :: "net_env \<Rightarrow> kuiniu_Config \<Rightarrow> cfg_error + kuiniu_Config" where
  "kuiniu_Validate env c =
     (if kc_Role c \<noteq> ''server'' \<and> kc_Role c \<noteq> ''client'' \<and> kc_Role c \<noteq> ''both'' then Inl (InvalidRole (kc_Role c))
      else case kuiniu_check_addrs env c of Some e \<Rightarrow> Inl e | None \<Rightarrow>
      (case range_or_default (kc_ClientPortRangeStr c) \<lparr>pr_Min = 43600, pr_Max = 43699\<rparr> of Inl e \<Rightarrow> Inl e | Inr cpr \<Rightarrow>
      (case range_or_default (kc_ServerPortRangeStr c) \<lparr>pr_Min = 43600, pr_Max = 43609\<rparr> of Inl e \<Rightarrow> Inl e | Inr spr \<Rightarrow>
      (let rate = (if kc_RateInSpan c = 0 then 5000 else kc_RateInSpan c) in
      (case duration_or_default env (kc_SpanStr c) second of Inl e \<Rightarrow> Inl e | Inr spn \<Rightarrow>
      (case duration_or_default env (kc_DelayStr c) (3 * second) of Inl e \<Rightarrow> Inl e | Inr delay \<Rightarrow>
      (case duration_or_default env (kc_SendDurStr c) (kc_SendDuration c) of Inl e \<Rightarrow> Inl e | Inr sd \<Rightarrow>
         Inr (c\<lparr>kc_ClientPortRange := cpr, kc_ServerPortRange := spr, kc_RateInSpan := rate, kc_Span := spn,
                kc_Delay := delay, kc_SendDuration := sd,
                kc_MsgLen := (if kc_MsgLen c \<le> 0 then 1024 else kc_MsgLen c)\<rparr>))))))))"

definition GPUPairCount :: "kuiniu_Config \<Rightarrow> nat" where
  "GPUPairCount c = length (kc_LocalGPUAddrs c)"


section \<open>evr\<close>

record Target =
  t_VTEPAddr :: string
  t_EVRSrcAddr :: string
  t_MockSrcAddr :: string

definition Target_String :: "Target \<Rightarrow> string" where
  "Target_String t =
     (if t_MockSrcAddr t \<noteq> [] then t_VTEPAddr t @ ''#'' @ t_EVRSrcAddr t @ ''#'' @ t_MockSrcAddr t
      else t_VTEPAddr t @ ''#'' @ t_EVRSrcAddr t)"

definition ParseTarget :: "string \<Rightarrow> cfg_error + Target" where
  "ParseTarget s =
     (case Split CHR ''#'' (TrimSpace s) of
        [a, b] \<Rightarrow> if a = [] \<or> b = [] then Inl (BadTarget s)
                  else Inr \<lparr>t_VTEPAddr = a, t_EVRSrcAddr = b, t_MockSrcAddr = []\<rparr>
      | [a, b, m] \<Rightarrow> if a = [] \<or> b = [] then Inl (BadTarget s)
                     else Inr \<lparr>t_VTEPAddr = a, t_EVRSrcAddr = b, t_MockSrcAddr = m\<rparr>
      | _ \<Rightarrow> Inl (BadTarget s))"

fun parse_targets :: "string list \<Rightarrow> cfg_error + Target list" where
  "parse_targets [] = Inr []"
| "parse_targets (raw # raws) =
     (let raw = TrimSpace raw
      in if raw = [] then parse_targets raws
         else case ParseTarget raw of
           Inl e \<Rightarrow> Inl e
         | Inr t \<Rightarrow> (case parse_targets raws of Inl e \<Rightarrow> Inl e | Inr ts \<Rightarrow> Inr (t # ts)))"

definition ParseTargets :: "string \<Rightarrow> cfg_error + Target list" where
  "ParseTargets s =
     (if s = [] then Inl NoTargets
      else case parse_targets (Split CHR '','' s) of
        Inl e \<Rightarrow> Inl e
      | Inr out \<Rightarrow> if out = [] then Inl NoTargets else Inr out)"

record evr_Config =
  ec_ID :: string
  ec_ClientAddr :: string
  ec_Targets :: "Target list"
  ec_DstPort :: u16
  ec_InnerDstPort :: u16
  ec_SrcMAC :: string
  ec_DstMAC :: string
  ec_VNI :: u32
  ec_TOS :: int
  ec_TTL :: int
  ec_ClientPortRange :: PortRange
  ec_RateInSpan :: int
  ec_Span :: int
  ec_Delay :: int
  ec_MsgLen :: int
  ec_PprofAddr :: string
  ec_LogDir :: string
  ec_LogMaxAgeDays :: int
  ec_Verbose :: bool

definition evr_resolveLocalIP :: "net_env \<Rightarrow> cfg_error + string" where
  "evr_resolveLocalIP env =
     (case e_Hostname env of
        None \<Rightarrow> Inl HostnameFailed
      | Some hostname \<Rightarrow>
          (case e_LookupHost env hostname of
             None \<Rightarrow> Inl (LookupFailed hostname)
           | Some addrs \<Rightarrow>
               (case first_addr env (\<lambda>ip. \<not> IsLoopback ip \<and> To4 ip \<noteq> None) addrs of
                  Some addr \<Rightarrow> Inr addr
                | None \<Rightarrow> (case addrs of a # _ \<Rightarrow> Inr a | [] \<Rightarrow> Inl (NoAddress hostname)))))"

fun check_targets :: "net_env \<Rightarrow> Target list \<Rightarrow> cfg_error option" where
  "check_targets env [] = None"
| "check_targets env (t # ts) =
     (if \<not> valid_ip4 env (t_VTEPAddr t) then Some (NotIPv4 (t_VTEPAddr t))
      else if \<not> valid_ip4 env (t_EVRSrcAddr t) then Some (NotIPv4 (t_EVRSrcAddr t))
      else if t_MockSrcAddr t \<noteq> [] \<and> \<not> valid_ip4 env (t_MockSrcAddr t) then Some (NotIPv4 (t_MockSrcAddr t))
      else check_targets env ts)"

definition link_defaults :: "evr_Config \<Rightarrow> evr_Config" where
  "link_defaults c =
     (let c = (if ec_DstPort c = 0 then c\<lparr>ec_DstPort := 4789\<rparr> else c);
          c = (if ec_InnerDstPort c = 0 then c\<lparr>ec_InnerDstPort := 8972\<rparr> else c);
          c = (if ec_SrcMAC c = [] then c\<lparr>ec_SrcMAC := ''00:00:00:00:ff:ff''\<rparr> else c)
      in if ec_DstMAC c = [] then c\<lparr>ec_DstMAC := ''00:00:5e:00:01:ff''\<rparr> else c)"

definition check_link :: "net_env \<Rightarrow> evr_Config \<Rightarrow> cfg_error + evr_Config" where
  "check_link env c =
     (if e_ParseMAC env (ec_SrcMAC c) = None then Inl (BadMAC (ec_SrcMAC c))
      else if e_ParseMAC env (ec_DstMAC c) = None then Inl (BadMAC (ec_DstMAC c))
      else
        let c = (if ec_VNI c = 0 then c\<lparr>ec_VNI := 15990000\<rparr> else c)
        in if ec_VNI c > 0xFFFFFF then Inl BadVNI
           else Inr (if ec_TTL c = 0 then c\<lparr>ec_TTL := 64\<rparr> else c))"

definition check_rates :: "evr_Config \<Rightarrow> cfg_error + evr_Config" where
  "check_rates c =
     (let c = (if ec_ClientPortRange c = zero_range then c\<lparr>ec_ClientPortRange := \<lparr>pr_Min = 9981, pr_Max = 9981\<rparr>\<rparr> else c);
          pr = ec_ClientPortRange c
      in if pr_Min pr < 1 \<or> pr_Max pr > 65535 \<or> pr_Min pr > pr_Max pr then Inl (BadPortRange [])
         else
           let c = (if ec_RateInSpan c \<le> 0 then c\<lparr>ec_RateInSpan := 1\<rparr> else c);
               c = (if ec_Span c \<le> 0 then c\<lparr>ec_Span := 100000000\<rparr> else c);
               c = (if ec_Delay c \<le> 0 then c\<lparr>ec_Delay := 100000000\<rparr> else c)
           in if ec_MsgLen c \<le> 0 then Inl (BadMsgLen (ec_MsgLen c))
              else Inr (if ec_LogMaxAgeDays c \<le> 0 then c\<lparr>ec_LogMaxAgeDays := 3\<rparr> else c))"

definition evr_Validate :: "net_env \<Rightarrow> evr_Config \<Rightarrow> cfg_error + evr_Config" where
  "evr_Validate env c =
     (case (if ec_ClientAddr c = [] then
              (case evr_resolveLocalIP env of Inl e \<Rightarrow> Inl e | Inr addr \<Rightarrow> Inr (c\<lparr>ec_ClientAddr := addr\<rparr>))
            else Inr c) of
        Inl e \<Rightarrow> Inl e
      | Inr c1 \<Rightarrow>
          if \<not> valid_ip4 env (ec_ClientAddr c1) then Inl (NotIPv4 (ec_ClientAddr c1))
          else if ec_Targets c1 = [] then Inl NoTargets
          else case check_targets env (ec_Targets c1) of Some e \<Rightarrow> Inl e | None \<Rightarrow>
          (case check_link env (link_defaults c1) of Inl e \<Rightarrow> Inl e | Inr c2 \<Rightarrow> check_rates c2))"

section \<open>Targets as text\<close>

definition addr_text :: "string \<Rightarrow> bool" where
  "addr_text s \<longleftrightarrow> CHR ''#'' \<notin> set s \<and> CHR '','' \<notin> set s \<and> (\<forall>c \<in> set s. \<not> is_space c)"

definition target_ok :: "Target \<Rightarrow> bool" where
  "target_ok t \<longleftrightarrow> addr_text (t_VTEPAddr t) \<and> addr_text (t_EVRSrcAddr t) \<and> addr_text (t_MockSrcAddr t) \<and>
     t_VTEPAddr t \<noteq> [] \<and> t_EVRSrcAddr t \<noteq> []"

lemma hash_not_space: "\<not> is_space CHR ''#''"
  by (simp add: is_space_def)

lemma target_text:
  assumes "target_ok t"
  shows "CHR '','' \<notin> set (Target_String t)" "\<forall>c \<in> set (Target_String t). \<not> is_space c" "Target_String t \<noteq> []"
  using assms by (auto simp: target_ok_def addr_text_def Target_String_def hash_not_space)

lemma ParseTarget_String: "target_ok t \<Longrightarrow> ParseTarget (Target_String t) = Inr t"
proof -
  assume ok: "target_ok t"
  have "TrimSpace (Target_String t) = Target_String t" using target_text(2) [OF ok] by (rule TrimSpace_id)
  moreover have "Split CHR ''#'' (Target_String t) =
      [t_VTEPAddr t, t_EVRSrcAddr t] @ (if t_MockSrcAddr t \<noteq> [] then [t_MockSrcAddr t] else [])"
    using ok by (simp add: target_ok_def addr_text_def Target_String_def Split_append_sep Split_nosep)
  ultimately show ?thesis using ok by (cases t) (auto simp: ParseTarget_def target_ok_def)
qed

lemma parse_targets_strings: "\<forall>t \<in> set ts. target_ok t \<Longrightarrow> parse_targets (map Target_String ts) = Inr ts"
proof (induction ts)
  case (Cons t ts)
  then show ?case
    using target_text [of t] TrimSpace_id [of "Target_String t"] ParseTarget_String [of t] by simp
qed simp

text \<open>
  Targets are read back as they are written: for a non-empty list of targets whose addresses contain
  no separator or white space, printing them, joining with commas and parsing returns the list.
\<close>

theorem targets_roundtrip:
  assumes "ts \<noteq> []" "\<forall>t \<in> set ts. target_ok t"
  shows "ParseTargets (Join '','' (map Target_String ts)) = Inr ts"
proof -
  have "Split CHR '','' (Join '','' (map Target_String ts)) = map Target_String ts"
    using assms target_text(1) by (intro Split_Join) auto
  moreover have "Join '','' (map Target_String ts) \<noteq> []"
    using assms target_text(3) by (cases ts; cases "tl ts") auto
  ultimately show ?thesis using assms parse_targets_strings [of ts] by (simp add: ParseTargets_def)
qed

theorem targets_roundtrip_witness:
  "ParseTargets (Join '','' (map Target_String
     [\<lparr>t_VTEPAddr = ''10.0.0.1'', t_EVRSrcAddr = ''10.0.0.2'', t_MockSrcAddr = []\<rparr>,
      \<lparr>t_VTEPAddr = ''10.0.0.3'', t_EVRSrcAddr = ''10.0.0.4'', t_MockSrcAddr = ''10.0.0.5''\<rparr>])) =
   Inr [\<lparr>t_VTEPAddr = ''10.0.0.1'', t_EVRSrcAddr = ''10.0.0.2'', t_MockSrcAddr = []\<rparr>,
      \<lparr>t_VTEPAddr = ''10.0.0.3'', t_EVRSrcAddr = ''10.0.0.4'', t_MockSrcAddr = ''10.0.0.5''\<rparr>]"
  by (rule targets_roundtrip) (simp_all add: target_ok_def addr_text_def is_space_def)


section \<open>What validation establishes\<close>

definition evr_runnable :: "net_env \<Rightarrow> evr_Config \<Rightarrow> bool" where
  "evr_runnable env c \<longleftrightarrow> valid_ip4 env (ec_ClientAddr c) \<and> ec_Targets c \<noteq> [] \<and>
     (\<forall>t \<in> set (ec_Targets c). valid_ip4 env (t_VTEPAddr t) \<and> valid_ip4 env (t_EVRSrcAddr t) \<and>
        (t_MockSrcAddr t \<noteq> [] \<longrightarrow> valid_ip4 env (t_MockSrcAddr t))) \<and>
     ec_DstPort c \<noteq> 0 \<and> ec_InnerDstPort c \<noteq> 0 \<and> e_ParseMAC env (ec_SrcMAC c) \<noteq> None \<and> ec_SrcMAC c \<noteq> [] \<and>
     e_ParseMAC env (ec_DstMAC c) \<noteq> None \<and> ec_DstMAC c \<noteq> [] \<and> ec_VNI c \<noteq> 0 \<and> ec_VNI c \<le> 0xFFFFFF \<and>
     ec_TTL c \<noteq> 0 \<and> valid_range (ec_ClientPortRange c) \<and> 0 < ec_RateInSpan c \<and> 0 < ec_Span c \<and>
     0 < ec_Delay c \<and> 0 < ec_MsgLen c \<and> 0 < ec_LogMaxAgeDays c"

lemma check_targets_None:
  "check_targets env ts = None \<longleftrightarrow>
     (\<forall>t \<in> set ts. valid_ip4 env (t_VTEPAddr t) \<and> valid_ip4 env (t_EVRSrcAddr t) \<and>
        (t_MockSrcAddr t \<noteq> [] \<longrightarrow> valid_ip4 env (t_MockSrcAddr t)))"
  by (induction ts) auto

lemma link_defaults_post:
  "ec_ClientAddr (link_defaults c) = ec_ClientAddr c" "ec_Targets (link_defaults c) = ec_Targets c"
  "ec_DstPort (link_defaults c) \<noteq> 0" "ec_InnerDstPort (link_defaults c) \<noteq> 0"
  "ec_SrcMAC (link_defaults c) \<noteq> []" "ec_DstMAC (link_defaults c) \<noteq> []"
  by (simp_all add: link_defaults_def Let_def)

lemma check_link_post:
  assumes "check_link env c = Inr c'"
  shows "ec_ClientAddr c' = ec_ClientAddr c" "ec_Targets c' = ec_Targets c" "ec_DstPort c' = ec_DstPort c"
    "ec_InnerDstPort c' = ec_InnerDstPort c" "ec_SrcMAC c' = ec_SrcMAC c" "ec_DstMAC c' = ec_DstMAC c"
    "e_ParseMAC env (ec_SrcMAC c') \<noteq> None" "e_ParseMAC env (ec_DstMAC c') \<noteq> None"
    "ec_VNI c' \<noteq> 0" "ec_VNI c' \<le> 0xFFFFFF" "ec_TTL c' \<noteq> 0"
  using assms by (auto simp: check_link_def Let_def not_less split: if_splits)

lemma check_rates_post:
  assumes "check_rates c = Inr c'"
  shows "ec_ClientAddr c' = ec_ClientAddr c" "ec_Targets c' = ec_Targets c" "ec_DstPort c' = ec_DstPort c"
    "ec_InnerDstPort c' = ec_InnerDstPort c" "ec_SrcMAC c' = ec_SrcMAC c" "ec_DstMAC c' = ec_DstMAC c"
    "ec_VNI c' = ec_VNI c" "ec_TTL c' = ec_TTL c" "valid_range (ec_ClientPortRange c')"
    "0 < ec_RateInSpan c'" "0 < ec_Span c'" "0 < ec_Delay c'" "0 < ec_MsgLen c'" "0 < ec_LogMaxAgeDays c'"
  using assms by (auto simp: check_rates_def Let_def valid_range_def zero_range_def split: if_splits)

lemma evr_Validate_runnable:
  assumes "evr_Validate env c = Inr c'" shows "evr_runnable env c'"
proof -
  obtain c1 c2 where ok: "valid_ip4 env (ec_ClientAddr c1)" "ec_Targets c1 \<noteq> []" "check_targets env (ec_Targets c1) = None"
    and l: "check_link env (link_defaults c1) = Inr c2" and r: "check_rates c2 = Inr c'"
    using assms by (auto simp: evr_Validate_def split: if_splits sum.splits option.splits)
  show ?thesis
    using check_rates_post [OF r] check_link_post [OF l] link_defaults_post [of c1] ok
    by (simp add: evr_runnable_def check_targets_None)
qed

text \<open>On a runnable configuration validation changes nothing.\<close>

lemma evr_runnable_fixed:
  assumes "evr_runnable env c" "ec_ClientAddr c \<noteq> []" shows "evr_Validate env c = Inr c"
proof -
  note r = assms(1) [unfolded evr_runnable_def]
  have "link_defaults c = c" using r by (simp add: link_defaults_def)
  moreover have "check_link env c = Inr c" using r by (simp add: check_link_def not_less)
  moreover have "check_rates c = Inr c"
  proof -
    have "ec_ClientPortRange c \<noteq> zero_range" using r by (auto simp: valid_range_def zero_range_def)
    then show ?thesis using r by (simp add: check_rates_def valid_range_def)
  qed
  moreover have "check_targets env (ec_Targets c) = None" using r by (simp add: check_targets_None)
  ultimately show ?thesis using assms r by (simp add: evr_Validate_def)
qed

text \<open>
  Validation of the VXLAN probe's configuration: it accepts exactly what it can complete to a
  runnable configuration, in which every address is IPv4, the VNI fits 24 bits, the port range is
  within 1..65535 and rate, span, delay and length are positive; and it is idempotent.
\<close>

theorem evr_validated_runnable:
  assumes "evr_Validate env c = Inr c'" "\<not> valid_ip4 env []"
  shows "evr_runnable env c' \<and> evr_Validate env c' = Inr c'"
proof -
  have r: "evr_runnable env c'" using assms(1) by (rule evr_Validate_runnable)
  then have "ec_ClientAddr c' \<noteq> []" using assms(2) by (auto simp: evr_runnable_def)
  then show ?thesis using r evr_runnable_fixed by blast
qed

definition demo_evr_env :: net_env where
  "demo_evr_env = \<lparr>e_Hostname = None, e_LookupHost = (\<lambda>_. None),
     e_ParseIP = (\<lambda>s. if s = ''10.0.0.1'' then Some [10, 0, 0, 1] else None), e_IPString = (\<lambda>_. ''''),
     e_Interfaces = None, e_ParseDuration = (\<lambda>_. None), e_ParseMAC = (\<lambda>_. Some [0, 0, 0, 0, 0, 1])\<rparr>"

definition demo_evr_config :: evr_Config where
  "demo_evr_config = \<lparr>ec_ID = '''', ec_ClientAddr = ''10.0.0.1'',
     ec_Targets = [\<lparr>t_VTEPAddr = ''10.0.0.1'', t_EVRSrcAddr = ''10.0.0.1'', t_MockSrcAddr = []\<rparr>],
     ec_DstPort = 0, ec_InnerDstPort = 0, ec_SrcMAC = '''', ec_DstMAC = '''', ec_VNI = 0, ec_TOS = 0, ec_TTL = 0,
     ec_ClientPortRange = zero_range, ec_RateInSpan = 0, ec_Span = 0, ec_Delay = 0, ec_MsgLen = 64,
     ec_PprofAddr = '''', ec_LogDir = '''', ec_LogMaxAgeDays = 0, ec_Verbose = False\<rparr>"

theorem evr_validated_runnable_witness:
  "\<exists>c'. evr_Validate demo_evr_env demo_evr_config = Inr c' \<and> evr_runnable demo_evr_env c' \<and>
     evr_Validate demo_evr_env c' = Inr c'"
proof -
  have "\<exists>c'. evr_Validate demo_evr_env demo_evr_config = Inr c'"
    by (simp add: evr_Validate_def check_link_def link_defaults_def check_rates_def demo_evr_env_def
        demo_evr_config_def valid_ip4_def To4_def zero_range_def Let_def)
  then obtain c' where c': "evr_Validate demo_evr_env demo_evr_config = Inr c'" by blast
  have "\<not> valid_ip4 demo_evr_env []" by (simp add: valid_ip4_def demo_evr_env_def)
  then show ?thesis using evr_validated_runnable [OF c'] c' by blast
qed

lemma range_or_default_valid:
  "range_or_default s dflt = Inr pr \<Longrightarrow> valid_range dflt \<Longrightarrow> valid_range pr"
  by (auto simp: range_or_default_def ParsePortRange_sound split: if_splits)

lemma kuiniu_check_addrs_None:
  assumes "kc_Role c = ''server'' \<or> kc_Role c = ''client'' \<or> kc_Role c = ''both''"
  shows "kuiniu_check_addrs env c = None \<longleftrightarrow>
     kc_LocalGPUAddrs c \<noteq> [] \<and> length (kc_RemoteGPUAddrs c) = length (kc_LocalGPUAddrs c) \<and>
     (\<forall>a \<in> set (kc_LocalGPUAddrs c) \<union> set (kc_RemoteGPUAddrs c). valid_ip4 env a)"
proof -
  have f: "(\<forall>a \<in> set xs. valid_ip4 env a) \<longleftrightarrow> List.find (\<lambda>a. \<not> valid_ip4 env a) xs = None" for xs
    by (auto simp: find_None_iff)
  have g: "(kc_Role c = ''client'' \<or> kc_Role c = ''both'') \<or> kc_Role c = ''server'' \<or> kc_Role c = ''both''"
    using assms by blast
  show ?thesis
    unfolding kuiniu_check_addrs_def Let_def if_P [OF g] ball_Un f
    by (cases "List.find (\<lambda>a. \<not> valid_ip4 env a) (kc_LocalGPUAddrs c)";
        cases "List.find (\<lambda>a. \<not> valid_ip4 env a) (kc_RemoteGPUAddrs c)") auto
qed

text \<open>
  Validation of the GPU fabric probe: an accepted configuration pairs every local address with a
  remote one, all IPv4, has usable port ranges, and validating it again changes nothing.
\<close>

theorem kuiniu_validated_pairs:
  assumes "kuiniu_Validate env c = Inr c'"
  shows "length (kc_RemoteGPUAddrs c') = GPUPairCount c' \<and> 0 < GPUPairCount c' \<and>
    (\<forall>a \<in> set (kc_LocalGPUAddrs c') \<union> set (kc_RemoteGPUAddrs c'). valid_ip4 env a) \<and>
    valid_range (kc_ClientPortRange c') \<and> valid_range (kc_ServerPortRange c') \<and> 0 < kc_MsgLen c' \<and>
    kc_RateInSpan c' \<noteq> 0 \<and> kuiniu_Validate env c' = Inr c'"
proof -
  obtain cpr spr spn delay sd where
    role: "kc_Role c = ''server'' \<or> kc_Role c = ''client'' \<or> kc_Role c = ''both''"
    and a: "kuiniu_check_addrs env c = None"
    and cpr: "range_or_default (kc_ClientPortRangeStr c) \<lparr>pr_Min = 43600, pr_Max = 43699\<rparr> = Inr cpr"
    and spr: "range_or_default (kc_ServerPortRangeStr c) \<lparr>pr_Min = 43600, pr_Max = 43609\<rparr> = Inr spr"
    and d: "duration_or_default env (kc_SpanStr c) second = Inr spn"
      "duration_or_default env (kc_DelayStr c) (3 * second) = Inr delay"
      "duration_or_default env (kc_SendDurStr c) (kc_SendDuration c) = Inr sd"
    and c': "c' = c\<lparr>kc_ClientPortRange := cpr, kc_ServerPortRange := spr,
       kc_RateInSpan := (if kc_RateInSpan c = 0 then 5000 else kc_RateInSpan c), kc_Span := spn,
       kc_Delay := delay, kc_SendDuration := sd, kc_MsgLen := (if kc_MsgLen c \<le> 0 then 1024 else kc_MsgLen c)\<rparr>"
    using assms unfolding kuiniu_Validate_def Let_def by (auto split: if_splits option.splits sum.splits)
  have r: "valid_range cpr" "valid_range spr"
    using range_or_default_valid [OF cpr] range_or_default_valid [OF spr] by (simp_all add: valid_range_def)
  note addrs = a [unfolded kuiniu_check_addrs_None [OF role]]
  moreover have "kuiniu_check_addrs env c' = None"
    using addrs role by (subst kuiniu_check_addrs_None) (simp_all add: c')
  moreover have "duration_or_default env (kc_SendDurStr c) sd = Inr sd"
    using d(3) by (auto simp: duration_or_default_def split: if_splits)
  ultimately show ?thesis using r role cpr spr d
    by (auto simp: c' GPUPairCount_def kuiniu_Validate_def Let_def)
qed

definition demo_kuiniu_config :: kuiniu_Config where
  "demo_kuiniu_config = \<lparr>kc_PprofAddr = [], kc_LogDir = [], kc_LogMaxAgeDays = 0, kc_Role = ''both'',
     kc_LocalGPUAddrs = [''10.0.0.1''], kc_RemoteGPUAddrs = [''10.0.0.1''], kc_TOS = 0,
     kc_ClientPortRange = zero_range, kc_ServerPortRange = zero_range, kc_ClientPortRangeStr = [],
     kc_ServerPortRangeStr = [], kc_RateInSpan = 0, kc_Span = 0, kc_SpanStr = [], kc_Delay = 0, kc_DelayStr = [],
     kc_MsgLen = 0, kc_Count = 0, kc_SendDuration = 0, kc_SendDurStr = [], kc_Verbose = False\<rparr>"

theorem kuiniu_validated_pairs_witness:
  "\<exists>c'. kuiniu_Validate demo_evr_env demo_kuiniu_config = Inr c' \<and>
     length (kc_RemoteGPUAddrs c') = GPUPairCount c' \<and> kuiniu_Validate demo_evr_env c' = Inr c'"
proof -
  have "\<exists>c'. kuiniu_Validate demo_evr_env demo_kuiniu_config = Inr c'"
    by (simp add: kuiniu_Validate_def kuiniu_check_addrs_def range_or_default_def duration_or_default_def
        demo_evr_env_def demo_kuiniu_config_def valid_ip4_def To4_def)
  then obtain c' where "kuiniu_Validate demo_evr_env demo_kuiniu_config = Inr c'" by blast
  then show ?thesis using kuiniu_validated_pairs by blast
qed

end
