(* ===== verification/Kuiniu.thy ===== *)
theory Kuiniu
  imports Sonar_Server Config_Evr Stat_Records
begin

text \<open>
  The GPU fabric probe: \<open>kuiniu/client/client.go\<close> and \<open>kuiniu/server/server.go\<close>. Each GPU of the local host
  probes the GPU of the same index on the remote host; the server echoes probes back. The raw sockets
  of \<open>kuiniu/transport\<close> and the dissector of the packet library are parameters: a sent packet is its
  addresses, ports and payload with the outcome of the write, a received packet is the payload the
  dissector finds in it. Map lookups of statistics use positions in the processor's list.
\<close>

section \<open>The client\<close>

record gpuPeer =
  gp_gpuIndex :: nat
  gp_localGPUIP :: "IP option"
  gp_remoteGPUIP :: "IP option"
  gp_seq :: u64
  gp_stat :: nat
  gp_msgLen :: int
  gp_clientPortRange :: PortRange
  gp_serverPortRange :: PortRange
  gp_ports :: u32

record kuiniu_Client =
  kl_conf :: kuiniu_Config
  kl_salts :: Salts
  kl_peers :: "gpuPeer list"
  kl_proc :: Processor

definition kuiniu_msgLen :: "kuiniu_Config \<Rightarrow> kuiniu_Config" where
  "kuiniu_msgLen conf =
     (if kc_MsgLen conf < int kuiniu_MsgHeaderLen then conf\<lparr>kc_MsgLen := int kuiniu_MsgHeaderLen\<rparr> else conf)"

definition new_gpuPeer :: "net_env \<Rightarrow> kuiniu_Config \<Rightarrow> u64 \<Rightarrow> nat \<Rightarrow> nat \<Rightarrow> gpuPeer" where
  "new_gpuPeer env conf seq st i =
     \<lparr>gp_gpuIndex = i, gp_localGPUIP = e_ParseIP env (kc_LocalGPUAddrs conf ! i),
      gp_remoteGPUIP = e_ParseIP env (kc_RemoteGPUAddrs conf ! i), gp_seq = seq, gp_stat = st,
      gp_msgLen = kc_MsgLen conf, gp_clientPortRange = kc_ClientPortRange conf, gp_serverPortRange = kc_ServerPortRange conf,
      gp_ports = packPorts (word_of_int (pr_Min (kc_ClientPortRange conf))) (word_of_int (pr_Min (kc_ServerPortRange conf)))\<rparr>"

text \<open>The loop over the pairs; \<open>seqs\<close> are the random first sequence numbers.\<close>

fun new_peers :: "net_env \<Rightarrow> kuiniu_Config \<Rightarrow> (nat \<Rightarrow> u64) \<Rightarrow> nat list \<Rightarrow> Processor \<Rightarrow> gpuPeer list \<times> Processor" where
  "new_peers env conf seqs [] proc = ([], proc)"
| "new_peers env conf seqs (i # rest) proc =
     (let s = NewStat (kc_LocalGPUAddrs conf ! i) (kc_RemoteGPUAddrs conf ! i) (kc_ClientPortRange conf)
                (kc_ServerPortRange conf) (kc_RateInSpan conf) (kc_Span conf) (kc_Delay conf) True;
          (ps, proc') = new_peers env conf seqs rest (AddStat s proc)
      in (new_gpuPeer env conf (seqs i) (length (p_stats proc)) i # ps, proc'))"

definition kuiniu_NewClient :: "net_env \<Rightarrow> (nat \<Rightarrow> u64) \<Rightarrow> kuiniu_Config \<Rightarrow> Processor \<Rightarrow> kuiniu_Client option" where
  "kuiniu_NewClient env seqs conf0 proc =
     (let conf = kuiniu_msgLen conf0
      in case NewSalts (kc_MsgLen conf - int kuiniu_MsgHeaderLen) of
           None \<Rightarrow> None
         | Some salts \<Rightarrow>
             (let (ps, proc') = new_peers env conf seqs [0..<nat (GPUPairCount conf)] proc
              in Some \<lparr>kl_conf = conf, kl_salts = salts, kl_peers = ps, kl_proc = proc'\<rparr>))"

text \<open>The port ranges of the receivers of one GPU, from \<open>Run\<close>: the same split as in the sonar client.\<close>

definition kuiniu_chunks :: "PortRange \<Rightarrow> (int \<times> int) list" where
  "kuiniu_chunks pr =
     (let portCount = pr_Max pr - pr_Min pr + 1; gcount = min portCount 8;
          portsPerG = (portCount + gcount - 1) sdiv gcount
      in port_chunks (nat portCount) (pr_Min pr) (pr_Max pr) portsPerG)"

subsection \<open>Sending\<close>

definition kuiniu_next_ports :: "gpuPeer \<Rightarrow> u16 \<times> u16" where
  "kuiniu_next_ports p =
     (let (localPort, serverPort) = unpackPorts (gp_ports p)
      in GetNextPorts_kuiniu localPort serverPort (gp_clientPortRange p) (gp_serverPortRange p))"

definition kuiniu_advance :: "gpuPeer \<Rightarrow> gpuPeer" where
  "kuiniu_advance p =
     p\<lparr>gp_seq := gp_seq p + 1, gp_ports := packPorts (fst (kuiniu_next_ports p)) (snd (kuiniu_next_ports p))\<rparr>"

definition kuiniu_init_vars :: "kuiniu_Config \<Rightarrow> send_vars" where
  "kuiniu_init_vars conf =
     \<lparr>sv_bucketID = 0, sv_lastSent = 0, sv_curSent = word_of_int (kc_RateInSpan conf),
      sv_lastStartSrcPort = 0, sv_lastStartDstPort = 0,
      sv_curStartSrcPort = word_of_int (pr_Min (kc_ClientPortRange conf)),
      sv_curStartDstPort = word_of_int (pr_Min (kc_ServerPortRange conf))\<rparr>"

definition ip4_or_nil :: "IP option \<Rightarrow> byte list" where
  "ip4_or_nil ip = (case ip of None \<Rightarrow> [] | Some b \<Rightarrow> (case To4 b of None \<Rightarrow> [] | Some v4 \<Rightarrow> v4))"

definition kuiniu_payload :: "kuiniu_Client \<Rightarrow> gpuPeer \<Rightarrow> send_vars \<Rightarrow> u16 \<times> u16 \<Rightarrow> int \<Rightarrow> byte list" where
  "kuiniu_payload c p v ports ts =
     kuiniu_Encode (gp_seq p) (Get (kl_salts c) (gp_seq p)) ts (gp_msgLen p) (ip4_or_nil (gp_localGPUIP p))
       (ip4_or_nil (gp_remoteGPUIP p)) (fst ports) (snd ports) (sv_lastSent v) (sv_lastStartSrcPort v) (sv_lastStartDstPort v)"

record kuiniu_sending =
  ks_client :: kuiniu_Client
  ks_vars :: "nat \<Rightarrow> send_vars"
  ks_count :: int
  ks_wire :: "(nat \<times> u16 \<times> u16 \<times> byte list) list"

record kuiniu_io =
  ki_ts :: int
  ki_since :: int
  ki_send_ok :: bool

text \<open>One turn of the inner loop, for the peer at position \<open>i\<close>. A probe whose send fails is deleted again.\<close>

definition kuiniu_send :: "kuiniu_io \<Rightarrow> nat \<Rightarrow> kuiniu_sending \<Rightarrow> (kuiniu_sending \<times> send_result) option" where
  "kuiniu_send io i st =
     (let c = ks_client st; conf = kl_conf c; p0 = kl_peers c ! i;
          p = kuiniu_advance p0; ports = kuiniu_next_ports p0;
          c = c\<lparr>kl_peers := (kl_peers c)[i := p]\<rparr>
      in if kc_Span conf = 0 then None
         else
           let v = advance_vars (i64 (ki_ts io sdiv kc_Span conf)) ports (ks_vars st i);
               payload = kuiniu_payload c p v ports (ki_ts io);
               st = st\<lparr>ks_client := c, ks_vars := (ks_vars st)(i := v), ks_count := ks_count st + 1\<rparr>
           in if kc_Count conf > 0 \<and> ks_count st > kc_Count conf then Some (st, ReachedLimit)
              else if kc_SendDuration conf > 0 \<and> ki_since io > kc_SendDuration conf then Some (st, ReachedLimit)
              else
                (case call_stat (Stat_Put (fst ports) (snd ports) (gp_seq p) (ki_ts io)) (gp_stat p) (kl_proc c) of
                   None \<Rightarrow> None
                 | Some proc \<Rightarrow>
                     if ki_send_ok io then
                       Some (st\<lparr>ks_client := c\<lparr>kl_proc := proc\<rparr>, ks_wire := ks_wire st @ [(i, fst ports, snd ports, payload)]\<rparr>, Continue)
                     else
                       (case call_stat (Stat_Delete (gp_seq p) (ki_ts io)) (gp_stat p) proc of
                          None \<Rightarrow> None
                        | Some proc' \<Rightarrow> Some (st\<lparr>ks_client := c\<lparr>kl_proc := proc'\<rparr>\<rparr>, Continue))))"

text \<open>A run of the send loop: the peers in turn, each with its inputs.\<close>

fun kuiniu_serveWrite :: "(nat \<times> kuiniu_io) list \<Rightarrow> kuiniu_sending \<Rightarrow> (kuiniu_sending \<times> send_result) option" where
  "kuiniu_serveWrite [] st = Some (st, Continue)"
| "kuiniu_serveWrite ((i, io) # rest) st =
     (case kuiniu_send io i st of
        None \<Rightarrow> None
      | Some (st', ReachedLimit) \<Rightarrow> Some (st', ReachedLimit)
      | Some (st', Continue) \<Rightarrow> kuiniu_serveWrite rest st')"

definition kuiniu_start :: "kuiniu_Client \<Rightarrow> kuiniu_sending" where
  "kuiniu_start c = \<lparr>ks_client = c, ks_vars = (\<lambda>_. kuiniu_init_vars (kl_conf c)), ks_count = 0, ks_wire = []\<rparr>"

subsection \<open>Receiving\<close>

text \<open>\<open>since\<close> is the time since the start of the process, \<open>delayBitflip\<close> 10 seconds. Logging is left out.\<close>

definition kuiniu_detectBitflip :: "int \<Rightarrow> bool" where
  "kuiniu_detectBitflip since \<longleftrightarrow> \<not> since \<le> 10 * second"

definition kuiniu_find_peer :: "kuiniu_Client \<Rightarrow> IP \<Rightarrow> gpuPeer option" where
  "kuiniu_find_peer c dst =
     List.find (\<lambda>p. case gp_remoteGPUIP p of None \<Rightarrow> dst = [] | Some ip \<Rightarrow> IP_Equal ip dst) (kl_peers c)"

definition kuiniu_handlePacket :: "int \<Rightarrow> int \<Rightarrow> byte list option \<Rightarrow> kuiniu_Client \<Rightarrow> kuiniu_Client option" where
  "kuiniu_handlePacket now since load c =
     (case load of None \<Rightarrow> Some c | Some payload \<Rightarrow>
        if payload = [] \<or> \<not> kuiniu_IsValid payload then Some c
        else
          let r = kuiniu_Decode payload
          in case kuiniu_find_peer c (d_DstIP r) of
               None \<Rightarrow> Some c
             | Some p \<Rightarrow>
                 let differs = (int (length payload) = kc_MsgLen (kl_conf c) \<and>
                                Get (kl_salts c) (d_Seq r) \<noteq> drop kuiniu_MsgHeaderLen payload)
                 in if differs \<and> kuiniu_detectBitflip since then Some c
                    else map_option (\<lambda>proc. c\<lparr>kl_proc := proc\<rparr>)
                           (call_stat (Stat_Received (d_Seq r) (d_Ts r) (i64 (now - d_Ts r)) False) (gp_stat p) (kl_proc c)))"


section \<open>The server\<close>

record kuiniu_Server =
  kv_conf :: kuiniu_Config
  kv_salts :: Salts
  kv_localGPUSet :: "string list"
  kv_stats :: "(string, nat) gomap"
  kv_proc :: Processor

definition kuiniu_register :: "string \<Rightarrow> string \<Rightarrow> kuiniu_Server \<Rightarrow> kuiniu_Server" where
  "kuiniu_register addr localAddr s =
     s\<lparr>kv_stats := AList.update addr (length (p_stats (kv_proc s))) (kv_stats s),
       kv_proc := AddStat (NewServerStat addr localAddr (kc_ClientPortRange (kv_conf s)) (kc_ServerPortRange (kv_conf s))
         (kc_RateInSpan (kv_conf s)) (kc_Span (kv_conf s)) (kc_Delay (kv_conf s)) True) (kv_proc s)\<rparr>"

text \<open>\<open>New\<close> indexes the local addresses with the positions of the remote ones and panics when there are fewer.\<close>

definition kuiniu_New :: "kuiniu_Config \<Rightarrow> Processor \<Rightarrow> kuiniu_Server option" where
  "kuiniu_New conf0 proc =
     (let conf = kuiniu_msgLen conf0
      in if length (kc_LocalGPUAddrs conf) < length (kc_RemoteGPUAddrs conf) then None
         else case NewSalts (kc_MsgLen conf - int kuiniu_MsgHeaderLen) of
           None \<Rightarrow> None
         | Some salts \<Rightarrow>
             Some (fold (\<lambda>i. kuiniu_register (kc_RemoteGPUAddrs conf ! i) (kc_LocalGPUAddrs conf ! i))
               [0..<length (kc_RemoteGPUAddrs conf)]
               \<lparr>kv_conf = conf, kv_salts = salts, kv_localGPUSet = kc_LocalGPUAddrs conf, kv_stats = [], kv_proc = proc\<rparr>))"

definition kuiniu_getOrCreateStat :: "string \<Rightarrow> kuiniu_Server \<Rightarrow> (kuiniu_Server \<times> nat) option" where
  "kuiniu_getOrCreateStat clientGPUIP s =
     (case map_of (kv_stats s) clientGPUIP of
        Some st \<Rightarrow> Some (s, st)
      | None \<Rightarrow>
          if kc_LocalGPUAddrs (kv_conf s) = [] then None
          else Some (kuiniu_register clientGPUIP (kc_LocalGPUAddrs (kv_conf s) ! 0) s, length (p_stats (kv_proc s))))"

record echo_packet =
  ep_localIP :: "IP option"
  ep_remoteIP :: IP
  ep_localPort :: u16
  ep_remotePort :: u16
  ep_payload :: "byte list"

definition kuiniu_server_handlePacket ::
    "net_env \<Rightarrow> nat \<Rightarrow> byte list option \<Rightarrow> kuiniu_Server \<Rightarrow> (kuiniu_Server \<times> echo_packet option) option" where
  "kuiniu_server_handlePacket env gpuIndex load s =
     (case load of None \<Rightarrow> Some (s, None) | Some payload \<Rightarrow>
        if payload = [] \<or> \<not> kuiniu_IsValid payload then Some (s, None)
        else
          let r = kuiniu_Decode payload; clientGPUIP = e_IPString env (d_SrcIP r)
          in if clientGPUIP \<in> set (kv_localGPUSet s) then Some (s, None)
             else
               let hasBitflip = (int (length payload) = kc_MsgLen (kv_conf s) \<and>
                                 Get (kv_salts s) (d_Seq r) \<noteq> drop kuiniu_MsgHeaderLen payload)
               in case kuiniu_getOrCreateStat clientGPUIP s of None \<Rightarrow> None | Some (s, st) \<Rightarrow>
                  (case call_stat (Stat_ReceivedAndFix (d_Seq r) (d_Ts r) 0 (d_LastSentCount r) (d_LastStartSrcPort r)
                          (d_LastStartDstPort r) hasBitflip) st (kv_proc s) of
                     None \<Rightarrow> None
                   | Some proc \<Rightarrow>
                       Some (s\<lparr>kv_proc := proc\<rparr>,
                         Some \<lparr>ep_localIP = e_ParseIP env (kc_LocalGPUAddrs (kv_conf s) ! gpuIndex), ep_remoteIP = d_SrcIP r,
                               ep_localPort = d_DstPort r, ep_remotePort = d_SrcPort r, ep_payload = payload\<rparr>)))"

fun kuiniu_readLoop ::
    "net_env \<Rightarrow> (nat \<times> byte list option) list \<Rightarrow> kuiniu_Server \<Rightarrow> (kuiniu_Server \<times> echo_packet list) option" where
  "kuiniu_readLoop env [] s = Some (s, [])"
| "kuiniu_readLoop env ((gpuIndex, load) # rest) s =
     (case kuiniu_server_handlePacket env gpuIndex load s of
        None \<Rightarrow> None
      | Some (s', echo) \<Rightarrow>
          map_option (\<lambda>(s'', es). (s'', (case echo of None \<Rightarrow> [] | Some e \<Rightarrow> [e]) @ es)) (kuiniu_readLoop env rest s'))"

section \<open>The server handles every packet\<close>

text \<open>No request of a client address carries a port: the invariant that the server, which never records a
  sent probe, keeps.\<close>

definition portless :: "udpStat \<Rightarrow> bool" where
  "portless st \<longleftrightarrow> all_requests (\<lambda>seq r. r_clientPort r = 0) (us_bkts st)"

definition kuiniu_inv :: "kuiniu_Server \<Rightarrow> bool" where
  "kuiniu_inv s \<longleftrightarrow> kc_LocalGPUAddrs (kv_conf s) \<noteq> [] \<and>
     (\<forall>(k, i) \<in> set (kv_stats s). i < length (p_stats (kv_proc s))) \<and>
     (\<forall>st \<in> set (p_stats (kv_proc s)). bs_span (us_bkts st) = kc_Span (kv_conf s) \<and> portless st)"

definition foreign_probe :: "net_env \<Rightarrow> kuiniu_Server \<Rightarrow> byte list \<Rightarrow> bool" where
  "foreign_probe env s d \<longleftrightarrow>
     kuiniu_IsValid d \<and> e_IPString env (d_SrcIP (kuiniu_Decode d)) \<notin> set (kv_localGPUSet s)"

definition kuiniu_echo :: "net_env \<Rightarrow> kuiniu_Config \<Rightarrow> nat \<Rightarrow> byte list \<Rightarrow> echo_packet" where
  "kuiniu_echo env conf gpuIndex d =
     \<lparr>ep_localIP = e_ParseIP env (kc_LocalGPUAddrs conf ! gpuIndex), ep_remoteIP = d_SrcIP (kuiniu_Decode d),
      ep_localPort = d_DstPort (kuiniu_Decode d), ep_remotePort = d_SrcPort (kuiniu_Decode d), ep_payload = d\<rparr>"

lemma portless_new: "portless (NewServerStat a l cr sr rate spn delay b)"
  by (simp add: portless_def NewServerStat_def)

lemma portless_fix: "portless st \<Longrightarrow> Stat_ReceivedAndFix seq ts rtt n sp dp bf st = Some st' \<Longrightarrow> portless st'"
  unfolding portless_def by (erule Stat_ReceivedAndFix_requests) (simp_all add: request0_def)

lemma kuiniu_register_inv:
  assumes "kuiniu_inv s" shows "kuiniu_inv (kuiniu_register addr l s)"
proof -
  have "bs_span (us_bkts (NewServerStat a l cr sr rate spn delay b)) = spn" for a l cr sr rate spn delay b
    by (simp add: NewServerStat_def newBuckets_def)
  then show ?thesis
    using assms set_update_subset [of addr "length (p_stats (kv_proc s))" "kv_stats s"]
    by (auto simp: kuiniu_inv_def kuiniu_register_def AddStat_def portless_new dest!: subsetD)
qed

lemma kuiniu_New_inv:
  assumes "kuiniu_New conf (NewProcessor spn delay) = Some s" "kc_LocalGPUAddrs conf \<noteq> []"
  shows "kuiniu_inv s" "kv_conf s = kuiniu_msgLen conf" "kv_localGPUSet s = kc_LocalGPUAddrs conf"
proof -
  have keep: "kuiniu_inv t \<Longrightarrow> kuiniu_inv (fold (\<lambda>i. kuiniu_register (f i) (g i)) xs t) \<and>
      kv_conf (fold (\<lambda>i. kuiniu_register (f i) (g i)) xs t) = kv_conf t \<and>
      kv_localGPUSet (fold (\<lambda>i. kuiniu_register (f i) (g i)) xs t) = kv_localGPUSet t" for xs t f g
    by (induction xs arbitrary: t) (simp_all add: kuiniu_register_inv, simp add: kuiniu_register_def)
  have l: "kc_LocalGPUAddrs (kuiniu_msgLen conf) = kc_LocalGPUAddrs conf" by (simp add: kuiniu_msgLen_def)
  obtain t f g xs where s: "s = fold (\<lambda>i. kuiniu_register (f i) (g i)) (xs :: nat list) t" and
    t: "kv_conf t = kuiniu_msgLen conf" "kv_localGPUSet t = kc_LocalGPUAddrs conf" "kv_stats t = []" "p_stats (kv_proc t) = []"
    using assms(1) l by (auto simp: kuiniu_New_def Let_def NewProcessor_def split: if_splits option.splits)
  have "kuiniu_inv t" using assms(2) l t by (simp add: kuiniu_inv_def)
  then show "kuiniu_inv s" "kv_conf s = kuiniu_msgLen conf" "kv_localGPUSet s = kc_LocalGPUAddrs conf"
    using keep [of t f g xs] s t by simp_all
qed

lemma kuiniu_getOrCreate_post:
  assumes "kuiniu_inv s"
  shows "\<exists>s' i. kuiniu_getOrCreateStat ip s = Some (s', i) \<and> kuiniu_inv s' \<and> i < length (p_stats (kv_proc s')) \<and>
    kv_conf s' = kv_conf s \<and> kv_localGPUSet s' = kv_localGPUSet s"
proof (cases "map_of (kv_stats s) ip")
  case None
  then show ?thesis
    using assms kuiniu_register_inv [OF assms, of ip]
    by (simp add: kuiniu_getOrCreateStat_def) (simp add: kuiniu_inv_def kuiniu_register_def AddStat_def)
next
  case (Some i)
  then show ?thesis using assms by (force simp: kuiniu_getOrCreateStat_def kuiniu_inv_def dest: map_of_SomeD)
qed

lemma kuiniu_server_step:
  assumes inv: "kuiniu_inv s" and spn: "kc_Span (kv_conf s) \<noteq> 0"
  shows "\<exists>s'. kuiniu_server_handlePacket env g (Some d) s =
      Some (s', if foreign_probe env s d then Some (kuiniu_echo env (kv_conf s) g d) else None) \<and>
    kuiniu_inv s' \<and> kv_conf s' = kv_conf s \<and> kv_localGPUSet s' = kv_localGPUSet s"
proof (cases "foreign_probe env s d")
  case False
  then show ?thesis using inv by (auto simp: kuiniu_server_handlePacket_def foreign_probe_def Let_def)
next
  case True
  let ?r = "kuiniu_Decode d"
  let ?bf = "int (length d) = kc_MsgLen (kv_conf s) \<and> Get (kv_salts s) (d_Seq ?r) \<noteq> drop kuiniu_MsgHeaderLen d"
  let ?call = "Stat_ReceivedAndFix (d_Seq ?r) (d_Ts ?r) 0 (d_LastSentCount ?r) (d_LastStartSrcPort ?r) (d_LastStartDstPort ?r) ?bf"
  have v: "d \<noteq> []" using True by (auto simp: foreign_probe_def kuiniu_IsValid_def header_lengths)
  obtain s1 i where s1: "kuiniu_getOrCreateStat (e_IPString env (d_SrcIP ?r)) s = Some (s1, i)" "kuiniu_inv s1"
      "i < length (p_stats (kv_proc s1))" "kv_conf s1 = kv_conf s" "kv_localGPUSet s1 = kv_localGPUSet s"
    using kuiniu_getOrCreate_post [OF inv] by blast
  let ?st = "p_stats (kv_proc s1) ! i"
  have st: "?st \<in> set (p_stats (kv_proc s1))" using s1(3) by simp
  then have "bs_span (us_bkts ?st) = kc_Span (kv_conf s1)" "portless ?st" using s1(2) by (simp_all add: kuiniu_inv_def)
  moreover obtain st' where st': "?call ?st = Some st'" "bs_span (us_bkts st') = bs_span (us_bkts ?st)"
    using Stat_ReceivedAndFix_total [of ?st] calculation(1) spn s1(4) by (metis (no_types, lifting))
  ultimately have "kuiniu_inv (s1\<lparr>kv_proc := set_stat i st' (kv_proc s1)\<rparr>)"
    using s1(2,3) portless_fix [OF _ st'(1)] by (auto simp: kuiniu_inv_def set_stat_def dest!: set_update_subset_insert [THEN subsetD])
  moreover have "kuiniu_server_handlePacket env g (Some d) s =
      Some (s1\<lparr>kv_proc := set_stat i st' (kv_proc s1)\<rparr>, Some (kuiniu_echo env (kv_conf s) g d))"
    using True v s1 st'(1) by (simp add: kuiniu_server_handlePacket_def foreign_probe_def call_stat_def kuiniu_echo_def Let_def)
  ultimately show ?thesis using True s1(4,5) by simp
qed

text \<open>Every packet is handled; the echoes are those of the foreign probes, in order.\<close>

definition kuiniu_echoes :: "net_env \<Rightarrow> kuiniu_Server \<Rightarrow> (nat \<times> byte list option) list \<Rightarrow> echo_packet list" where
  "kuiniu_echoes env s pkts = concat (map (\<lambda>(g, load). case load of None \<Rightarrow> []
     | Some d \<Rightarrow> if foreign_probe env s d then [kuiniu_echo env (kv_conf s) g d] else []) pkts)"

lemma kuiniu_readLoop_total:
  assumes "kuiniu_inv s" "kc_Span (kv_conf s) \<noteq> 0"
  shows "\<exists>s'. kuiniu_readLoop env pkts s = Some (s', kuiniu_echoes env s pkts) \<and>
    kuiniu_inv s' \<and> kv_conf s' = kv_conf s \<and> kv_localGPUSet s' = kv_localGPUSet s"
  using assms
proof (induction pkts arbitrary: s)
  case (Cons p pkts)
  obtain g load where p: "p = (g, load)" by (cases p)
  have "\<exists>s1. kuiniu_server_handlePacket env g load s = Some (s1, case load of None \<Rightarrow> None
      | Some d \<Rightarrow> if foreign_probe env s d then Some (kuiniu_echo env (kv_conf s) g d) else None) \<and>
    kuiniu_inv s1 \<and> kv_conf s1 = kv_conf s \<and> kv_localGPUSet s1 = kv_localGPUSet s"
  proof (cases load)
    case None
    then show ?thesis using Cons.prems by (simp add: kuiniu_server_handlePacket_def)
  next
    case (Some d)
    then show ?thesis using kuiniu_server_step [OF Cons.prems, of env g d] by simp
  qed
  then obtain s1 where s1: "kuiniu_server_handlePacket env g load s = Some (s1, case load of None \<Rightarrow> None
      | Some d \<Rightarrow> if foreign_probe env s d then Some (kuiniu_echo env (kv_conf s) g d) else None)"
    "kuiniu_inv s1" "kv_conf s1 = kv_conf s" "kv_localGPUSet s1 = kv_localGPUSet s" by blast
  have f: "foreign_probe env s1 = foreign_probe env s" using s1(4) by (simp add: foreign_probe_def fun_eq_iff)
  have "kuiniu_echoes env s1 pkts = kuiniu_echoes env s pkts" unfolding kuiniu_echoes_def f s1(3) ..
  moreover obtain s' where "kuiniu_readLoop env pkts s1 = Some (s', kuiniu_echoes env s1 pkts)"
    "kuiniu_inv s'" "kv_conf s' = kv_conf s1" "kv_localGPUSet s' = kv_localGPUSet s1"
    using Cons.IH [OF s1(2)] s1(3) Cons.prems(2) by auto
  ultimately show ?case using p s1 by (auto simp: kuiniu_echoes_def split: option.splits)
qed (simp add: kuiniu_echoes_def)


definition demo_gpu_conf :: kuiniu_Config where
  "demo_gpu_conf = demo_kuiniu_config\<lparr>kc_LocalGPUAddrs := [''10.0.0.2''], kc_RemoteGPUAddrs := [''10.0.0.1''],
     kc_ClientPortRange := \<lparr>pr_Min = 100, pr_Max = 103\<rparr>, kc_ServerPortRange := \<lparr>pr_Min = 200, pr_Max = 203\<rparr>,
     kc_Span := 10, kc_MsgLen := 48\<rparr>"

definition demo_gpu_env :: net_env where
  "demo_gpu_env = demo_env\<lparr>e_IPString := (\<lambda>ip. if ip = [10, 0, 0, 1] then ''10.0.0.1'' else ''10.0.0.2''),
     e_ParseIP := (\<lambda>a. if a = ''10.0.0.1'' then Some [10, 0, 0, 1] else Some [10, 0, 0, 2])\<rparr>"

definition demo_probe :: "byte list" where
  "demo_probe = kuiniu_encode demo_kuiniu [0xFF, 0xFE, 0xFF, 0xFF] 48"

lemma demo_probe_fields: "kuiniu_IsValid demo_probe" "kuiniu_Decode demo_probe = demo_kuiniu"
proof -
  have "kuiniu_ok demo_kuiniu" by (simp add: kuiniu_ok_def demo_kuiniu_def in_i64_def)
  then show "kuiniu_IsValid demo_probe" "kuiniu_Decode demo_probe = demo_kuiniu"
    by (simp_all add: demo_probe_def kuiniu_codec.encode_valid kuiniu_codec.decode_encode)
qed

lemma demo_gpu_server: "\<exists>s. kuiniu_New demo_gpu_conf (NewProcessor 10 30) = Some s"
  by (simp add: kuiniu_New_def kuiniu_msgLen_def demo_gpu_conf_def demo_kuiniu_config_def NewSalts_def header_lengths Let_def)

lemma demo_gpu_conf_simps [simp]:
  "kc_LocalGPUAddrs demo_gpu_conf = [''10.0.0.2'']" "kc_Span demo_gpu_conf = 10" "kc_MsgLen demo_gpu_conf = 48"
  by (simp_all add: demo_gpu_conf_def)



section \<open>What the server reports\<close>

lemma portless_received_pairs:
  assumes "portless st" "(k, b) \<in> set (bs_buckets (us_bkts st))"
  shows "received_pairs b = []"
  using assms by (fastforce simp: portless_def all_requests_def map_all_def received_pairs_def requests_of_def filter_empty_conv)


text \<open>Two probes, one in each of two consecutive spans; the second announces the first one's span.\<close>

definition demo_probe2 :: "byte list" where
  "demo_probe2 = kuiniu_encode (demo_kuiniu\<lparr>d_Seq := 2, d_Ts := 12, d_LastSentCount := 1\<rparr>) [] 44"

definition demo_gpu_start :: kuiniu_Server where
  "demo_gpu_start = the (kuiniu_New demo_gpu_conf (NewProcessor 10 30))"

definition demo_gpu_end :: kuiniu_Server where
  "demo_gpu_end = fst (the (kuiniu_readLoop demo_gpu_env [(0, Some demo_probe), (0, Some demo_probe2)] demo_gpu_start))"

definition demo_gpu_bucket :: bucket where
  "demo_gpu_bucket = the (map_of (bs_buckets (us_bkts (p_stats (kv_proc demo_gpu_end) ! 0))) 0)"

lemma demo_gpu_run:
  "kuiniu_readLoop demo_gpu_env [(0, Some demo_probe), (0, Some demo_probe2)] demo_gpu_start \<noteq> None"
  "length (p_stats (kv_proc demo_gpu_end)) = 1"
  "map_of (bs_buckets (us_bkts (p_stats (kv_proc demo_gpu_end) ! 0))) 0 \<noteq> None"
  "b_packetCountFixed demo_gpu_bucket" "b_packetCount demo_gpu_bucket = 1"
  "b_startSrcPort demo_gpu_bucket = 100" "b_startDstPort demo_gpu_bucket = 150"
  by code_simp+



section \<open>The round trip of a probe\<close>

text \<open>A client as \<open>kuiniu_NewClient\<close> makes it: the salts fit the message length.\<close>

definition kuiniu_salted :: "kuiniu_Client \<Rightarrow> bool" where
  "kuiniu_salted c \<longleftrightarrow> int kuiniu_MsgHeaderLen \<le> kc_MsgLen (kl_conf c) \<and>
     NewSalts (kc_MsgLen (kl_conf c) - int kuiniu_MsgHeaderLen) = Some (kl_salts c) \<and>
     (\<forall>p \<in> set (kl_peers c). gp_msgLen p = kc_MsgLen (kl_conf c))"

definition is_ip4 :: "IP option \<Rightarrow> bool" where
  "is_ip4 ip \<longleftrightarrow> (\<exists>b. ip = Some b \<and> To4 b \<noteq> None)"

lemma ip4_or_nil_cases:
  assumes "is_ip4 ip" obtains b v where "ip = Some b" "To4 b = Some v" "ip4_or_nil ip = v" "length v = 4"
  using assms by (auto simp: is_ip4_def ip4_or_nil_def To4_def v4InV6Prefix_def split: if_splits)

lemma IP_Equal_To4: "To4 b = Some v \<Longrightarrow> length w = 4 \<Longrightarrow> IP_Equal b w \<longleftrightarrow> v = w"
  by (auto simp: IP_Equal_def To4_def split: if_splits)

lemma new_peers_msgLen:
  "new_peers env conf seqs is proc = (ps, proc') \<Longrightarrow> p \<in> set ps \<Longrightarrow> gp_msgLen p = kc_MsgLen conf"
  by (induction "is" arbitrary: proc proc' ps) (auto simp: new_gpuPeer_def Let_def split: prod.splits)

lemma kuiniu_NewClient_salted: "kuiniu_NewClient env seqs conf proc = Some c \<Longrightarrow> kuiniu_salted c"
  by (auto simp: kuiniu_NewClient_def kuiniu_salted_def kuiniu_msgLen_def Let_def header_lengths
      dest: new_peers_msgLen split: option.splits prod.splits if_splits)

lemma kuiniu_find_peer_distinct:
  assumes "\<forall>q \<in> set (kl_peers c). is_ip4 (gp_remoteGPUIP q)"
    and "distinct (map (\<lambda>q. ip4_or_nil (gp_remoteGPUIP q)) (kl_peers c))" "p \<in> set (kl_peers c)"
  shows "kuiniu_find_peer c (ip4_or_nil (gp_remoteGPUIP p)) = Some p"
proof -
  have test: "(case gp_remoteGPUIP q of None \<Rightarrow> ip4_or_nil (gp_remoteGPUIP p) = [] |
      Some ip \<Rightarrow> IP_Equal ip (ip4_or_nil (gp_remoteGPUIP p))) \<longleftrightarrow> q = p" if q: "q \<in> set (kl_peers c)" for q
  proof -
    obtain b v where b: "gp_remoteGPUIP q = Some b" "To4 b = Some v" "ip4_or_nil (gp_remoteGPUIP q) = v"
      using assms(1) q ip4_or_nil_cases by metis
    have "length (ip4_or_nil (gp_remoteGPUIP p)) = 4" using assms(1,3) ip4_or_nil_cases by metis
    then have "IP_Equal b (ip4_or_nil (gp_remoteGPUIP p)) \<longleftrightarrow>
        ip4_or_nil (gp_remoteGPUIP q) = ip4_or_nil (gp_remoteGPUIP p)"
      using IP_Equal_To4 [OF b(2)] b(3) by simp
    also have "\<dots> \<longleftrightarrow> q = p" using assms(2,3) q by (auto simp: distinct_map dest: inj_onD)
    finally show ?thesis using b(1) by simp
  qed
  have "List.find P xs = Some p" if "p \<in> set xs" "\<forall>q \<in> set xs. P q \<longleftrightarrow> q = p" for P xs
    using that by (induction xs) auto
  then show ?thesis unfolding kuiniu_find_peer_def using assms(3) test by simp
qed

text \<open>The fields of a probe and its body.\<close>

lemma kuiniu_payload_fields:
  assumes "kuiniu_salted c" "p \<in> set (kl_peers c)" "is_ip4 (gp_localGPUIP p)" "is_ip4 (gp_remoteGPUIP p)" "in_i64 ts"
    and d_def: "d = kuiniu_payload c p v ports ts"
  shows "kuiniu_IsValid d" "drop kuiniu_MsgHeaderLen d = Get (kl_salts c) (gp_seq p)"
    "kuiniu_Decode d = \<lparr>d_Seq = gp_seq p, d_Ts = ts, d_LastSentCount = sv_lastSent v, d_SrcIP = ip4_or_nil (gp_localGPUIP p),
       d_DstIP = ip4_or_nil (gp_remoteGPUIP p), d_SrcPort = fst ports, d_DstPort = snd ports,
       d_LastStartSrcPort = sv_lastStartSrcPort v, d_LastStartDstPort = sv_lastStartDstPort v\<rparr>"
proof -
  let ?r = "\<lparr>d_Seq = gp_seq p, d_Ts = ts, d_LastSentCount = sv_lastSent v, d_SrcIP = ip4_or_nil (gp_localGPUIP p),
       d_DstIP = ip4_or_nil (gp_remoteGPUIP p), d_SrcPort = fst ports, d_DstPort = snd ports,
       d_LastStartSrcPort = sv_lastStartSrcPort v, d_LastStartDstPort = sv_lastStartDstPort v\<rparr>"
  have l: "length (ip4_or_nil (gp_localGPUIP p)) = 4" "length (ip4_or_nil (gp_remoteGPUIP p)) = 4"
    using assms(3,4) ip4_or_nil_cases by metis+
  have ok: "kuiniu_ok ?r" using l assms(5) by (simp add: kuiniu_ok_def)
  have d: "d = kuiniu_encode ?r (Get (kl_salts c) (gp_seq p)) (gp_msgLen p)"
    by (simp add: d_def kuiniu_payload_def kuiniu_encode_def)
  have "gp_msgLen p = kc_MsgLen (kl_conf c)" using assms(1,2) by (simp add: kuiniu_salted_def)
  moreover have "length (Get (kl_salts c) (gp_seq p)) = nat (kc_MsgLen (kl_conf c)) - kuiniu_MsgHeaderLen"
    using assms(1) by (auto simp: kuiniu_salted_def nat_diff_distrib)
  ultimately have b: "salt_body (nat (gp_msgLen p) - kuiniu_MsgHeaderLen) (Get (kl_salts c) (gp_seq p)) = Get (kl_salts c) (gp_seq p)"
    by (simp add: salt_body_full)
  show "kuiniu_IsValid d" "drop kuiniu_MsgHeaderLen d = Get (kl_salts c) (gp_seq p)" "kuiniu_Decode d = ?r"
    using b unfolding d
    by (simp_all add: kuiniu_codec.encode_valid [OF ok] kuiniu_codec.encode_body [OF ok] kuiniu_codec.decode_encode [OF ok])
qed


definition demo_gpu_client :: kuiniu_Client where
  "demo_gpu_client = the (kuiniu_NewClient demo_gpu_env (\<lambda>_. 7)
     (demo_gpu_conf\<lparr>kc_LocalGPUAddrs := [''10.0.0.1''], kc_RemoteGPUAddrs := [''10.0.0.2'']\<rparr>) (NewProcessor 10 30))"

definition demo_gpu_peer :: gpuPeer where
  "demo_gpu_peer = new_gpuPeer demo_gpu_env
     (demo_gpu_conf\<lparr>kc_LocalGPUAddrs := [''10.0.0.1''], kc_RemoteGPUAddrs := [''10.0.0.2'']\<rparr>) 7 0 0"

lemma demo_gpu_new: "kuiniu_NewClient demo_gpu_env (\<lambda>_. 7)
     (demo_gpu_conf\<lparr>kc_LocalGPUAddrs := [''10.0.0.1''], kc_RemoteGPUAddrs := [''10.0.0.2'']\<rparr>) (NewProcessor 10 30) = Some demo_gpu_client"
proof -
  have "\<exists>c. kuiniu_NewClient demo_gpu_env (\<lambda>_. 7)
     (demo_gpu_conf\<lparr>kc_LocalGPUAddrs := [''10.0.0.1''], kc_RemoteGPUAddrs := [''10.0.0.2'']\<rparr>) (NewProcessor 10 30) = Some c"
    by (simp add: kuiniu_NewClient_def kuiniu_msgLen_def header_lengths NewSalts_def Let_def GPUPairCount_def)
  then show ?thesis by (auto simp: demo_gpu_client_def)
qed

lemma demo_gpu_client_fields:
  "kl_peers demo_gpu_client = [demo_gpu_peer]" "length (p_stats (kl_proc demo_gpu_client)) = 1"
  "us_bkts (p_stats (kl_proc demo_gpu_client) ! 0) = newBuckets 10 0 False"
  "gp_localGPUIP demo_gpu_peer = Some [10, 0, 0, 1]" "gp_remoteGPUIP demo_gpu_peer = Some [10, 0, 0, 2]"
  "gp_stat demo_gpu_peer = 0" "gp_seq demo_gpu_peer = 7"
  by (simp_all add: demo_gpu_client_def demo_gpu_peer_def kuiniu_NewClient_def kuiniu_msgLen_def header_lengths NewSalts_def Let_def
      GPUPairCount_def new_gpuPeer_def demo_gpu_conf_def demo_kuiniu_config_def demo_gpu_env_def AddStat_def NewProcessor_def NewStat_def)


subsection \<open>A span of zero\<close>

text \<open>The span of the file is taken as \<open>time.ParseDuration\<close> reads it. A span of \<open>0s\<close> passes the validation, and the
  first turn of the send loop, whatever its inputs, divides by it.\<close>

lemma kuiniu_zero_span_accepted:
  assumes "kuiniu_Validate env c = Inr c'" "kc_SpanStr c = s" "s \<noteq> []" "e_ParseDuration env s = Some 0"
  shows "kc_Span c' = 0"
  using assms unfolding kuiniu_Validate_def Let_def
  by (auto simp: duration_or_default_def split: if_splits option.splits sum.splits)

lemma kuiniu_zero_span_crashes:
  assumes "kuiniu_Validate env c = Inr c'" "kc_SpanStr c = s" "s \<noteq> []" "e_ParseDuration env s = Some 0"
    and "kl_conf (ks_client st) = c'"
  shows "kuiniu_serveWrite ((i, io) # rest) st = None"
  using kuiniu_zero_span_accepted [OF assms(1-4)] assms(5) by (simp add: kuiniu_send_def Let_def)

definition zero_span_env :: net_env where
  "zero_span_env = demo_evr_env\<lparr>e_ParseDuration := (\<lambda>s. if s = ''0s'' then Some 0 else None)\<rparr>"

lemma kuiniu_zero_span_example:
  "\<exists>c'. kuiniu_Validate zero_span_env (demo_kuiniu_config\<lparr>kc_SpanStr := ''0s''\<rparr>) = Inr c' \<and> kc_Span c' = 0"
  by (simp add: kuiniu_Validate_def kuiniu_check_addrs_def range_or_default_def duration_or_default_def
      zero_span_env_def demo_evr_env_def demo_kuiniu_config_def valid_ip4_def To4_def)

end
