(* ===== verification/Kuiniu_Transport.thy ===== *)
theory Kuiniu_Transport
  imports Kuiniu Bpf_Filters
begin

text \<open>
  The raw sockets of the GPU probe and the code that opens and reads them: \<open>kuiniu/transport/udp.go\<close>,
  \<open>Client.Run\<close> and \<open>Client.readLoop\<close> of \<open>kuiniu/client/client.go\<close> and \<open>Server.Run\<close> of
  \<open>kuiniu/server/server.go\<close>. The outcomes of the socket calls, the packet builder and the dissector are
  arguments. Shown here: how the packets that arrive are shared among the receivers, and that the client
  and the server of one host, whose sockets see the same packets in the role \<open>both\<close>, each act on
  their own packets only.
\<close>

section \<open>Sockets\<close>

text \<open>The outcomes of the calls that open a socket: listening, attaching the filter, setting the type of
  service. Only the first is checked. A socket has a filter, and marks its packets, when the call went well.\<close>

record socket_io =
  so_listen_ok :: bool
  so_bpf_ok :: bool
  so_tos_ok :: bool

record UDPSender =
  ud_localIP :: "IP option"
  ud_tos :: int
  ud_ttl :: int
  ud_filter :: "Instruction list option"
  ud_connTOS :: "int option"

record UDPReceiver =
  ur_localIP :: "IP option"
  ur_tos :: int
  ur_portRange :: PortRange
  ur_filter :: "Instruction list option"
  ur_connTOS :: "int option"

datatype transport_error = ListenFailed "IP option" | BuildFailed | DeadlineFailed | WriteFailed | ReadFailed

definition NewUDPSender :: "socket_io \<Rightarrow> IP option \<Rightarrow> int \<Rightarrow> int \<Rightarrow> transport_error + UDPSender" where
  "NewUDPSender io localIP tos ttl =
     (if \<not> so_listen_ok io then Inl (ListenFailed localIP)
      else Inr \<lparr>ud_localIP = localIP, ud_tos = tos, ud_ttl = ttl,
        ud_filter = (if so_bpf_ok io then Some emptyBPF else None),
        ud_connTOS = (if so_tos_ok io then Some tos else None)\<rparr>)"

definition NewUDPReceiver :: "socket_io \<Rightarrow> IP option \<Rightarrow> int \<Rightarrow> PortRange \<Rightarrow> transport_error + UDPReceiver" where
  "NewUDPReceiver io localIP tos portRange =
     (if \<not> so_listen_ok io then Inl (ListenFailed localIP)
      else Inr \<lparr>ur_localIP = localIP, ur_tos = tos, ur_portRange = portRange,
        ur_filter = (if so_bpf_ok io then Some (kuiniu_portRangeBPF (pr_Min portRange) (pr_Max portRange) tos) else None),
        ur_connTOS = (if so_tos_ok io then Some tos else None)\<rparr>)"

text \<open>The deadline of a context; \<open>None\<close> stands for the zero time, which means no deadline.\<close>

definition getDeadline :: "int option \<Rightarrow> int option" where
  "getDeadline ctx = (case ctx of Some dl \<Rightarrow> Some dl | None \<Rightarrow> None)"

text \<open>The packet builder gets both addresses, the ports, the time to live and the payload; the type of
  service is a parameter the function does not use.\<close>

definition encodeUDPPacket ::
    "builder \<Rightarrow> IP option \<Rightarrow> IP option \<Rightarrow> u16 \<Rightarrow> u16 \<Rightarrow> byte \<Rightarrow> int \<Rightarrow> byte list \<Rightarrow> byte list option" where
  "encodeUDPPacket build localIP remoteIP localPort remotePort tos ttl payload =
     build localIP remoteIP localPort remotePort (word_of_int ttl) payload"

record conn_io =
  co_SetDeadline :: "int option \<Rightarrow> bool"
  co_WriteTo :: "byte list \<Rightarrow> IP option \<Rightarrow> bool"

definition UDPSender_Send ::
    "builder \<Rightarrow> conn_io \<Rightarrow> int option \<Rightarrow> IP option \<Rightarrow> IP option \<Rightarrow> u16 \<Rightarrow> u16 \<Rightarrow> byte list \<Rightarrow> UDPSender \<Rightarrow>
       transport_error + byte list \<times> IP option" where
  "UDPSender_Send build io ctx localIP remoteIP localPort remotePort payload s =
     (case encodeUDPPacket build localIP remoteIP localPort remotePort (word_of_int (ud_tos s)) (ud_ttl s) payload of
        None \<Rightarrow> Inl BuildFailed
      | Some data \<Rightarrow>
          if \<not> co_SetDeadline io (getDeadline ctx) then Inl DeadlineFailed
          else if \<not> co_WriteTo io data remoteIP then Inl WriteFailed
          else Inr (data, remoteIP))"

text \<open>What Go's \<open>ReadFrom\<close> does to a packet of an IPv4 raw socket: it takes the IP header off.\<close>

definition stripIPv4Header :: "byte list \<Rightarrow> byte list" where
  "stripIPv4Header b =
     (if length b < 20 then b
      else let l = 4 * unat (b ! 0 AND 0x0f)
           in if l < 20 \<or> length b < l \<or> drop_bit 4 (b ! 0) \<noteq> 4 then b else drop l b)"

record read_io =
  rd_SetReadDeadline :: "int option \<Rightarrow> bool"
  rd_packet :: "(byte list \<times> string) option"

definition UDPReceiver_Receive :: "read_io \<Rightarrow> int option \<Rightarrow> transport_error + byte list \<times> string" where
  "UDPReceiver_Receive io ctx =
     (if \<not> rd_SetReadDeadline io (getDeadline ctx) then Inl DeadlineFailed
      else case rd_packet io of
        None \<Rightarrow> Inl ReadFailed
      | Some (pkt, addr) \<Rightarrow> Inr (stripIPv4Header (take 10240 pkt), addr))"

section \<open>Opening them\<close>

text \<open>The map of senders by GPU index; the first socket that does not open ends the run.\<close>

fun open_senders ::
    "(nat \<Rightarrow> socket_io) \<Rightarrow> int \<Rightarrow> (nat \<times> IP option) list \<Rightarrow> (nat, UDPSender) gomap \<Rightarrow>
       transport_error + (nat, UDPSender) gomap" where
  "open_senders io tos [] m = Inr m"
| "open_senders io tos ((i, ip) # rest) m =
     (case NewUDPSender (io i) ip tos 64 of
        Inl e \<Rightarrow> Inl e
      | Inr s \<Rightarrow> open_senders io tos rest (AList.update i s m))"

fun open_receivers ::
    "(nat \<Rightarrow> socket_io) \<Rightarrow> int \<Rightarrow> nat \<Rightarrow> (IP option \<times> PortRange) list \<Rightarrow> transport_error + UDPReceiver list" where
  "open_receivers io tos k [] = Inr []"
| "open_receivers io tos k ((ip, pr) # rest) =
     (case NewUDPReceiver (io k) ip tos pr of
        Inl e \<Rightarrow> Inl e
      | Inr r \<Rightarrow> (case open_receivers io tos (Suc k) rest of Inl e \<Rightarrow> Inl e | Inr rs \<Rightarrow> Inr (r # rs)))"

text \<open>The receivers of a client, GPU by GPU, each with its share of the client ports.\<close>

definition receiver_plan :: "PortRange \<Rightarrow> gpuPeer list \<Rightarrow> (IP option \<times> PortRange) list" where
  "receiver_plan pr peers =
     concat (map (\<lambda>p. map (\<lambda>(i, upper). (gp_localGPUIP p, \<lparr>pr_Min = i, pr_Max = upper\<rparr>)) (kuiniu_chunks pr)) peers)"

definition kuiniu_Run ::
    "(nat \<Rightarrow> socket_io) \<Rightarrow> (nat \<Rightarrow> socket_io) \<Rightarrow> kuiniu_Client \<Rightarrow>
       transport_error + (nat, UDPSender) gomap \<times> UDPReceiver list" where
  "kuiniu_Run ios ior c =
     (case open_senders ios (kc_TOS (kl_conf c)) (map (\<lambda>p. (gp_gpuIndex p, gp_localGPUIP p)) (kl_peers c)) [] of
        Inl e \<Rightarrow> Inl e
      | Inr gpuSenders \<Rightarrow>
          (case open_receivers ior (kc_TOS (kl_conf c)) 0 (receiver_plan (kc_ClientPortRange (kl_conf c)) (kl_peers c)) of
             Inl e \<Rightarrow> Inl e
           | Inr rs \<Rightarrow> Inr (gpuSenders, rs)))"

text \<open>The server gives up when a sender cannot be opened and goes on without a receiver that cannot.\<close>

definition kuiniu_server_Run ::
    "net_env \<Rightarrow> (nat \<Rightarrow> socket_io) \<Rightarrow> (nat \<Rightarrow> socket_io) \<Rightarrow> kuiniu_Server \<Rightarrow>
       transport_error + (nat, UDPSender) gomap \<times> (nat \<times> UDPReceiver) list" where
  "kuiniu_server_Run env ios ior s =
     (let conf = kv_conf s; gpus = map (\<lambda>i. (i, e_ParseIP env (kc_LocalGPUAddrs conf ! i))) [0..<length (kc_LocalGPUAddrs conf)]
      in case open_senders ios (kc_TOS conf) gpus [] of
           Inl e \<Rightarrow> Inl e
         | Inr gpuSenders \<Rightarrow>
             Inr (gpuSenders, concat (map (\<lambda>(i, gpuIP).
               case NewUDPReceiver (ior i) gpuIP (kc_TOS conf) (kc_ServerPortRange conf) of
                 Inl e \<Rightarrow> [] | Inr r \<Rightarrow> [(i, r)]) gpus)))"

text \<open>The reading loop of a client: a read that fails is skipped. \<open>dissect\<close> finds the payload of a UDP
  packet; every event has the time of the read and the time since the start of the process.\<close>

fun kuiniu_client_readLoop ::
    "(byte list \<Rightarrow> byte list option) \<Rightarrow> int option \<Rightarrow> (int \<times> int \<times> read_io) list \<Rightarrow> kuiniu_Client \<Rightarrow> kuiniu_Client option" where
  "kuiniu_client_readLoop dissect ctx [] c = Some c"
| "kuiniu_client_readLoop dissect ctx ((now, since, io) # rest) c =
     (case UDPReceiver_Receive io ctx of
        Inl e \<Rightarrow> kuiniu_client_readLoop dissect ctx rest c
      | Inr (data, addr) \<Rightarrow>
          (case kuiniu_handlePacket now since (dissect data) c of
             None \<Rightarrow> None
           | Some c' \<Rightarrow> kuiniu_client_readLoop dissect ctx rest c'))"

section \<open>Which receiver gets a packet\<close>

text \<open>The kernel hands a packet to a raw socket when it is addressed to the address the socket is bound to
  and the filter, if there is one, accepts it.\<close>

definition delivered ::
    "(Instruction list \<Rightarrow> u32 \<Rightarrow> u32 \<Rightarrow> byte list \<Rightarrow> u32) \<Rightarrow> byte list \<Rightarrow> UDPReceiver \<Rightarrow> bool" where
  "delivered exec pkt r \<longleftrightarrow> ip4_or_nil (ur_localIP r) = slice 16 20 pkt \<and>
     (case ur_filter r of None \<Rightarrow> True | Some prog \<Rightarrow> exec prog 0 0 pkt \<noteq> 0)"

lemma kuiniu_filter_udp:
  assumes "bpf_machine exec" "24 \<le> length pkt" "ip_proto pkt = 17"
    and "0 \<le> lo" "lo < 65536" "0 \<le> hi" "hi < 65536" "0 \<le> tos" "tos < 256"
  shows "exec (kuiniu_portRangeBPF lo hi tos) 0 0 pkt \<noteq> 0 \<longleftrightarrow> ip_tos pkt = tos \<and> lo \<le> port_at 22 pkt \<and> port_at 22 pkt \<le> hi"
proof -
  obtain v where v: "bpf_load pkt 22 2 = Some v" "uint v = port_at 22 pkt"
    using bpf_load_2 [of 22 pkt] assms(2) by auto
  have "bpf_load pkt 9 1 = Some 17"
    using assms(2,3) word_of_int_eq [of 17 "ucast (pkt ! 9) :: u32"] by (simp add: bpf_load_1 ip_proto_def)
  moreover have "bpf_load pkt 1 1 = Some (word_of_int tos) \<longleftrightarrow> ip_tos pkt = tos"
    using assms(2,8,9) by (simp add: bpf_load_1 ip_tos_def word_of_int_eq)
  ultimately show ?thesis
    using bpf_machine.sonar_accepts [OF assms(1), of lo hi tos pkt] v assms(4-7)
    by (simp add: kuiniu_portRangeBPF_same le_word_of_int word_of_int_le)
qed

text \<open>A list whose elements satisfy a test at one position only, and a concatenation all of whose hits lie in one part.\<close>

lemma ex1_nth_filter:
  assumes "\<exists>!k. k < length xs \<and> P (xs ! k)" shows "\<exists>x. filter P xs = [x]"
proof -
  obtain k where "{i. i < length xs \<and> P (xs ! i)} = {k}" using assms by auto
  then have "length (filter P xs) = 1" by (simp add: length_filter_conv_card)
  then show ?thesis by (auto simp: length_Suc_conv)
qed

lemma filter_concat_one:
  assumes "distinct xs" "x \<in> set xs" "\<And>y. y \<in> set xs \<Longrightarrow> y \<noteq> x \<Longrightarrow> filter P (f y) = []"
  shows "filter P (concat (map f xs)) = filter P (f x)"
  using assms
proof (induction xs)
  case (Cons y ys)
  show ?case
  proof (cases "y = x")
    case True
    then have "\<forall>z \<in> set ys. filter P (f z) = []" using Cons.prems(1,3) by auto
    then have "filter P (concat (map f ys)) = []" by (auto simp: filter_empty_conv)
    then show ?thesis using True by simp
  next
    case False
    then show ?thesis using Cons.IH Cons.prems by auto
  qed
qed simp

lemma open_receivers_plan:
  assumes "open_receivers io tos k plan = Inr rs" "\<forall>k. so_bpf_ok (io k)"
  shows "map (\<lambda>r. (ur_localIP r, ur_portRange r)) rs = plan" "r \<in> set rs \<Longrightarrow>
    ur_filter r = Some (kuiniu_portRangeBPF (pr_Min (ur_portRange r)) (pr_Max (ur_portRange r)) tos)"
  using assms
proof (induction plan arbitrary: k rs)
  case (Cons x plan) {
    case 1 then show ?case using Cons.IH(1)
      by (cases x) (fastforce simp: NewUDPReceiver_def split: sum.splits if_splits)
  next
    case 2 then show ?case using Cons.IH(2)
      by (cases x) (fastforce simp: NewUDPReceiver_def split: sum.splits if_splits)
  }
qed auto

text \<open>The test on a planned receiver that decides, for a UDP packet, whether its socket gets it.\<close>

definition planned :: "byte list \<Rightarrow> int \<Rightarrow> IP option \<times> PortRange \<Rightarrow> bool" where
  "planned pkt tos x \<longleftrightarrow> ip4_or_nil (fst x) = slice 16 20 pkt \<and> ip_tos pkt = tos \<and>
     pr_Min (snd x) \<le> port_at 22 pkt \<and> port_at 22 pkt \<le> pr_Max (snd x)"

lemma receiver_plan_bounds:
  assumes "valid_range pr" "x \<in> set (receiver_plan pr peers)"
  shows "0 \<le> pr_Min (snd x) \<and> pr_Min (snd x) < 65536 \<and> 0 \<le> pr_Max (snd x) \<and> pr_Max (snd x) < 65536 \<and>
    pr_Min pr \<le> pr_Min (snd x) \<and> pr_Max (snd x) \<le> pr_Max pr \<and> (\<exists>p \<in> set peers. fst x = gp_localGPUIP p)"
proof -
  have same: "kuiniu_chunks pr = serveRead_chunks pr" by (simp add: kuiniu_chunks_def serveRead_chunks_def)
  obtain p ch where "p \<in> set peers" "ch \<in> set (serveRead_chunks pr)"
    "x = (gp_localGPUIP p, \<lparr>pr_Min = fst ch, pr_Max = snd ch\<rparr>)"
    using assms(2) by (auto simp: receiver_plan_def same split_beta)
  moreover from this(2) obtain i where "i < length (serveRead_chunks pr)" "ch = serveRead_chunks pr ! i"
    by (auto simp: in_set_conv_nth)
  ultimately show ?thesis using serveRead_chunks_cover(3) [OF assms(1), of i] assms(1) by (auto simp: valid_range_def)
qed

lemma delivered_planned:
  assumes "bpf_machine exec" "open_receivers io tos k (receiver_plan pr peers) = Inr rs" "\<forall>k. so_bpf_ok (io k)"
    and "valid_range pr" "0 \<le> tos" "tos < 256" "24 \<le> length pkt" "ip_proto pkt = 17" "r \<in> set rs"
  shows "delivered exec pkt r \<longleftrightarrow> planned pkt tos (ur_localIP r, ur_portRange r)"
proof -
  have "(ur_localIP r, ur_portRange r) \<in> set (receiver_plan pr peers)"
    using open_receivers_plan(1) [OF assms(2,3)] assms(9) by (metis (no_types, lifting) image_eqI set_map)
  then show ?thesis
    using receiver_plan_bounds [OF assms(4)] open_receivers_plan(2) [OF assms(2,3,9)] assms(5,6)
      kuiniu_filter_udp [OF assms(1,7,8), of "pr_Min (ur_portRange r)" "pr_Max (ur_portRange r)" tos]
    by (auto simp: delivered_def planned_def)
qed

lemma planned_one:
  assumes "valid_range pr" "p \<in> set peers" "distinct (map (\<lambda>q. ip4_or_nil (gp_localGPUIP q)) peers)"
    and "ip4_or_nil (gp_localGPUIP p) = slice 16 20 pkt" "ip_tos pkt = tos"
    and "pr_Min pr \<le> port_at 22 pkt" "port_at 22 pkt \<le> pr_Max pr"
  shows "\<exists>x. filter (planned pkt tos) (receiver_plan pr peers) = [x]"
proof -
  let ?ch = "serveRead_chunks pr"
  let ?f = "\<lambda>q. map (\<lambda>(i, upper). (gp_localGPUIP q, \<lparr>pr_Min = i, pr_Max = upper\<rparr>)) ?ch"
  have same: "kuiniu_chunks pr = ?ch" by (simp add: kuiniu_chunks_def serveRead_chunks_def)
  have "filter (planned pkt tos) (?f q) = []" if "q \<in> set peers" "q \<noteq> p" for q
  proof -
    have "ip4_or_nil (gp_localGPUIP q) \<noteq> slice 16 20 pkt"
      using that assms(2-4) inj_onD [of "\<lambda>q. ip4_or_nil (gp_localGPUIP q)" "set peers" q p] by (auto simp: distinct_map)
    then show ?thesis by (auto simp: filter_empty_conv planned_def)
  qed
  then have "filter (planned pkt tos) (receiver_plan pr peers) = filter (planned pkt tos) (?f p)"
    unfolding receiver_plan_def same using assms(2,3) by (intro filter_concat_one) (auto simp: distinct_map)
  moreover have "k < length (?f p) \<and> planned pkt tos (?f p ! k) \<longleftrightarrow>
      k < length ?ch \<and> fst (?ch ! k) \<le> port_at 22 pkt \<and> port_at 22 pkt \<le> snd (?ch ! k)" for k
    using assms(4,5) by (auto simp: planned_def split_beta)
  then have "\<exists>!k. k < length (?f p) \<and> planned pkt tos (?f p ! k)"
    using serveRead_chunks_cover(2) [OF assms(1,6,7)] by presburger
  then have "\<exists>x. filter (planned pkt tos) (?f p) = [x]" by (rule ex1_nth_filter)
  ultimately show ?thesis by simp
qed


definition demo_io :: "nat \<Rightarrow> socket_io" where
  "demo_io k = \<lparr>so_listen_ok = True, so_bpf_ok = True, so_tos_ok = True\<rparr>"

definition demo_echo :: "byte list" where
  "demo_echo = [0x45, 0, 0, 36, 0, 0, 0, 0, 64, 17, 0, 0, 10, 0, 0, 2, 10, 0, 0, 1, 0, 200, 0, 101, 0, 16, 0, 0]"

lemma open_receivers_ok:
  "(\<exists>e. open_receivers io tos k plan = Inl e) \<longleftrightarrow> (\<exists>j < length plan. \<not> so_listen_ok (io (k + j)))"
proof (induction plan arbitrary: k)
  case (Cons x plan)
  have "(\<exists>j < length (x # plan). \<not> so_listen_ok (io (k + j))) \<longleftrightarrow>
      \<not> so_listen_ok (io k) \<or> (\<exists>j < length plan. \<not> so_listen_ok (io (Suc k + j)))"
    by (auto simp: less_Suc_eq_0_disj)
  then show ?case using Cons.IH [of "Suc k"]
    by (cases x) (auto simp: NewUDPReceiver_def split: sum.splits)
qed simp

lemma open_senders_ok:
  "(\<exists>e. open_senders io tos gpus m = Inl e) \<longleftrightarrow> (\<exists>i \<in> set (map fst gpus). \<not> so_listen_ok (io i))"
proof (induction gpus arbitrary: m)
  case (Cons x gpus)
  show ?case
  proof (cases "so_listen_ok (io (fst x))")
    case True
    then show ?thesis by (cases x) (simp only: Cons.IH open_senders.simps NewUDPSender_def sum.case, simp add: Cons.IH)
  next
    case False
    then show ?thesis by (cases x) (simp add: NewUDPSender_def)
  qed
qed simp

lemma open_senders_keys:
  "open_senders io tos gpus m = Inr m' \<Longrightarrow> set (map fst m') = set (map fst m) \<union> set (map fst gpus)"
proof (induction gpus arbitrary: m)
  case (Cons x gpus)
  then obtain s where "open_senders io tos gpus (AList.update (fst x) s m) = Inr m'"
    by (cases x) (auto split: sum.splits)
  from Cons.IH [OF this] show ?case
    using dom_update [of "fst x" s m] by (auto simp only: list.map set_map list.set fst_conv)
qed simp

lemma sum_not_Inl: "(\<nexists>e. x = Inl e) \<Longrightarrow> \<exists>v. x = Inr v"
  by (cases x) auto

lemma demo_gpu_run_ok: "\<exists>senders rs. kuiniu_Run demo_io demo_io demo_gpu_client = Inr (senders, rs)"
proof -
  obtain m where "open_senders demo_io (kc_TOS (kl_conf demo_gpu_client))
      (map (\<lambda>p. (gp_gpuIndex p, gp_localGPUIP p)) (kl_peers demo_gpu_client)) [] = Inr m"
    using sum_not_Inl [of "open_senders demo_io _ _ _"] open_senders_ok [of demo_io] by (fastforce simp: demo_io_def)
  moreover obtain rs where "open_receivers demo_io (kc_TOS (kl_conf demo_gpu_client)) 0
      (receiver_plan (kc_ClientPortRange (kl_conf demo_gpu_client)) (kl_peers demo_gpu_client)) = Inr rs"
    using sum_not_Inl [of "open_receivers demo_io _ _ _"] open_receivers_ok [of demo_io] by (fastforce simp: demo_io_def)
  ultimately show ?thesis by (simp add: kuiniu_Run_def)
qed


lemma kuiniu_Run_fails:
  "(\<exists>e. kuiniu_Run ios ior c = Inl e) \<longleftrightarrow>
      (\<exists>p \<in> set (kl_peers c). \<not> so_listen_ok (ios (gp_gpuIndex p))) \<or>
      (\<exists>k < length (kl_peers c) * length (kuiniu_chunks (kc_ClientPortRange (kl_conf c))). \<not> so_listen_ok (ior k))"
proof -
  have len: "length (receiver_plan pr ps) = length ps * length (kuiniu_chunks pr)" for pr ps
    by (induction ps) (simp_all add: receiver_plan_def)
  have "(\<exists>e. kuiniu_Run ios ior c = Inl e) \<longleftrightarrow>
      (\<exists>e. open_senders ios (kc_TOS (kl_conf c)) (map (\<lambda>p. (gp_gpuIndex p, gp_localGPUIP p)) (kl_peers c)) [] = Inl e) \<or>
      (\<exists>e. open_receivers ior (kc_TOS (kl_conf c)) 0 (receiver_plan (kc_ClientPortRange (kl_conf c)) (kl_peers c)) = Inl e)"
    by (auto simp: kuiniu_Run_def split: sum.splits)
  then show ?thesis unfolding open_senders_ok open_receivers_ok len by simp
qed

lemma listening_gpus:
  "map fst (concat (map (\<lambda>(i, gpuIP). case NewUDPReceiver (ior i) gpuIP tos pr of Inl e \<Rightarrow> [] | Inr r \<Rightarrow> [(i, r)]) gpus)) =
     filter (\<lambda>i. so_listen_ok (ior i)) (map fst gpus)"
  by (induction gpus) (auto simp: NewUDPReceiver_def)

lemma kuiniu_server_Run_starts:
  assumes "kuiniu_server_Run env ios ior s = r" and n: "n = length (kc_LocalGPUAddrs (kv_conf s))"
  shows "case r of
      Inl e \<Rightarrow> \<exists>i < n. \<not> so_listen_ok (ios i)
    | Inr (senders, rs) \<Rightarrow>
        (\<forall>i < n. so_listen_ok (ios i)) \<and> map fst rs = filter (\<lambda>i. so_listen_ok (ior i)) [0..<n] \<and>
        set (map fst senders) = {..<n}"
proof -
  define gpus where "gpus = map (\<lambda>i. (i, e_ParseIP env (kc_LocalGPUAddrs (kv_conf s) ! i))) [0..<n]"
  have fsts: "map fst gpus = [0..<n]" by (simp add: gpus_def comp_def)
  have ok: "(\<exists>e. open_senders ios tos gpus [] = Inl e) \<longleftrightarrow> (\<exists>i < n. \<not> so_listen_ok (ios i))" for tos
    unfolding open_senders_ok fsts by auto
  show ?thesis
  proof (cases "open_senders ios (kc_TOS (kv_conf s)) gpus []")
    case (Inl e)
    then have "r = Inl e" using assms by (simp add: kuiniu_server_Run_def Let_def gpus_def)
    then show ?thesis using ok Inl by auto
  next
    case (Inr senders)
    then have "r = Inr (senders, concat (map (\<lambda>(i, gpuIP).
        case NewUDPReceiver (ior i) gpuIP (kc_TOS (kv_conf s)) (kc_ServerPortRange (kv_conf s)) of
          Inl e \<Rightarrow> [] | Inr r \<Rightarrow> [(i, r)]) gpus))"
      using assms by (simp add: kuiniu_server_Run_def Let_def gpus_def)
    moreover have "set (map fst senders) = {..<n}" using open_senders_keys [OF Inr] unfolding fsts by auto
    moreover have "\<forall>i < n. so_listen_ok (ios i)" using ok [of "kc_TOS (kv_conf s)"] Inr by auto
    ultimately show ?thesis by (simp only: sum.case prod.case listening_gpus fsts simp_thms)
  qed
qed

text \<open>
  Which sockets a run needs. The client does not start exactly when one of its senders or receivers
  cannot be bound. The server does not start exactly when one of its senders cannot be bound; it then
  listens on just those GPUs whose receiver could be bound, and has a sender for every one of them, so
  that a packet it accepts can always be answered.
\<close>

theorem kuiniu_start_failures:
  "((\<exists>e. kuiniu_Run ios ior c = Inl e) \<longleftrightarrow>
      (\<exists>p \<in> set (kl_peers c). \<not> so_listen_ok (ios (gp_gpuIndex p))) \<or>
      (\<exists>k < length (kl_peers c) * length (kuiniu_chunks (kc_ClientPortRange (kl_conf c))). \<not> so_listen_ok (ior k))) \<and>
   (case kuiniu_server_Run env ios ior s of
      Inl e \<Rightarrow> \<exists>i < length (kc_LocalGPUAddrs (kv_conf s)). \<not> so_listen_ok (ios i)
    | Inr (senders, rs) \<Rightarrow>
        (\<forall>i < length (kc_LocalGPUAddrs (kv_conf s)). so_listen_ok (ios i)) \<and>
        map fst rs = filter (\<lambda>i. so_listen_ok (ior i)) [0..<length (kc_LocalGPUAddrs (kv_conf s))] \<and>
        set (map fst senders) = {..<length (kc_LocalGPUAddrs (kv_conf s))})"
  using kuiniu_Run_fails kuiniu_server_Run_starts [OF refl refl] by (rule conjI)

section \<open>Both roles on one host\<close>

text \<open>What a run of the sender leaves on the wire: valid probes that carry the address pair of their GPU.\<close>

definition gpu_pair :: "gpuPeer \<Rightarrow> IP option \<times> IP option" where
  "gpu_pair p = (gp_localGPUIP p, gp_remoteGPUIP p)"

definition carries :: "(IP option \<times> IP option) list \<Rightarrow> nat \<times> u16 \<times> u16 \<times> byte list \<Rightarrow> bool" where
  "carries pairs w \<longleftrightarrow> (case w of (i, sp, dp, d) \<Rightarrow> i < length pairs \<and> kuiniu_IsValid d \<and>
     d_SrcIP (kuiniu_Decode d) = ip4_or_nil (fst (pairs ! i)) \<and> d_DstIP (kuiniu_Decode d) = ip4_or_nil (snd (pairs ! i)) \<and>
     d_SrcPort (kuiniu_Decode d) = sp \<and> d_DstPort (kuiniu_Decode d) = dp)"

definition wire_inv :: "(IP option \<times> IP option) list \<Rightarrow> kuiniu_sending \<Rightarrow> bool" where
  "wire_inv pairs st \<longleftrightarrow> kuiniu_salted (ks_client st) \<and> map gpu_pair (kl_peers (ks_client st)) = pairs \<and>
     (\<forall>w \<in> set (ks_wire st). carries pairs w)"

lemma kuiniu_salted_peers:
  "kuiniu_salted c \<Longrightarrow> i < length (kl_peers c) \<Longrightarrow> kuiniu_salted (c\<lparr>kl_peers := (kl_peers c)[i := kuiniu_advance (kl_peers c ! i)]\<rparr>)"
  by (auto simp: kuiniu_salted_def kuiniu_advance_def dest!: set_update_subset_insert [THEN subsetD])

lemma gpu_pair_advance [simp]: "gpu_pair (kuiniu_advance p) = gpu_pair p"
  by (simp add: gpu_pair_def kuiniu_advance_def)

lemma kuiniu_send_wire:
  assumes inv: "wire_inv pairs st" and ips: "\<forall>(a, b) \<in> set pairs. is_ip4 a \<and> is_ip4 b"
    and i: "i < length pairs" and ts: "in_i64 (ki_ts io)" and run: "kuiniu_send io i st = Some (st', r)"
  shows "wire_inv pairs st'"
proof -
  let ?c = "ks_client st" and ?p = "kuiniu_advance (kl_peers (ks_client st) ! i)" and ?ports = "kuiniu_next_ports (kl_peers (ks_client st) ! i)"
  define c1 where "c1 = ?c\<lparr>kl_peers := (kl_peers ?c)[i := ?p]\<rparr>"
  have pairs: "map gpu_pair (kl_peers ?c) = pairs" and i': "i < length (kl_peers ?c)"
    using inv i by (auto simp: wire_inv_def)
  have c1: "kuiniu_salted c1" "map gpu_pair (kl_peers c1) = pairs" "?p \<in> set (kl_peers c1)" "gpu_pair ?p = pairs ! i"
    using inv kuiniu_salted_peers [OF _ i'] i' pairs
    by (auto simp: c1_def wire_inv_def map_update set_update_memI list_update_same_conv)
  have "is_ip4 (gp_localGPUIP ?p)" "is_ip4 (gp_remoteGPUIP ?p)"
    using ips nth_mem [OF i] c1(4) [symmetric] by (auto simp: gpu_pair_def)
  from kuiniu_payload_fields [OF c1(1,3) this ts refl]
  have new: "carries pairs (i, fst ?ports, snd ?ports, kuiniu_payload c1 ?p v ?ports (ki_ts io))" for v
    using i c1(4) [symmetric] by (simp add: carries_def gpu_pair_def)
  have keep: "kuiniu_salted (c1\<lparr>kl_proc := q\<rparr>)" for q using c1(1) by (simp add: kuiniu_salted_def)
  have "ks_client st' = c1 \<or> (\<exists>q. ks_client st' = c1\<lparr>kl_proc := q\<rparr>)"
    "ks_wire st' = ks_wire st \<or> (\<exists>v. ks_wire st' = ks_wire st @ [(i, fst ?ports, snd ?ports, kuiniu_payload c1 ?p v ?ports (ki_ts io))])"
    using run unfolding kuiniu_send_def Let_def c1_def [symmetric]
    by (auto split: if_splits option.splits)
  then show ?thesis using new keep c1(1,2) inv by (auto simp: wire_inv_def)
qed

lemma kuiniu_serveWrite_wire:
  assumes "wire_inv pairs st" "\<forall>(a, b) \<in> set pairs. is_ip4 a \<and> is_ip4 b"
    and "\<forall>(i, io) \<in> set evs. i < length pairs \<and> in_i64 (ki_ts io)" "kuiniu_serveWrite evs st = Some (st', r)"
  shows "wire_inv pairs st'"
  using assms(1,3,4)
proof (induction evs arbitrary: st)
  case (Cons ev evs)
  obtain i io where ev: "ev = (i, io)" by (cases ev)
  from Cons.prems(3) obtain st1 r1 where s: "kuiniu_send io i st = Some (st1, r1)"
    and rest: "r1 = Continue \<and> kuiniu_serveWrite evs st1 = Some (st', r) \<or> r1 = ReachedLimit \<and> st' = st1"
    unfolding ev by (auto split: option.splits send_result.splits)
  have "wire_inv pairs st1"
    using kuiniu_send_wire [OF Cons.prems(1) assms(2) _ _ s] Cons.prems(2) by (simp add: ev)
  then show ?case using Cons.IH [of st1] Cons.prems(2) rest by auto
qed simp

text \<open>A client for the pairs of a configuration.\<close>

lemma new_peers_pairs:
  "new_peers env conf seqs is proc = (ps, proc') \<Longrightarrow>
     map gpu_pair ps = map (\<lambda>i. (e_ParseIP env (kc_LocalGPUAddrs conf ! i), e_ParseIP env (kc_RemoteGPUAddrs conf ! i))) is"
  by (induction "is" arbitrary: proc proc' ps) (auto simp: new_gpuPeer_def gpu_pair_def Let_def split: prod.splits)

definition conf_pairs :: "net_env \<Rightarrow> string list \<Rightarrow> string list \<Rightarrow> (IP option \<times> IP option) list" where
  "conf_pairs env locals remotes = zip (map (e_ParseIP env) locals) (map (e_ParseIP env) remotes)"

lemma kuiniu_NewClient_wire:
  assumes "kuiniu_NewClient env seqs conf proc = Some c" "length (kc_RemoteGPUAddrs conf) = length (kc_LocalGPUAddrs conf)"
  shows "wire_inv (conf_pairs env (kc_LocalGPUAddrs conf) (kc_RemoteGPUAddrs conf)) (kuiniu_start c)"
proof -
  let ?conf = "kuiniu_msgLen conf"
  obtain ps proc' where ps: "new_peers env ?conf seqs [0..<GPUPairCount ?conf] proc = (ps, proc')" by fastforce
  then have c: "kl_peers c = ps"
    using assms(1) unfolding kuiniu_NewClient_def Let_def nat_int by (simp add: ps split: option.splits) auto
  have same: "kc_LocalGPUAddrs ?conf = kc_LocalGPUAddrs conf" "kc_RemoteGPUAddrs ?conf = kc_RemoteGPUAddrs conf"
    by (simp_all add: kuiniu_msgLen_def)
  have "map gpu_pair (kl_peers c) =
      map (\<lambda>i. (e_ParseIP env (kc_LocalGPUAddrs conf ! i), e_ParseIP env (kc_RemoteGPUAddrs conf ! i))) [0..<length (kc_LocalGPUAddrs conf)]"
    using new_peers_pairs [OF ps] by (simp add: c GPUPairCount_def same)
  also have "\<dots> = conf_pairs env (kc_LocalGPUAddrs conf) (kc_RemoteGPUAddrs conf)"
    using assms(2) unfolding conf_pairs_def by (intro nth_equalityI) simp_all
  finally show ?thesis using kuiniu_NewClient_salted [OF assms(1)] by (simp add: wire_inv_def kuiniu_start_def)
qed

text \<open>Addresses written the way they are printed: what \<open>net.IP.String\<close> returns for the four bytes of a
  dotted address.\<close>

definition printed :: "net_env \<Rightarrow> string \<Rightarrow> bool" where
  "printed env a \<longleftrightarrow> valid_ip4 env a \<and> e_IPString env (ip4_or_nil (e_ParseIP env a)) = a"

lemma kuiniu_inert_probe:
  assumes "\<forall>q \<in> set (kl_peers c). is_ip4 (gp_remoteGPUIP q) \<and> ip4_or_nil (gp_remoteGPUIP q) \<noteq> d_DstIP (kuiniu_Decode d)"
    and "length (d_DstIP (kuiniu_Decode d)) = 4"
  shows "kuiniu_handlePacket now since (Some d) c = Some c"
proof -
  have "\<not> (case gp_remoteGPUIP q of None \<Rightarrow> d_DstIP (kuiniu_Decode d) = [] | Some ip \<Rightarrow> IP_Equal ip (d_DstIP (kuiniu_Decode d)))"
    if q: "q \<in> set (kl_peers c)" for q
  proof -
    obtain b v where b: "gp_remoteGPUIP q = Some b" "To4 b = Some v" "ip4_or_nil (gp_remoteGPUIP q) = v"
      using assms(1) q ip4_or_nil_cases by metis
    have "v \<noteq> d_DstIP (kuiniu_Decode d)" using assms(1) q b(3) by auto
    then show ?thesis using b(1) IP_Equal_To4 [OF b(2) assms(2)] by simp
  qed
  then have "kuiniu_find_peer c (d_DstIP (kuiniu_Decode d)) = None"
    by (simp add: kuiniu_find_peer_def find_None_iff)
  then show ?thesis by (simp add: kuiniu_handlePacket_def)
qed

lemma valid_is_ip4: "valid_ip4 env a \<Longrightarrow> is_ip4 (e_ParseIP env a)"
  by (auto simp: is_ip4_def valid_ip4_def split: option.splits)

lemma conf_pairs_ip4:
  assumes "\<forall>a \<in> set locals \<union> set remotes. valid_ip4 env a"
  shows "\<forall>(a, b) \<in> set (conf_pairs env locals remotes). is_ip4 a \<and> is_ip4 b"
proof -
  have "is_ip4 a \<and> is_ip4 b" if "(a, b) \<in> set (conf_pairs env locals remotes)" for a b
    using set_zip_leftD [OF that [unfolded conf_pairs_def]] set_zip_rightD [OF that [unfolded conf_pairs_def]] assms
    by (auto intro!: valid_is_ip4)
  then show ?thesis by auto
qed

text \<open>The server of a host with local addresses \<open>ls\<close> and remote ones \<open>rs\<close>, on a probe of its own
  client and on one of the other host, and the client of the host on the latter.\<close>

lemma own_probe_ignored:
  assumes "carries (conf_pairs env ls rs) (i, sp, dp, d)" "\<forall>a \<in> set ls. printed env a" "kv_localGPUSet s = ls"
  shows "kuiniu_server_handlePacket env g (Some d) s = Some (s, None)"
proof -
  have "d_SrcIP (kuiniu_Decode d) = ip4_or_nil (e_ParseIP env (ls ! i))" "ls ! i \<in> set ls"
    using assms(1) by (auto simp: carries_def conf_pairs_def)
  then have "e_IPString env (d_SrcIP (kuiniu_Decode d)) \<in> set (kv_localGPUSet s)" using assms(2,3) by (simp add: printed_def)
  then show ?thesis by (simp add: kuiniu_server_handlePacket_def Let_def)
qed

lemma other_probe_echoed:
  assumes "carries (conf_pairs env rs ls) (i, sp, dp, d)" "\<forall>a \<in> set rs. printed env a" "set ls \<inter> set rs = {}"
    and "kuiniu_inv s" "kc_Span (kv_conf s) \<noteq> 0" "kv_localGPUSet s = ls"
  shows "\<exists>s' e. kuiniu_server_handlePacket env g (Some d) s = Some (s', Some e) \<and> ep_payload e = d \<and>
     ep_remoteIP e = ip4_or_nil (e_ParseIP env (rs ! i)) \<and> ep_remotePort e = sp \<and> ep_localPort e = dp"
proof -
  have d: "kuiniu_IsValid d" "d_SrcIP (kuiniu_Decode d) = ip4_or_nil (e_ParseIP env (rs ! i))" "rs ! i \<in> set rs"
      "d_SrcPort (kuiniu_Decode d) = sp" "d_DstPort (kuiniu_Decode d) = dp"
    using assms(1) by (auto simp: carries_def conf_pairs_def)
  have "rs ! i \<notin> set ls" using assms(3) d(3) by auto
  then have "foreign_probe env s d" using d(1-3) assms(2,6) by (simp add: foreign_probe_def printed_def)
  then show ?thesis using kuiniu_server_step [OF assms(4,5), of env g d] d(2,4,5) by (auto simp: kuiniu_echo_def)
qed

lemma other_probe_ignored:
  assumes "carries (conf_pairs env rs ls) (i, sp, dp, d)" "\<forall>a \<in> set ls \<union> set rs. printed env a" "set ls \<inter> set rs = {}"
    and "map gpu_pair (kl_peers c) = conf_pairs env ls rs"
  shows "kuiniu_handlePacket now since (Some d) c = Some c"
proof (rule kuiniu_inert_probe)
  have str: "e_IPString env (ip4_or_nil (e_ParseIP env a)) = a" "is_ip4 (e_ParseIP env a)" if "a \<in> set ls \<union> set rs" for a
    using assms(2) that by (auto simp: printed_def valid_is_ip4)
  have d: "d_DstIP (kuiniu_Decode d) = ip4_or_nil (e_ParseIP env (ls ! i))" "ls ! i \<in> set ls"
    using assms(1) by (auto simp: carries_def conf_pairs_def)
  show "length (d_DstIP (kuiniu_Decode d)) = 4" using str(2) [of "ls ! i"] d ip4_or_nil_cases by (metis UnI1)
  show "\<forall>q \<in> set (kl_peers c). is_ip4 (gp_remoteGPUIP q) \<and> ip4_or_nil (gp_remoteGPUIP q) \<noteq> d_DstIP (kuiniu_Decode d)"
  proof
    fix q assume "q \<in> set (kl_peers c)"
    then have "gpu_pair q \<in> set (conf_pairs env ls rs)" using assms(4) by (metis image_eqI set_map)
    then have "gp_remoteGPUIP q \<in> set (map (e_ParseIP env) rs)" by (auto simp: gpu_pair_def conf_pairs_def dest: set_zip_rightD)
    then obtain a where a: "a \<in> set rs" "gp_remoteGPUIP q = e_ParseIP env a" by auto
    then have "a \<noteq> ls ! i" using assms(3) d(2) by auto
    then show "is_ip4 (gp_remoteGPUIP q) \<and> ip4_or_nil (gp_remoteGPUIP q) \<noteq> d_DstIP (kuiniu_Decode d)"
      using str [of a] str [of "ls ! i"] a d by auto
  qed
qed

text \<open>
  C4. Client and server share a host. In the role \<open>both\<close> the raw sockets of the client and of the
  server see the same packets, and the default port ranges overlap. With the addresses written as they
  are printed and no address on both sides, the two do not disturb each other at any time: whatever
  the server has handled so far, it ignores every probe of its own host and hence every echo of one, and
  it answers every probe of the mirrored configuration on the other host, with the ports swapped and
  the address it came from, while the client ignores such a probe.
\<close>

theorem both_roles_keep_apart:
  assumes conf: "length (kc_RemoteGPUAddrs conf) = length (kc_LocalGPUAddrs conf)" "kc_LocalGPUAddrs conf \<noteq> []" "kc_Span conf \<noteq> 0"
    and printed: "\<forall>a \<in> set (kc_LocalGPUAddrs conf) \<union> set (kc_RemoteGPUAddrs conf). printed env a"
    and apart: "set (kc_LocalGPUAddrs conf) \<inter> set (kc_RemoteGPUAddrs conf) = {}"
    and server: "kuiniu_New conf (NewProcessor spn delay) = Some s0" "kuiniu_readLoop env pkts s0 = Some (s, es)"
    and own: "kuiniu_NewClient env seqs conf proc = Some c0" "kuiniu_serveWrite evs (kuiniu_start c0) = Some (st, r)"
      "\<forall>(i, io) \<in> set evs. i < length (kc_LocalGPUAddrs conf) \<and> in_i64 (ki_ts io)"
    and mirror: "kuiniu_NewClient env seqs' (conf\<lparr>kc_LocalGPUAddrs := kc_RemoteGPUAddrs conf, kc_RemoteGPUAddrs := kc_LocalGPUAddrs conf\<rparr>)
        proc' = Some m0" "kuiniu_serveWrite evs' (kuiniu_start m0) = Some (st', r')"
      "\<forall>(i, io) \<in> set evs'. i < length (kc_LocalGPUAddrs conf) \<and> in_i64 (ki_ts io)"
  shows "(\<forall>(i, sp, dp, d) \<in> set (ks_wire st). kuiniu_server_handlePacket env g (Some d) s = Some (s, None)) \<and>
    (\<forall>(i, sp, dp, d) \<in> set (ks_wire st').
       kuiniu_handlePacket now since (Some d) (ks_client st) = Some (ks_client st) \<and>
       (\<exists>s' e. kuiniu_server_handlePacket env g (Some d) s = Some (s', Some e) \<and> ep_payload e = d \<and>
          ep_remoteIP e = ip4_or_nil (e_ParseIP env (kc_RemoteGPUAddrs conf ! i)) \<and> ep_remotePort e = sp \<and> ep_localPort e = dp))"
proof -
  let ?L = "kc_LocalGPUAddrs conf" and ?R = "kc_RemoteGPUAddrs conf"
  have ips: "\<forall>a \<in> set ?L \<union> set ?R. valid_ip4 env a" "\<forall>a \<in> set ?R \<union> set ?L. valid_ip4 env a"
    using printed by (simp_all add: printed_def Un_commute)
  have pl: "\<forall>a \<in> set ?L. printed env a" "\<forall>a \<in> set ?R. printed env a" using printed by simp_all
  note new = kuiniu_New_inv [OF server(1) conf(2)]
  have s0: "kc_Span (kv_conf s0) \<noteq> 0" using conf(3) new(2) by (simp add: kuiniu_msgLen_def)
  then have s: "kuiniu_inv s" "kc_Span (kv_conf s) \<noteq> 0" "kv_localGPUSet s = ?L"
    using kuiniu_readLoop_total [OF new(1) s0, of env pkts] server(2) new(3) by simp_all
  have len: "length (conf_pairs env ?L ?R) = length ?L" "length (conf_pairs env ?R ?L) = length ?L"
    using conf(1) by (simp_all add: conf_pairs_def)
  have "wire_inv (conf_pairs env ?L ?R) st"
    using kuiniu_serveWrite_wire [OF kuiniu_NewClient_wire [OF own(1) conf(1)] conf_pairs_ip4 [OF ips(1)] _ own(2)] own(3)
    unfolding len by simp
  then have wire: "map gpu_pair (kl_peers (ks_client st)) = conf_pairs env ?L ?R" "w \<in> set (ks_wire st) \<Longrightarrow> carries (conf_pairs env ?L ?R) w" for w
    by (simp_all add: wire_inv_def)
  have "wire_inv (conf_pairs env ?R ?L) (kuiniu_start m0)" using kuiniu_NewClient_wire [OF mirror(1)] conf(1) by simp
  then have "wire_inv (conf_pairs env ?R ?L) st'"
    using kuiniu_serveWrite_wire [OF _ conf_pairs_ip4 [OF ips(2)] _ mirror(2)] mirror(3) unfolding len by simp
  then have wire': "w \<in> set (ks_wire st') \<Longrightarrow> carries (conf_pairs env ?R ?L) w" for w by (simp add: wire_inv_def)
  show ?thesis
    using own_probe_ignored [OF wire(2) pl(1) s(3)] other_probe_ignored [OF wire' printed apart wire(1)]
      other_probe_echoed [OF wire' pl(2) apart s] by blast
qed

text \<open>A turn of the send loop that goes through leaves one probe on the wire.\<close>

lemma kuiniu_send_ok:
  assumes "kc_Span (kl_conf (ks_client st)) \<noteq> 0" "kc_Count (kl_conf (ks_client st)) \<le> 0" "kc_SendDuration (kl_conf (ks_client st)) \<le> 0"
    and "ki_send_ok io" "gp_stat (kl_peers (ks_client st) ! i) < length (p_stats (kl_proc (ks_client st)))"
    and "bs_span (us_bkts (p_stats (kl_proc (ks_client st)) ! gp_stat (kl_peers (ks_client st) ! i))) \<noteq> 0"
  shows "\<exists>st' w. kuiniu_send io i st = Some (st', Continue) \<and> ks_wire st' = ks_wire st @ [w]"
proof -
  let ?p = "kl_peers (ks_client st) ! i"
  have "gp_stat (kuiniu_advance ?p) = gp_stat ?p" by (simp add: kuiniu_advance_def)
  moreover obtain s' where "Stat_Put (fst (kuiniu_next_ports ?p)) (snd (kuiniu_next_ports ?p)) (gp_seq (kuiniu_advance ?p)) (ki_ts io)
      (p_stats (kl_proc (ks_client st)) ! gp_stat ?p) = Some s'"
    using Stat_Put_total [OF assms(6)] by blast
  ultimately have "\<exists>proc. call_stat (Stat_Put (fst (kuiniu_next_ports ?p)) (snd (kuiniu_next_ports ?p))
      (gp_seq (kuiniu_advance ?p)) (ki_ts io)) (gp_stat (kuiniu_advance ?p)) (kl_proc (ks_client st)) = Some proc"
    using assms(5) by (simp add: call_stat_def)
  then show ?thesis using assms(1-4) by (auto simp: kuiniu_send_def Let_def)
qed

definition demo_send_io :: kuiniu_io where
  "demo_send_io = \<lparr>ki_ts = 15, ki_since = 0, ki_send_ok = True\<rparr>"

lemma demo_gpu_send:
  assumes "conf = demo_gpu_conf\<lparr>kc_LocalGPUAddrs := [l], kc_RemoteGPUAddrs := [r]\<rparr>"
  shows "\<exists>c st' w. kuiniu_NewClient demo_gpu_env (\<lambda>_. 7) conf (NewProcessor 10 30) = Some c \<and>
    kuiniu_serveWrite [(0, demo_send_io)] (kuiniu_start c) = Some (st', Continue) \<and> ks_wire st' = [w]"
proof -
  obtain c where c: "kuiniu_NewClient demo_gpu_env (\<lambda>_. 7) conf (NewProcessor 10 30) = Some c"
    by (simp add: kuiniu_NewClient_def kuiniu_msgLen_def header_lengths NewSalts_def Let_def GPUPairCount_def assms)
  then have f: "kc_Span (kl_conf c) = 10" "kc_Count (kl_conf c) = 0" "kc_SendDuration (kl_conf c) = 0" "gp_stat (kl_peers c ! 0) = 0"
      "length (p_stats (kl_proc c)) = 1" "bs_span (us_bkts (p_stats (kl_proc c) ! 0)) = 10"
    by (auto simp: kuiniu_NewClient_def kuiniu_msgLen_def header_lengths NewSalts_def Let_def assms
        GPUPairCount_def new_gpuPeer_def demo_gpu_conf_def demo_kuiniu_config_def AddStat_def NewProcessor_def NewStat_def newBuckets_def)
  have "ki_send_ok demo_send_io" by (simp add: demo_send_io_def)
  then obtain st' w where "kuiniu_send demo_send_io 0 (kuiniu_start c) = Some (st', Continue)" "ks_wire st' = [w]"
    using kuiniu_send_ok [of "kuiniu_start c" demo_send_io 0] f by (auto simp: kuiniu_start_def)
  then have "kuiniu_serveWrite [(0, demo_send_io)] (kuiniu_start c) = Some (st', Continue) \<and> ks_wire st' = [w]" by simp
  then show ?thesis using c by blast
qed

theorem both_roles_keep_apart_witness:
  "\<exists>s (st :: kuiniu_sending) (st' :: kuiniu_sending) w w'. ks_wire st = [w] \<and> ks_wire st' = [w'] \<and>
    kuiniu_server_handlePacket demo_gpu_env 0 (Some (snd (snd (snd w)))) s = Some (s, None) \<and>
    kuiniu_handlePacket 20 0 (Some (snd (snd (snd w')))) (ks_client st) = Some (ks_client st) \<and>
    (\<exists>s' e. kuiniu_server_handlePacket demo_gpu_env 0 (Some (snd (snd (snd w')))) s = Some (s', Some e))"
proof -
  let ?conf = demo_gpu_conf
  have sw: "?conf\<lparr>kc_LocalGPUAddrs := kc_RemoteGPUAddrs ?conf, kc_RemoteGPUAddrs := kc_LocalGPUAddrs ?conf\<rparr> =
      demo_gpu_conf\<lparr>kc_LocalGPUAddrs := [''10.0.0.1''], kc_RemoteGPUAddrs := [''10.0.0.2'']\<rparr>"
    by (simp add: demo_gpu_conf_def)
  have R: "kc_RemoteGPUAddrs ?conf = [''10.0.0.1'']" by (simp add: demo_gpu_conf_def)
  obtain c st w where c: "kuiniu_NewClient demo_gpu_env (\<lambda>_. 7) ?conf (NewProcessor 10 30) = Some c"
      "kuiniu_serveWrite [(0, demo_send_io)] (kuiniu_start c) = Some (st, Continue)" "ks_wire st = [w]"
    using demo_gpu_send [of ?conf "''10.0.0.1''" "''10.0.0.2''"] unfolding demo_gpu_conf_def by fastforce
  obtain m st' w' where m: "kuiniu_NewClient demo_gpu_env (\<lambda>_. 7)
      (?conf\<lparr>kc_LocalGPUAddrs := kc_RemoteGPUAddrs ?conf, kc_RemoteGPUAddrs := kc_LocalGPUAddrs ?conf\<rparr>) (NewProcessor 10 30) = Some m"
      "kuiniu_serveWrite [(0, demo_send_io)] (kuiniu_start m) = Some (st', Continue)" "ks_wire st' = [w']"
    unfolding sw using demo_gpu_send [OF refl, of "''10.0.0.2''" "''10.0.0.1''"] by blast
  obtain s where s: "kuiniu_New ?conf (NewProcessor 10 30) = Some s" using demo_gpu_server by blast
  have run: "kuiniu_readLoop demo_gpu_env [] s = Some (s, [])" by simp
  have p: "\<forall>a \<in> set (kc_LocalGPUAddrs ?conf) \<union> set (kc_RemoteGPUAddrs ?conf). printed demo_gpu_env a"
    unfolding R by (simp add: printed_def valid_ip4_def demo_gpu_env_def To4_def ip4_or_nil_def)
  have "kuiniu_server_handlePacket demo_gpu_env 0 (Some (snd (snd (snd w)))) s = Some (s, None) \<and>
    kuiniu_handlePacket 20 0 (Some (snd (snd (snd w')))) (ks_client st) = Some (ks_client st) \<and>
    (\<exists>s' e. kuiniu_server_handlePacket demo_gpu_env 0 (Some (snd (snd (snd w')))) s = Some (s', Some e))"
    using both_roles_keep_apart [OF _ _ _ p _ s run c(1,2) _ m(1,2), of 0 20 0] c(3) m(3)
    by (auto simp: R demo_send_io_def in_i64_def split: prod.splits)
  then show ?thesis using c(3) m(3) by blast
qed

text \<open>An address in the form \<open>::ffff:a.b.c.d\<close> passes the validation, but is not what the server prints:
  the server then answers the probes of its own host, to itself.\<close>

lemma unprinted_address_echoed:
  assumes "carries (conf_pairs env ls rs) (i, sp, dp, d)" "kuiniu_inv s" "kc_Span (kv_conf s) \<noteq> 0" "kv_localGPUSet s = ls"
    and "e_IPString env (ip4_or_nil (e_ParseIP env (ls ! i))) \<notin> set ls"
  shows "\<exists>s' e. kuiniu_server_handlePacket env g (Some d) s = Some (s', Some e) \<and>
    ep_remoteIP e = ip4_or_nil (e_ParseIP env (ls ! i)) \<and> ep_payload e = d"
proof -
  have "kuiniu_IsValid d" "d_SrcIP (kuiniu_Decode d) = ip4_or_nil (e_ParseIP env (ls ! i))"
    using assms(1) by (auto simp: carries_def conf_pairs_def)
  moreover from this have "foreign_probe env s d" using assms(4,5) by (simp add: foreign_probe_def)
  ultimately show ?thesis using kuiniu_server_step [OF assms(2,3), of env g d] by (auto simp: kuiniu_echo_def)
qed

end
