(* ===== verification/Evr_Agent.thy ===== *)
theory Evr_Agent
  imports Sonar_Server Config_Evr
begin

text \<open>
  The VXLAN probe: \<open>evr/agent/agent.go\<close> and the packet construction of \<open>evr/codec/packet.go\<close>. The packet
  builder of the library is a parameter that turns a stack of layers into bytes or fails; the outcome of
  the socket calls and the clock are inputs of each step. Peers and statistics are referred to by their
  positions in the agent's and the processor's lists.
\<close>

section \<open>Packets\<close>

text \<open>The layers the code asks the builder for; the type of service of an IP layer is set only when it
  is not zero.\<close>

datatype layer =
    VXLAN u32
  | Ethernet string string
  | IPv4 string string byte "byte option"
  | UDP u16 u16
  | Raw "byte list"

type_synonym stack_builder = "layer list \<Rightarrow> byte list option"

definition EncodeVxlanInner ::
    "net_env \<Rightarrow> stack_builder \<Rightarrow> u32 \<Rightarrow> string \<Rightarrow> string \<Rightarrow> IP option \<Rightarrow> IP option \<Rightarrow> u16 \<Rightarrow> u16 \<Rightarrow> byte \<Rightarrow> int \<Rightarrow> byte list \<Rightarrow> byte list option" where
  "EncodeVxlanInner env build vni srcMAC dstMAC innerSrcIP innerDstIP innerSrcPort innerDstPort tos ttl payload =
     build [VXLAN vni, Ethernet srcMAC dstMAC,
            IPv4 (ip_text env innerSrcIP) (ip_text env innerDstIP) (word_of_int ttl) (if tos \<noteq> 0 then Some tos else None),
            UDP innerSrcPort innerDstPort, Raw payload]"

definition EncodeOuterUDP ::
    "net_env \<Rightarrow> stack_builder \<Rightarrow> IP option \<Rightarrow> IP option \<Rightarrow> u16 \<Rightarrow> u16 \<Rightarrow> byte \<Rightarrow> int \<Rightarrow> byte list \<Rightarrow> byte list option" where
  "EncodeOuterUDP env build srcIP dstIP srcPort dstPort tos ttl payload =
     build [IPv4 (ip_text env srcIP) (ip_text env dstIP) (word_of_int ttl) (if tos \<noteq> 0 then Some tos else None),
            UDP srcPort dstPort, Raw payload]"


section \<open>State\<close>

record evr_peer =
  ev_target :: Target
  ev_mockSrcIP :: "IP option"
  ev_srcIP :: "IP option"
  ev_dstIP :: "IP option"
  ev_srcPort :: u32
  ev_dstPort :: u16
  ev_innerSrcIP :: "IP option"
  ev_innerDstIP :: "IP option"
  ev_seq :: u64
  ev_msgLen :: int
  ev_stat :: nat

record Agent =
  ag_conf :: evr_Config
  ag_proc :: Processor
  ag_peers :: "evr_peer list"
  ag_peerByEVRSrc :: "(string, nat) gomap"
  ag_salts :: Salts

definition parse4 :: "net_env \<Rightarrow> string \<Rightarrow> IP option" where
  "parse4 env addr = (case e_ParseIP env addr of None \<Rightarrow> None | Some ip \<Rightarrow> To4 ip)"

definition new_evr_peer :: "net_env \<Rightarrow> evr_Config \<Rightarrow> u64 \<Rightarrow> nat \<Rightarrow> Target \<Rightarrow> evr_peer" where
  "new_evr_peer env conf seq st t =
     (let mockSrc = (if t_MockSrcAddr t = [] then ec_ClientAddr conf else t_MockSrcAddr t)
      in \<lparr>ev_target = t, ev_mockSrcIP = parse4 env mockSrc, ev_srcIP = parse4 env (ec_ClientAddr conf),
          ev_dstIP = parse4 env (t_VTEPAddr t), ev_srcPort = word_of_int (pr_Min (ec_ClientPortRange conf)),
          ev_dstPort = ec_DstPort conf, ev_innerSrcIP = parse4 env (t_EVRSrcAddr t),
          ev_innerDstIP = parse4 env (ec_ClientAddr conf), ev_seq = seq, ev_msgLen = ec_MsgLen conf, ev_stat = st\<rparr>)"

text \<open>\<open>seqs\<close> gives the random first sequence number of each peer.\<close>

definition init_peer :: "net_env \<Rightarrow> (nat \<Rightarrow> u64) \<Rightarrow> Target \<Rightarrow> Agent \<Rightarrow> Agent" where
  "init_peer env seqs t a =
     (let conf = ag_conf a;
          s = NewStat (ec_ClientAddr conf) (t_EVRSrcAddr t) (ec_ClientPortRange conf) (ec_ClientPortRange conf)
                (ec_RateInSpan conf) (ec_Span conf) (ec_Delay conf) True;
          p = new_evr_peer env conf (seqs (length (ag_peers a))) (length (p_stats (ag_proc a))) t
      in a\<lparr>ag_proc := AddStat s (ag_proc a), ag_peers := ag_peers a @ [p],
           ag_peerByEVRSrc := AList.update (t_EVRSrcAddr t) (length (ag_peers a)) (ag_peerByEVRSrc a)\<rparr>)"

definition evr_initPeers :: "net_env \<Rightarrow> (nat \<Rightarrow> u64) \<Rightarrow> Agent \<Rightarrow> Agent" where
  "evr_initPeers env seqs a = fold (init_peer env seqs) (ec_Targets (ag_conf a)) a"

definition evr_New :: "net_env \<Rightarrow> (nat \<Rightarrow> u64) \<Rightarrow> evr_Config \<Rightarrow> Processor \<Rightarrow> Agent option" where
  "evr_New env seqs conf0 proc =
     (let conf = (if ec_MsgLen conf0 < int evr_MsgHeaderLen then conf0\<lparr>ec_MsgLen := int evr_MsgHeaderLen\<rparr> else conf0)
      in map_option (\<lambda>salts. evr_initPeers env seqs
            \<lparr>ag_conf = conf, ag_proc = proc, ag_peers = [], ag_peerByEVRSrc = [], ag_salts = salts\<rparr>)
          (NewSalts (ec_MsgLen conf - int evr_MsgHeaderLen)))"


section \<open>Sending\<close>

definition evr_next_port :: "evr_Config \<Rightarrow> evr_peer \<Rightarrow> u16" where
  "evr_next_port conf p = GetNextPort (ucast (ev_srcPort p)) (ec_ClientPortRange conf)"

definition evr_advance :: "evr_Config \<Rightarrow> evr_peer \<Rightarrow> evr_peer" where
  "evr_advance conf p = p\<lparr>ev_seq := ev_seq p + 1, ev_srcPort := ucast (evr_next_port conf p)\<rparr>"

definition evr_payload :: "Agent \<Rightarrow> evr_peer \<Rightarrow> IP \<Rightarrow> int \<Rightarrow> byte list" where
  "evr_payload a p innerSrc ts =
     EncodeWithSrcIP (ev_seq p) (Get (ag_salts a) (ev_seq p)) ts (ev_msgLen p) (be_word (take 4 innerSrc))"

text \<open>The two stacks of a probe; \<open>newPort\<close> is the source port of both.\<close>

definition evr_packet :: "net_env \<Rightarrow> stack_builder \<Rightarrow> evr_Config \<Rightarrow> evr_peer \<Rightarrow> u16 \<Rightarrow> byte list \<Rightarrow> byte list option" where
  "evr_packet env build conf p newPort payload =
     (case EncodeVxlanInner env build (ec_VNI conf) (ec_SrcMAC conf) (ec_DstMAC conf) (ev_innerDstIP p) (ev_innerDstIP p)
             newPort (ec_InnerDstPort conf) (word_of_int (ec_TOS conf)) (ec_TTL conf) payload of
        None \<Rightarrow> None
      | Some inner \<Rightarrow>
          EncodeOuterUDP env build (ev_mockSrcIP p) (ev_dstIP p) newPort (ev_dstPort p) (word_of_int (ec_TOS conf)) (ec_TTL conf) inner)"

record evr_io =
  ei_ts :: int
  ei_deadline_ok :: bool
  ei_write_ok :: bool

text \<open>One turn of the inner loop of \<open>serveWrite\<close>, for the peer at position \<open>i\<close>. A nil inner source address
  panics (\<open>None\<close>). The wire lists the packets written, each with its peer.\<close>

definition evr_send ::
    "net_env \<Rightarrow> stack_builder \<Rightarrow> evr_io \<Rightarrow> nat \<Rightarrow> Agent \<times> (nat \<times> byte list) list \<Rightarrow> (Agent \<times> (nat \<times> byte list) list) option" where
  "evr_send env build io i st =
     (let a = fst st; conf = ag_conf a; p0 = ag_peers a ! i; p = evr_advance conf p0; newPort = evr_next_port conf p0;
          a = a\<lparr>ag_peers := (ag_peers a)[i := p]\<rparr>
      in case ev_innerSrcIP p of None \<Rightarrow> None | Some innerSrc \<Rightarrow>
         (case evr_packet env build conf p newPort (evr_payload a p innerSrc (ei_ts io)) of
            None \<Rightarrow> Some (a, snd st)
          | Some data \<Rightarrow>
              (case call_stat (Stat_Put newPort (ev_dstPort p) (ev_seq p) (ei_ts io)) (ev_stat p) (ag_proc a) of
                 None \<Rightarrow> None
               | Some proc \<Rightarrow>
                   if ei_deadline_ok io \<and> ei_write_ok io then Some (a\<lparr>ag_proc := proc\<rparr>, snd st @ [(i, data)])
                   else map_option (\<lambda>proc'. (a\<lparr>ag_proc := proc'\<rparr>, snd st))
                          (call_stat (Stat_Delete (ev_seq p) (ei_ts io)) (ev_stat p) proc))))"

text \<open>A run of the send loop: the rounds visit the peers in order, each with its inputs.\<close>

fun evr_round ::
    "net_env \<Rightarrow> stack_builder \<Rightarrow> evr_io list \<Rightarrow> nat \<Rightarrow> Agent \<times> (nat \<times> byte list) list \<Rightarrow> (Agent \<times> (nat \<times> byte list) list) option" where
  "evr_round env build [] i st = Some st"
| "evr_round env build (io # ios) i st =
     (case evr_send env build io i st of None \<Rightarrow> None | Some st' \<Rightarrow> evr_round env build ios (Suc i) st')"

fun evr_serveWrite ::
    "net_env \<Rightarrow> stack_builder \<Rightarrow> evr_io list list \<Rightarrow> Agent \<times> (nat \<times> byte list) list \<Rightarrow> (Agent \<times> (nat \<times> byte list) list) option" where
  "evr_serveWrite env build [] st = Some st"
| "evr_serveWrite env build (ios # rounds) st =
     (case evr_round env build ios 0 st of None \<Rightarrow> None | Some st' \<Rightarrow> evr_serveWrite env build rounds st')"


section \<open>Receiving\<close>

definition evr_handlePacket :: "net_env \<Rightarrow> int \<Rightarrow> byte list \<Rightarrow> Agent \<Rightarrow> Agent option" where
  "evr_handlePacket env now pkt a =
     (if length pkt < 8 then Some a
      else
        let payload = drop 8 pkt
        in if \<not> evr_IsValid payload then Some a
           else case DecodeWithSrcIP payload of (seq, ts, srcIP) \<Rightarrow>
             (case map_of (ag_peerByEVRSrc a) (e_IPString env srcIP) of
                None \<Rightarrow> Some a
              | Some i \<Rightarrow>
                  let p = ag_peers a ! i;
                      flip = (int (length payload) = ev_msgLen p \<and> Get (ag_salts a) seq \<noteq> drop evr_MsgHeaderLen payload)
                  in map_option (\<lambda>proc. a\<lparr>ag_proc := proc\<rparr>)
                       (call_stat (Stat_Received seq ts (i64 (now - ts)) flip) (ev_stat p) (ag_proc a))))"

text \<open>The read loop over the outcomes of its reads, \<open>None\<close> for an error; it stops at the twentieth error in a
  row. The second component tells whether it is still running.\<close>

fun evr_readLoop :: "net_env \<Rightarrow> nat \<Rightarrow> (int \<times> byte list) option list \<Rightarrow> Agent \<Rightarrow> (Agent \<times> bool) option" where
  "evr_readLoop env errCount [] a = Some (a, True)"
| "evr_readLoop env errCount (None # reads) a =
     (if 20 \<le> Suc errCount then Some (a, False) else evr_readLoop env (Suc errCount) reads a)"
| "evr_readLoop env errCount (Some (now, pkt) # reads) a =
     (case evr_handlePacket env now pkt a of None \<Rightarrow> None | Some a' \<Rightarrow> evr_readLoop env 0 reads a')"

section \<open>The agent never fails\<close>

definition evr_inv :: "Agent \<Rightarrow> bool" where
  "evr_inv a \<longleftrightarrow> valid_range (ec_ClientPortRange (ag_conf a)) \<and> int evr_MsgHeaderLen \<le> ec_MsgLen (ag_conf a) \<and>
     NewSalts (ec_MsgLen (ag_conf a) - int evr_MsgHeaderLen) = Some (ag_salts a) \<and>
     (\<forall>p \<in> set (ag_peers a). ev_stat p < length (p_stats (ag_proc a)) \<and> ev_innerSrcIP p \<noteq> None \<and>
        in_range (ucast (ev_srcPort p)) (ec_ClientPortRange (ag_conf a)) \<and> ev_msgLen p = ec_MsgLen (ag_conf a)) \<and>
     (\<forall>s \<in> set (p_stats (ag_proc a)). well_formed (us_bkts s)) \<and>
     (\<forall>(k, i) \<in> set (ag_peerByEVRSrc a). i < length (ag_peers a))"

lemma ucast_port: "ucast (ucast w :: u32) = w" for w :: u16
  by (simp add: ucast_up_ucast_id is_up)

lemma first_port_in_range:
  "valid_range pr \<Longrightarrow> in_range (ucast (word_of_int (pr_Min pr) :: u32)) pr"
  by (simp add: in_range_def valid_range_def unsigned_ucast_eq unsigned_word_eqI uint_word_of_int take_bit_eq_mod)

lemma init_peer_inv:
  assumes "evr_inv a" "valid_ip4 env (t_EVRSrcAddr t)" "0 < ec_Span (ag_conf a)"
  shows "evr_inv (init_peer env seqs t a) \<and> ag_conf (init_peer env seqs t a) = ag_conf a"
proof -
  have "parse4 env (t_EVRSrcAddr t) \<noteq> None" using assms(2) by (auto simp: valid_ip4_def parse4_def split: option.splits)
  moreover have "well_formed (us_bkts (NewStat c e r r' n (ec_Span (ag_conf a)) d b))" for c e r r' n d b
    using assms(3) by (simp add: NewStat_def well_formed_def buckets_inv_new) (simp add: newBuckets_def)
  moreover have "\<forall>(k, i) \<in> set (AList.update (t_EVRSrcAddr t) (length (ag_peers a)) (ag_peerByEVRSrc a)). i < Suc (length (ag_peers a))"
    using assms(1) set_update_subset [of "t_EVRSrcAddr t" "length (ag_peers a)" "ag_peerByEVRSrc a"]
    by (auto simp: evr_inv_def dest!: subsetD)
  ultimately show ?thesis
    using assms(1) first_port_in_range by (auto simp: evr_inv_def init_peer_def Let_def AddStat_def new_evr_peer_def)
qed

lemma evr_New_inv:
  assumes "evr_runnable env conf" "evr_New env seqs conf (NewProcessor spn delay) = Some a"
  shows "evr_inv a" "ec_Targets (ag_conf a) = ec_Targets conf"
proof -
  have keep: "\<lbrakk>evr_inv b; \<forall>t \<in> set ts. valid_ip4 env (t_EVRSrcAddr t); 0 < ec_Span (ag_conf b)\<rbrakk> \<Longrightarrow>
      evr_inv (fold (init_peer env seqs) ts b) \<and> ag_conf (fold (init_peer env seqs) ts b) = ag_conf b" for ts b
    by (induction ts arbitrary: b) (simp_all add: init_peer_inv)
  obtain b where a: "a = fold (init_peer env seqs) (ec_Targets conf) b" and b: "ag_peers b = []" "ag_peerByEVRSrc b = []"
      "p_stats (ag_proc b) = []" "ec_Targets (ag_conf b) = ec_Targets conf" "ec_Span (ag_conf b) = ec_Span conf"
      "ec_ClientPortRange (ag_conf b) = ec_ClientPortRange conf" "int evr_MsgHeaderLen \<le> ec_MsgLen (ag_conf b)"
      "NewSalts (ec_MsgLen (ag_conf b) - int evr_MsgHeaderLen) = Some (ag_salts b)"
    using assms(2) by (auto simp: evr_New_def Let_def evr_initPeers_def NewProcessor_def split: if_splits)
  have "evr_inv b" using b assms(1) by (simp add: evr_inv_def evr_runnable_def)
  then have "evr_inv a \<and> ag_conf a = ag_conf b"
    using keep [of b "ec_Targets conf"] a b assms(1) by (auto simp: evr_runnable_def)
  then show "evr_inv a" "ec_Targets (ag_conf a) = ec_Targets conf" using b by simp_all
qed

text \<open>A recording call keeps the invariant.\<close>

lemma evr_record:
  assumes "evr_inv a" "j < length (p_stats (ag_proc a))"
    and f: "\<And>bs. well_formed bs \<Longrightarrow> \<exists>bs'. f bs = Some bs' \<and> well_formed bs'"
  shows "\<exists>proc'. call_stat (lift_bkts f) j (ag_proc a) = Some proc' \<and> evr_inv (a\<lparr>ag_proc := proc'\<rparr>) \<and>
    length (p_stats proc') = length (p_stats (ag_proc a))"
proof -
  let ?st = "p_stats (ag_proc a) ! j"
  have "well_formed (us_bkts ?st)" using assms(1,2) by (simp add: evr_inv_def)
  then obtain bs' where bs': "f (us_bkts ?st) = Some bs'" "well_formed bs'" using f by blast
  have "evr_inv (a\<lparr>ag_proc := set_stat j (?st\<lparr>us_bkts := bs'\<rparr>) (ag_proc a)\<rparr>)"
    using assms(1) bs'(2) by (auto simp: evr_inv_def set_stat_def dest!: set_update_subset_insert [THEN subsetD])
  then show ?thesis using bs'(1) assms(2) by (simp add: call_stat_def lift_bkts_def set_stat_def)
qed

lemma put_wf: "0 \<le> ts \<Longrightarrow> in_i64 ts \<Longrightarrow> well_formed bs \<Longrightarrow> \<exists>bs'. buckets_put cp sp seq ts bs = Some bs' \<and> well_formed bs'"
  using bk.put_law by blast

lemma delete_wf: "0 \<le> ts \<Longrightarrow> in_i64 ts \<Longrightarrow> well_formed bs \<Longrightarrow> \<exists>bs'. buckets_delete seq ts bs = Some bs' \<and> well_formed bs'"
  using bk.delete_law by blast

lemma evr_advance_inv:
  assumes "evr_inv a" "i < length (ag_peers a)"
  shows "evr_inv (a\<lparr>ag_peers := (ag_peers a)[i := evr_advance (ag_conf a) (ag_peers a ! i)]\<rparr>)"
proof -
  let ?r = "ec_ClientPortRange (ag_conf a)" and ?p = "ag_peers a ! i"
  have "in_range (ucast (ev_srcPort ?p)) ?r" "valid_range ?r" using assms by (simp_all add: evr_inv_def)
  then have "in_range (evr_next_port (ag_conf a) ?p) ?r"
    using GetNextPort_total [of ?r "ucast (ev_srcPort ?p)"] by (simp add: evr_next_port_def valid_range_def)
  then show ?thesis using assms
    by (auto simp: evr_inv_def evr_advance_def ucast_port dest!: set_update_subset_insert [THEN subsetD])
qed

lemma evr_send_total:
  assumes inv: "evr_inv a" and i: "i < length (ag_peers a)" and ts: "0 \<le> ei_ts io" "in_i64 (ei_ts io)"
  shows "\<exists>a' w'. evr_send env build io i (a, w) = Some (a', w @ w') \<and> evr_inv a' \<and> ag_conf a' = ag_conf a \<and>
    length (ag_peers a') = length (ag_peers a)"
proof -
  let ?conf = "ag_conf a" and ?p0 = "ag_peers a ! i"
  let ?p = "evr_advance ?conf ?p0" and ?port = "evr_next_port ?conf ?p0"
  let ?a = "a\<lparr>ag_peers := (ag_peers a)[i := ?p]\<rparr>"
  note inv1 = evr_advance_inv [OF inv i]
  have p: "ev_innerSrcIP ?p \<noteq> None" "ev_stat ?p < length (p_stats (ag_proc ?a))"
    using inv i by (simp_all add: evr_inv_def evr_advance_def)
  obtain innerSrc where src: "ev_innerSrcIP ?p = Some innerSrc" using p(1) by blast
  obtain proc where proc: "call_stat (Stat_Put ?port (ev_dstPort ?p) (ev_seq ?p) (ei_ts io)) (ev_stat ?p) (ag_proc ?a) = Some proc"
      "evr_inv (?a\<lparr>ag_proc := proc\<rparr>)" "length (p_stats proc) = length (p_stats (ag_proc ?a))"
    using evr_record [OF inv1 p(2), of "buckets_put ?port (ev_dstPort ?p) (ev_seq ?p) (ei_ts io)"] put_wf [OF ts]
    unfolding Stat_Put_def by blast
  obtain proc' where proc': "call_stat (Stat_Delete (ev_seq ?p) (ei_ts io)) (ev_stat ?p) proc = Some proc'"
      "evr_inv (?a\<lparr>ag_proc := proc'\<rparr>)"
    using evr_record [OF proc(2), of "ev_stat ?p" "buckets_delete (ev_seq ?p) (ei_ts io)"] delete_wf [OF ts] p(2) proc(3)
    unfolding Stat_Delete_def by auto
  show ?thesis
    using inv1 src proc proc' by (simp add: evr_send_def Let_def split: option.split)
qed

definition evr_io_ok :: "evr_io \<Rightarrow> bool" where
  "evr_io_ok io \<longleftrightarrow> 0 \<le> ei_ts io \<and> in_i64 (ei_ts io)"

lemma evr_round_total:
  assumes "evr_inv a" "i + length ios \<le> length (ag_peers a)" "\<forall>io \<in> set ios. evr_io_ok io"
  shows "\<exists>a' w'. evr_round env build ios i (a, w) = Some (a', w @ w') \<and> evr_inv a' \<and> ag_conf a' = ag_conf a \<and>
    length (ag_peers a') = length (ag_peers a)"
  using assms
proof (induction ios arbitrary: a i w)
  case (Cons io ios)
  obtain a1 w1 where a1: "evr_send env build io i (a, w) = Some (a1, w @ w1)" "evr_inv a1" "ag_conf a1 = ag_conf a"
      "length (ag_peers a1) = length (ag_peers a)"
    using evr_send_total [OF Cons.prems(1), of i io env build w] Cons.prems(2,3) by (auto simp: evr_io_ok_def)
  obtain a2 w2 where "evr_round env build ios (Suc i) (a1, w @ w1) = Some (a2, (w @ w1) @ w2)" "evr_inv a2"
      "ag_conf a2 = ag_conf a1" "length (ag_peers a2) = length (ag_peers a1)"
    using Cons.IH [OF a1(2), of "Suc i" "w @ w1"] Cons.prems(2,3) a1(4) by auto
  then show ?case using a1 by auto
qed simp

text \<open>
  C18. With a validated configuration the sending agent never panics: whatever the builder and the socket
  do, every round over the peers completes, no packet already written is lost from the wire, and at the
  end the source port of every peer is still in the configured range and every statistics object is
  well-formed.
\<close>

theorem evr_agent_never_fails:
  assumes "evr_Validate env conf0 = Inr conf" "evr_New env seqs conf (NewProcessor spn delay) = Some a"
    and "\<forall>ios \<in> set rounds. length ios \<le> length (ec_Targets conf) \<and> (\<forall>io \<in> set ios. evr_io_ok io)"
  shows "\<exists>a' w'. evr_serveWrite env build rounds (a, w) = Some (a', w @ w') \<and>
    (\<forall>p \<in> set (ag_peers a'). in_range (ucast (ev_srcPort p)) (ec_ClientPortRange conf)) \<and>
    (\<forall>s \<in> set (p_stats (ag_proc a')). well_formed (us_bkts s))"
proof -
  have run: "\<lbrakk>evr_inv a; \<forall>ios \<in> set rounds. length ios \<le> length (ag_peers a) \<and> (\<forall>io \<in> set ios. evr_io_ok io)\<rbrakk> \<Longrightarrow>
     \<exists>a' w'. evr_serveWrite env build rounds (a, w) = Some (a', w @ w') \<and> evr_inv a' \<and> ag_conf a' = ag_conf a" for rounds a w
  proof (induction rounds arbitrary: a w)
    case (Cons ios rounds)
    obtain a1 w1 where a1: "evr_round env build ios 0 (a, w) = Some (a1, w @ w1)" "evr_inv a1" "ag_conf a1 = ag_conf a"
        "length (ag_peers a1) = length (ag_peers a)"
      using evr_round_total [OF Cons.prems(1), of 0 ios env build w] Cons.prems(2) by auto
    obtain a2 w2 where "evr_serveWrite env build rounds (a1, w @ w1) = Some (a2, (w @ w1) @ w2)" "evr_inv a2" "ag_conf a2 = ag_conf a1"
      using Cons.IH [OF a1(2), of "w @ w1"] Cons.prems(2) a1(4) by auto
    then show ?case using a1 by auto
  qed simp
  have "evr_runnable env conf" using assms(1) by (rule evr_Validate_runnable)
  note inv = evr_New_inv [OF this assms(2)]
  have "length (ag_peers (fold (init_peer env seqs) ts b)) = length (ag_peers b) + length ts" for ts b
    by (induction ts arbitrary: b) (simp_all add: init_peer_def Let_def)
  then have n: "length (ag_peers a) = length (ec_Targets conf)"
    using assms(2) by (auto simp: evr_New_def evr_initPeers_def Let_def)
  have range: "ag_conf (fold (init_peer env seqs) ts b) = ag_conf b" for ts b
    by (induction ts arbitrary: b) (simp_all add: init_peer_def Let_def)
  then have "ec_ClientPortRange (ag_conf a) = ec_ClientPortRange conf"
    using assms(2) by (auto simp: evr_New_def evr_initPeers_def Let_def)
  then show ?thesis using run [OF inv(1), of rounds w] assms(3) n by (auto simp: evr_inv_def)
qed

text \<open>A validated target and an agent for it; its messages are of 64 bytes.\<close>

definition demo_agent :: Agent where
  "demo_agent = the (evr_New demo_evr_env (\<lambda>_. 7) (case evr_Validate demo_evr_env demo_evr_config of Inl _ \<Rightarrow> demo_evr_config | Inr c \<Rightarrow> c)
     (NewProcessor 10 30))"

lemma demo_agent_new:
  "\<exists>conf. evr_Validate demo_evr_env demo_evr_config = Inr conf \<and> length (ec_Targets conf) = 1 \<and>
     evr_New demo_evr_env (\<lambda>_. 7) conf (NewProcessor 10 30) = Some demo_agent"
proof -
  have v: "\<exists>conf. evr_Validate demo_evr_env demo_evr_config = Inr conf \<and> length (ec_Targets conf) = 1"
    by (simp add: evr_Validate_def check_link_def link_defaults_def check_rates_def demo_evr_env_def
        demo_evr_config_def valid_ip4_def To4_def zero_range_def Let_def)
  then obtain conf where c: "evr_Validate demo_evr_env demo_evr_config = Inr conf" "length (ec_Targets conf) = 1" by blast
  have "\<exists>a. evr_New demo_evr_env (\<lambda>_. 7) conf (NewProcessor 10 30) = Some a"
    by (auto simp: evr_New_def Let_def NewSalts_def)
  then have "evr_New demo_evr_env (\<lambda>_. 7) conf (NewProcessor 10 30) = Some demo_agent"
    using c(1) by (auto simp: demo_agent_def)
  then show ?thesis using c by blast
qed

theorem evr_agent_never_fails_witness:
  "\<exists>a' w'. evr_serveWrite demo_evr_env (\<lambda>ls. Some [1]) [[\<lparr>ei_ts = 5, ei_deadline_ok = True, ei_write_ok = False\<rparr>],
      [\<lparr>ei_ts = 6, ei_deadline_ok = True, ei_write_ok = True\<rparr>]] (demo_agent, []) = Some (a', [] @ w') \<and>
    (\<forall>s \<in> set (p_stats (ag_proc a')). well_formed (us_bkts s))"
proof -
  obtain conf where c: "evr_Validate demo_evr_env demo_evr_config = Inr conf" "length (ec_Targets conf) = 1"
      "evr_New demo_evr_env (\<lambda>_. 7) conf (NewProcessor 10 30) = Some demo_agent"
    using demo_agent_new by blast
  show ?thesis
    using evr_agent_never_fails [OF c(1,3), of "[[\<lparr>ei_ts = 5, ei_deadline_ok = True, ei_write_ok = False\<rparr>],
      [\<lparr>ei_ts = 6, ei_deadline_ok = True, ei_write_ok = True\<rparr>]]" "\<lambda>ls. Some [1]" "[]"] c(2)
    by (fastforce simp: evr_io_ok_def in_i64_def)
qed


section \<open>Replies\<close>

lemma evr_salt_length:
  assumes "evr_inv a"
  shows "salt_body (nat (ec_MsgLen (ag_conf a)) - evr_MsgHeaderLen) (Get (ag_salts a) seq) = Get (ag_salts a) seq"
proof -
  have "length (Get (ag_salts a) seq) = nat (ec_MsgLen (ag_conf a)) - evr_MsgHeaderLen"
    using assms by (auto simp: evr_inv_def nat_diff_distrib)
  then show ?thesis by (simp add: salt_body_full)
qed


lemma demo_agent_fields:
  "map_of (ag_peerByEVRSrc demo_agent) ''10.0.0.1'' = Some 0" "ev_stat (ag_peers demo_agent ! 0) = 0"
  "bs_span (us_bkts (p_stats (ag_proc demo_agent) ! 0)) = 100000000" "ec_MsgLen (ag_conf demo_agent) = 64"
  by (simp_all add: demo_agent_def evr_New_def evr_initPeers_def init_peer_def AddStat_def NewProcessor_def NewSalts_def new_evr_peer_def
      evr_Validate_def check_link_def link_defaults_def check_rates_def demo_evr_env_def NewStat_def newBuckets_def
      demo_evr_config_def valid_ip4_def To4_def zero_range_def header_lengths Let_def)


section \<open>Which target a reply is credited to\<close>

text \<open>The registered peer of an address text is the last target that spells it so.\<close>

lemma evr_registered:
  fixes env :: net_env and seqs :: "nat \<Rightarrow> u64"
  defines "ini \<equiv> fold (init_peer env seqs)"
  assumes "ag_peers b = []" "ag_peerByEVRSrc b = []"
  shows "length (ag_peers (ini ts b)) = length ts"
    "map_of (ag_peerByEVRSrc (ini ts b)) key = Some i \<longleftrightarrow> i < length ts \<and> t_EVRSrcAddr (ts ! i) = key \<and>
       (\<forall>j. i < j \<and> j < length ts \<longrightarrow> t_EVRSrcAddr (ts ! j) \<noteq> key)"
    "j < length ts \<Longrightarrow> ev_stat (ag_peers (ini ts b) ! j) = length (p_stats (ag_proc b)) + j"
    "length (p_stats (ag_proc (ini ts b))) = length (p_stats (ag_proc b)) + length ts"
proof (induction ts arbitrary: i j rule: rev_induct)
  case (snoc t ts)
  have ini: "ini (ts @ [t]) b = init_peer env seqs t (ini ts b)" by (simp add: ini_def)
  { case 1 show ?case using snoc(1) by (simp add: ini init_peer_def Let_def) }
  { case 2 show ?case
      using snoc(1) snoc(2) [of i] by (auto simp: ini init_peer_def Let_def update_conv' nth_append less_Suc_eq) }
  { case 3 then show ?case
      using snoc(1,4) snoc(3) [of j] by (auto simp: ini init_peer_def Let_def nth_append new_evr_peer_def less_Suc_eq) }
  { case 4 show ?case using snoc(4) by (simp add: ini init_peer_def Let_def AddStat_def) }
qed (simp_all add: ini_def assms)

lemma evr_handlePacket_keeps:
  assumes "evr_handlePacket env now pkt a = Some a'"
  shows "ag_peers a' = ag_peers a" "ag_peerByEVRSrc a' = ag_peerByEVRSrc a"
    "p_stats (ag_proc a') ! k \<noteq> p_stats (ag_proc a) ! k \<Longrightarrow>
       \<exists>ip i. length ip = 4 \<and> map_of (ag_peerByEVRSrc a) (e_IPString env ip) = Some i \<and> ev_stat (ag_peers a ! i) = k"
proof -
  have len: "length (snd (snd (DecodeWithSrcIP d))) = 4" if "evr_IsValid d" for d
    using that evr_codec.decode_ok [of d] by (simp add: evr_IsValid_def evr_ok_def)
  show "ag_peers a' = ag_peers a" "ag_peerByEVRSrc a' = ag_peerByEVRSrc a"
    using assms by (auto simp: evr_handlePacket_def Let_def split: if_splits prod.splits option.splits)
  show "p_stats (ag_proc a') ! k \<noteq> p_stats (ag_proc a) ! k \<Longrightarrow>
       \<exists>ip i. length ip = 4 \<and> map_of (ag_peerByEVRSrc a) (e_IPString env ip) = Some i \<and> ev_stat (ag_peers a ! i) = k"
    using assms len [of "drop 8 pkt"]
    by (auto simp: evr_handlePacket_def Let_def call_stat_def set_stat_def nth_list_update
        split: if_splits prod.splits option.splits)
qed

text \<open>
  Replies reach a target only under the canonical text of its inner source address, and only the last
  target with that address. When a later target repeats the address, or the address is configured in a
  form that the library does not print, no packet ever changes the statistics of the target, whatever
  the read loop receives: all of its probes are counted as lost.
\<close>

theorem evr_shadowed_target_starves:
  assumes "evr_New env seqs conf (NewProcessor spn delay) = Some a" "i < length (ec_Targets conf)"
    and "(\<exists>j. i < j \<and> j < length (ec_Targets conf) \<and> t_EVRSrcAddr (ec_Targets conf ! j) = t_EVRSrcAddr (ec_Targets conf ! i)) \<or>
         (\<forall>ip. length ip = 4 \<longrightarrow> e_IPString env ip \<noteq> t_EVRSrcAddr (ec_Targets conf ! i))"
    and "evr_readLoop env n reads a = Some (a', running)"
  shows "p_stats (ag_proc a') ! ev_stat (ag_peers a ! i) = p_stats (ag_proc a) ! ev_stat (ag_peers a ! i)"
proof -
  obtain b where a: "a = fold (init_peer env seqs) (ec_Targets conf) b" and b: "ag_peers b = []" "ag_peerByEVRSrc b = []"
    using assms(1) by (auto simp: evr_New_def evr_initPeers_def Let_def split: if_splits)
  note reg = evr_registered [OF b, where env = env and seqs = seqs and ts = "ec_Targets conf"]
  let ?st = "ev_stat (ag_peers a ! i)"
  have "ev_stat (ag_peers a ! k) \<noteq> ?st" if "length ip = 4" "map_of (ag_peerByEVRSrc a) (e_IPString env ip) = Some k" for ip k
  proof -
    have k: "k < length (ec_Targets conf)" "t_EVRSrcAddr (ec_Targets conf ! k) = e_IPString env ip"
        "\<forall>j. k < j \<and> j < length (ec_Targets conf) \<longrightarrow> t_EVRSrcAddr (ec_Targets conf ! j) \<noteq> e_IPString env ip"
      using that(2) reg(2) [of "e_IPString env ip" k] a by simp_all
    then have "k \<noteq> i" using assms(3) that(1) by metis
    then show ?thesis using reg(3) [OF k(1)] reg(3) [OF assms(2)] a by simp
  qed
  then have "\<lbrakk>evr_readLoop env n reads c = Some (a', running); ag_peers c = ag_peers a; ag_peerByEVRSrc c = ag_peerByEVRSrc a\<rbrakk> \<Longrightarrow>
      p_stats (ag_proc a') ! ?st = p_stats (ag_proc c) ! ?st" for c
  proof (induction env n reads c rule: evr_readLoop.induct)
    case (3 env n now pkt reads c)
    then show ?case using evr_handlePacket_keeps [of env now pkt c] by (fastforce split: option.splits)
  qed (auto split: if_splits)
  then show ?thesis using assms(4) by blast
qed

definition demo_twice :: evr_Config where
  "demo_twice = demo_evr_config\<lparr>ec_Span := 10, ec_Targets :=
     [\<lparr>t_VTEPAddr = ''10.0.0.1'', t_EVRSrcAddr = ''10.0.0.1'', t_MockSrcAddr = []\<rparr>,
      \<lparr>t_VTEPAddr = ''10.0.0.2'', t_EVRSrcAddr = ''10.0.0.1'', t_MockSrcAddr = []\<rparr>]\<rparr>"

definition demo_reply_env :: net_env where
  "demo_reply_env = demo_evr_env\<lparr>e_IPString := (\<lambda>_. ''10.0.0.1'')\<rparr>"

definition demo_twice_agent :: Agent where
  "demo_twice_agent = the (evr_New demo_reply_env (\<lambda>_. 7) demo_twice (NewProcessor 10 30))"

definition demo_reply :: "byte list" where
  "demo_reply = [0, 0, 0, 0, 0, 0, 0, 0] @ EncodeWithSrcIP 8 [] 15 28 0x0A000001"

lemma demo_twice_run:
  "evr_New demo_reply_env (\<lambda>_. 7) demo_twice (NewProcessor 10 30) \<noteq> None"
  "evr_readLoop demo_reply_env 0 [None, Some (22, demo_reply)] demo_twice_agent \<noteq> None"
  "ev_stat (ag_peers demo_twice_agent ! 0) = 0"
  by code_simp+

theorem evr_shadowed_target_starves_witness:
  "\<exists>a' running. evr_readLoop demo_reply_env 0 [None, Some (22, demo_reply)] demo_twice_agent = Some (a', running) \<and>
     p_stats (ag_proc a') ! 0 = p_stats (ag_proc demo_twice_agent) ! 0"
proof -
  have a: "evr_New demo_reply_env (\<lambda>_. 7) demo_twice (NewProcessor 10 30) = Some demo_twice_agent"
    using demo_twice_run(1) by (auto simp: demo_twice_agent_def)
  obtain a' running where r: "evr_readLoop demo_reply_env 0 [None, Some (22, demo_reply)] demo_twice_agent = Some (a', running)"
    using demo_twice_run(2) by fast
  have "0 < length (ec_Targets demo_twice)"
    "\<exists>j. 0 < j \<and> j < length (ec_Targets demo_twice) \<and> t_EVRSrcAddr (ec_Targets demo_twice ! j) = t_EVRSrcAddr (ec_Targets demo_twice ! 0)"
    by (auto simp: demo_twice_def intro: exI [of _ "1::nat"])
  then show ?thesis using evr_shadowed_target_starves [OF a _ _ r, of 0] r demo_twice_run(3) by auto
qed

end
