(* ===== verification/Trace_Match.thy ===== *)
theory Trace_Match
  imports Traceroute
begin

text \<open>
  Which probe a reply is attributed to. Every probe of a run waits for its own reply and sees all
  replies on the wire, so the matcher has to tell the probes apart by what the reply quotes or echoes.
\<close>

section \<open>Probe identities\<close>

lemma be16_at_bytes: "be16_at (xs @ be_bytes 2 w @ ys) (length xs) = w" for w :: u16
proof -
  have "be_bytes 2 w = [ucast (drop_bit 8 w), ucast w]" by (simp add: be_bytes_def upt_rec)
  then show ?thesis using be_word_bytes_16 [of w] by (simp add: be16_at_def be_word_def nth_append)
qed

lemma be16_at_head: "be16_at (be_bytes 2 w @ ys) 0 = w" for w :: u16
  using be16_at_bytes [of "[]" w ys] by simp

lemma digits_unique:
  fixes a b x y n :: int
  assumes "n * a + x = n * b + y" "0 \<le> x" "x < n" "0 \<le> y" "y < n"
  shows "a = b \<and> x = y"
proof -
  have d: "(n * c + z) div n = c" if "0 \<le> z" "z < n" for c z
    using that by (simp add: div_pos_pos_trivial)
  have "a = b" using d [of x a] d [of y b] assms by metis
  then show ?thesis using assms(1) by simp
qed

lemma mod_shifted: "k * m \<le> x \<Longrightarrow> x < k * m + m \<Longrightarrow> x mod m = x - k * m" for x k m :: int
proof -
  assume "k * m \<le> x" "x < k * m + m"
  then have "(x - k * m + k * m) mod m = x - k * m" by (simp only: mod_mult_self1) (simp add: mod_pos_pos_trivial)
  then show ?thesis by simp
qed

lemma echo_seq_value:
  assumes "0 \<le> ttl" "ttl \<le> 255" "0 \<le> probe" "probe < 256"
  shows "uint (echo_seq ttl probe) = 256 * ttl + probe"
proof -
  have "echo_seq ttl probe = push_bit 8 (word_of_int ttl) + word_of_int probe"
    unfolding echo_seq_def
  proof (subst disjunctive_add [symmetric])
    fix n
    have "\<not> bit probe n" if "8 \<le> n" for n
    proof -
      have "probe = take_bit 8 probe" using assms by (simp add: take_bit_eq_mod)
      then show ?thesis using that by (metis bit_take_bit_iff not_le)
    qed
    then show "\<not> bit (push_bit 8 (word_of_int ttl) :: u16) n \<or> \<not> bit (word_of_int (probe mod 256) :: u16) n"
      using assms by (cases "n < 8") (auto simp: bit_simps)
  qed (use assms in simp)
  also have "\<dots> = word_of_int (256 * ttl + probe)" by (simp add: push_bit_eq_mult)
  also have "uint \<dots> = 256 * ttl + probe" by (rule uint_of_int_id) (use assms in simp_all)
  finally show ?thesis .
qed

lemma echo_seq_inject:
  assumes "echo_seq ttl probe = echo_seq ttl' probe'"
    and "0 \<le> ttl" "ttl \<le> 255" "0 \<le> probe" "probe < 256" "0 \<le> ttl'" "ttl' \<le> 255" "0 \<le> probe'" "probe' < 256"
  shows "ttl = ttl' \<and> probe = probe'"
proof -
  have "256 * ttl + probe = 256 * ttl' + probe'"
    using assms echo_seq_value [of ttl probe] echo_seq_value [of ttl' probe'] by simp
  then show ?thesis by (rule digits_unique) (use assms(2-) in simp_all)
qed

lemma wrapped_offsets:
  fixes p a b x y k l :: int
  assumes "x = p + a \<or> x = p + a - 65536" "y = p + b \<or> y = p + b - 65536" "x - k = y - l"
    and "k = 0 \<or> k = 30000 \<or> k = 60000" "l = 0 \<or> l = 30000 \<or> l = 60000"
    and "0 \<le> a" "a < 4096" "0 \<le> b" "b < 4096"
  shows "a = b"
  using assms by (elim disjE) linarith+

text \<open>Offsets below 4096 keep distinct source ports for every process identifier, also where the sum
  wraps around in 16 bits.\<close>

lemma offsets_distinct:
  fixes p a b :: int
  assumes "0 \<le> p" "p < 65536" "0 \<le> a" "a < 4096" "0 \<le> b" "b < 4096"
    and "(p + a) mod 65536 mod 30000 = (p + b) mod 65536 mod 30000"
  shows "a = b"
proof -
  have wrap: "(p + c) mod 65536 = p + c \<or> (p + c) mod 65536 = p + c - 65536" if "0 \<le> c" "c < 4096" for c
    using that assms(1,2) mod_shifted [of 0 65536 "p + c"] mod_shifted [of 1 65536 "p + c"] by linarith
  have red: "\<exists>k. (k = 0 \<or> k = 30000 \<or> k = 60000) \<and> x mod 30000 = x - k" if "0 \<le> x" "x < 65536" for x :: int
    using that mod_shifted [of 0 30000 x] mod_shifted [of 1 30000 x] mod_shifted [of 2 30000 x]
    by (cases "x < 30000"; cases "x < 60000") auto
  have bounds: "0 \<le> (p + c) mod 65536" "(p + c) mod 65536 < 65536" for c by simp_all
  obtain k where k: "k = 0 \<or> k = 30000 \<or> k = 60000" "(p + a) mod 65536 mod 30000 = (p + a) mod 65536 - k"
    using red [OF bounds] by blast
  obtain l where l: "l = 0 \<or> l = 30000 \<or> l = 60000" "(p + b) mod 65536 mod 30000 = (p + b) mod 65536 - l"
    using red [OF bounds] by blast
  show ?thesis
    by (rule wrapped_offsets [OF wrap wrap _ k(1) l(1)]) (use assms(3-6) in \<open>simp_all only: assms(7) k(2) [symmetric] l(2) [symmetric]\<close>)
qed

lemma ephemeral_value:
  "uint (ephemeralSrcPort pid ttl probe) = 33000 + (uint pid + (ttl * 16 + probe)) mod 65536 mod 30000"
proof -
  have "uint (pid + word_of_int ttl * 16 + word_of_int probe) = (uint pid + (ttl * 16 + probe)) mod 65536"
    by (simp add: uint_word_ariths uint_word_of_int mod_simps add.assoc take_bit_eq_mod)
  then have m: "uint ((pid + word_of_int ttl * 16 + word_of_int probe) mod 30000) =
      (uint pid + (ttl * 16 + probe)) mod 65536 mod 30000"
    by (simp add: uint_mod)
  have "0 \<le> x mod 30000" "x mod 30000 < 30000" for x :: int by simp_all
  then show ?thesis
    by (simp add: ephemeralSrcPort_def uint_word_ariths m mod_pos_pos_trivial)
qed

lemma ephemeral_inject:
  assumes "ephemeralSrcPort pid ttl probe = ephemeralSrcPort pid ttl' probe'"
    and "0 \<le> ttl" "ttl \<le> 255" "0 \<le> probe" "probe < 16" "0 \<le> ttl'" "ttl' \<le> 255" "0 \<le> probe'" "probe' < 16"
  shows "ttl = ttl' \<and> probe = probe'"
proof -
  have e: "(uint pid + (ttl * 16 + probe)) mod 65536 mod 30000 = (uint pid + (ttl' * 16 + probe')) mod 65536 mod 30000"
    using arg_cong [OF assms(1), of uint] by (simp only: ephemeral_value add_left_cancel)
  have p: "0 \<le> uint pid" "uint pid < 65536" using unsigned_less [of pid, where 'a = int] by simp_all
  have "ttl * 16 + probe = ttl' * 16 + probe'"
    by (rule offsets_distinct [OF p _ _ _ _ e]) (use assms(2-) in linarith)+
  then have "16 * ttl + probe = 16 * ttl' + probe'" by simp
  then show ?thesis by (rule digits_unique) (use assms(2-) in simp_all)
qed

section \<open>Errors name their probe\<close>

text \<open>The first eight bytes of the transport header of a probe as routers quote them: identifier and
  sequence number behind four other bytes for ICMP, the ports and four other bytes for UDP and TCP.\<close>

definition transport_head :: "trace_Config \<Rightarrow> u16 \<Rightarrow> int \<Rightarrow> int \<Rightarrow> byte list \<Rightarrow> byte list" where
  "transport_head c pid ttl probe other =
     (case tc_Protocol c of
        ProtoICMP \<Rightarrow> other @ be_bytes 2 pid @ be_bytes 2 (echo_seq ttl probe)
      | ProtoUDP \<Rightarrow> be_bytes 2 (udpSrcPort c pid ttl probe) @ be_bytes 2 (dstPort c ttl) @ other
      | ProtoTCP \<Rightarrow> be_bytes 2 (tcpSrcPort c pid ttl probe) @ be_bytes 2 (tc_Port c) @ other)"

definition icmp_error :: "IP \<Rightarrow> byte \<Rightarrow> byte list \<Rightarrow> tr_packet" where
  "icmp_error router typ load =
     no_layers\<lparr>tp_IP := Some \<lparr>ipl_src = Some router, ipl_dst = None, ipl_ttl = 64, ipl_tos = 0, ipl_proto = 1\<rparr>,
       tp_ICMP := Some \<lparr>ic_type = Some typ, ic_id = None, ic_seq = None\<rparr>, tp_Raw := Some load\<rparr>"

definition probe_in :: "trace_Config \<Rightarrow> int \<Rightarrow> int \<Rightarrow> bool" where
  "probe_in c ttl probe \<longleftrightarrow> 1 \<le> ttl \<and> ttl \<le> tc_MaxHops c \<and> 0 \<le> probe \<and> probe < tc_Queries c"

lemma IP_Equal_refl [simp]: "IP_Equal ip ip"
  by (simp add: IP_Equal_def)

lemma heads_differ:
  assumes "trace_checks addr_ok bad c = None" "tc_SrcPort c = 0" "tc_Queries c \<le> 16"
    and "probe_in c ttl probe" "probe_in c ttl' probe'" "length other = 4"
    and "(case tc_Protocol c of ProtoICMP \<Rightarrow> echo = Some \<lparr>ic_type = t, ic_id = Some pid, ic_seq = Some (echo_seq ttl probe)\<rparr>
          | ProtoUDP \<Rightarrow> tp_UDP sent = Some (probe_udp c pid ttl probe)
          | ProtoTCP \<Rightarrow> tp_TCP sent = Some (probe_tcp c pid ttl probe))"
  shows "inner_matches (tc_Protocol c) echo sent (transport_head c pid ttl' probe' other @ rest) \<longleftrightarrow>
    ttl' = ttl \<and> probe' = probe"
proof -
  have b: "0 \<le> ttl" "ttl \<le> 255" "0 \<le> probe" "probe < 16" "0 \<le> ttl'" "ttl' \<le> 255" "0 \<le> probe'" "probe' < 16"
    using assms(1,3-5) by (auto simp: trace_checks_def probe_in_def split: if_splits)
  have at: "be16_at (be_bytes 2 x @ be_bytes 2 y @ z) 2 = y" "be16_at (other @ be_bytes 2 x @ be_bytes 2 y @ z) 4 = x"
    "be16_at (other @ be_bytes 2 x @ be_bytes 2 y @ z) 6 = y" for x y :: u16 and z
    using be16_at_bytes [of "be_bytes 2 x" y z] be16_at_bytes [of other x "be_bytes 2 y @ z"]
      be16_at_bytes [of "other @ be_bytes 2 x" y z] assms(6) by simp_all
  have port: "ephemeralSrcPort pid ttl' probe' = ephemeralSrcPort pid ttl probe \<longleftrightarrow> ttl' = ttl \<and> probe' = probe"
    using ephemeral_inject [of pid ttl' probe' ttl probe] b by blast
  have seq: "echo_seq ttl' probe' = echo_seq ttl probe \<longleftrightarrow> ttl' = ttl \<and> probe' = probe"
    using echo_seq_inject [of ttl' probe' ttl probe] b by auto
  show ?thesis
  proof (cases "tc_Protocol c")
    case ProtoICMP
    then show ?thesis using assms(6,7) by (simp add: inner_matches_def transport_head_def at u16_or0_def seq)
  next
    case ProtoUDP
    then show ?thesis using assms(2,6,7)
      by (auto simp: inner_matches_def transport_head_def at be16_at_head u16_or0_def probe_udp_def udpSrcPort_def port)
  next
    case ProtoTCP
    then show ?thesis using assms(2,6,7)
      by (simp add: inner_matches_def transport_head_def at be16_at_head u16_or0_def probe_tcp_def tcpSrcPort_def port)
  qed
qed

text \<open>
  C16. An ICMP error is credited to the probe it quotes and to no other: in a validated run with at most 16
  queries per hop and no pinned source port, a Destination Unreachable or Time Exceeded message that
  quotes the IPv4 header and eight transport bytes of probe \<open>(ttl', probe')\<close> matches probe \<open>(ttl, probe)\<close> exactly
  when they are the same probe, for ICMP, UDP and TCP and every process identifier.
\<close>

theorem error_names_its_probe:
  assumes "trace_Validate env c = None" "tc_SrcPort c = 0" "tc_Queries c \<le> 16"
    and "probe_in c ttl probe" "probe_in c ttl' probe'"
    and "typ = 3 \<or> typ = 11" "length dst = 4" "length hdr = 16" "hdr ! 0 AND 0x0F = 5" "length other = 4"
  shows "buildMatcher (tc_Protocol c) (buildProbe c pid src dst ttl probe)
      (icmp_error router typ (hdr @ dst @ transport_head c pid ttl' probe' other @ rest)) \<longleftrightarrow>
    ttl' = ttl \<and> probe' = probe"
proof -
  let ?sent = "buildProbe c pid src dst ttl probe" and ?inner = "transport_head c pid ttl' probe' other @ rest"
  have "(hdr @ dst @ ?inner) ! 0 = hdr ! 0" using assms(8) by (cases hdr) auto
  then have e: "matchEmbedded (tc_Protocol c) ?sent (icmp_error router typ (hdr @ dst @ ?inner)) dst =
      inner_matches (tc_Protocol c) (tp_ICMP ?sent) ?sent ?inner"
    using assms(7-9) by (simp add: matchEmbedded_def icmp_error_def no_layers_def Let_def)
  have "inner_matches (tc_Protocol c) (tp_ICMP ?sent) ?sent ?inner \<longleftrightarrow> ttl' = ttl \<and> probe' = probe"
    by (rule heads_differ [where t = "Some 8", OF _ assms(2-5,10)])
      (use assms(1) in \<open>simp_all add: trace_Validate_def buildProbe_def no_layers_def split: Protocol.split\<close>)
  then show ?thesis using assms(6) e
    by (auto simp: buildMatcher_def match_reply_def icmp_error_def buildProbe_def no_layers_def probe_ip_def
        split: Protocol.splits)
qed

definition demo_trace :: trace_Config where
  "demo_trace = DefaultConfig\<lparr>tc_Targets := [''192.0.2.9''], tc_Protocol := ProtoTCP, tc_Port := 80\<rparr>"

theorem error_names_its_probe_witness:
  "\<not> buildMatcher ProtoTCP (buildProbe demo_trace 65535 [10, 0, 0, 1] [192, 0, 2, 9] 3 1)
      (icmp_error [10, 0, 0, 254] 11 ((0x45 # replicate 15 0) @ [192, 0, 2, 9] @
         transport_head demo_trace 65535 3 2 [0, 0, 0, 0] @ []))"
proof -
  have "buildMatcher (tc_Protocol demo_trace) (buildProbe demo_trace 65535 [10, 0, 0, 1] [192, 0, 2, 9] 3 1)
      (icmp_error [10, 0, 0, 254] 11 ((0x45 # replicate 15 0) @ [192, 0, 2, 9] @
         transport_head demo_trace 65535 3 2 [0, 0, 0, 0] @ [])) \<longleftrightarrow> (3::int) = 3 \<and> (2::int) = 1"
    by (rule error_names_its_probe [of undefined])
      (simp_all add: trace_Validate_def trace_checks_def demo_trace_def DefaultConfig_def probe_in_def second_def)
  then show ?thesis by (simp add: demo_trace_def)
qed

text \<open>The same for \<open>traceroute6\<close>: the message starts with four unused bytes, the quoted header has 40.\<close>

lemma error6_names_its_probe:
  assumes "trace6_Validate env c = None" "tc_SrcPort c = 0" "tc_Queries c \<le> 16"
    and "probe_in c ttl probe" "probe_in c ttl' probe'"
    and "typ = 1 \<or> typ = 3" "length dst = 16" "length hdr = 28" "length other = 4"
  shows "buildMatcher6 (tc_Protocol c) (buildProbe6 c pid src dst ttl probe)
      (icmp_error router typ (hdr @ dst @ transport_head c pid ttl' probe' other @ rest)) \<longleftrightarrow>
    ttl' = ttl \<and> probe' = probe"
proof -
  let ?sent = "buildProbe6 c pid src dst ttl probe" and ?inner = "transport_head c pid ttl' probe' other @ rest"
  have e: "matchEmbedded6 (tc_Protocol c) ?sent (icmp_error router typ (hdr @ dst @ ?inner)) dst =
      inner_matches (tc_Protocol c) (tp_Echo ?sent) ?sent ?inner"
    using assms(7,8) by (simp add: matchEmbedded6_def icmp_error_def no_layers_def Let_def)
  have "inner_matches (tc_Protocol c) (tp_Echo ?sent) ?sent ?inner \<longleftrightarrow> ttl' = ttl \<and> probe' = probe"
    by (rule heads_differ [where t = None, OF _ assms(2-5,9)])
      (use assms(1) in \<open>simp_all add: trace6_Validate_def buildProbe6_def no_layers_def split: Protocol.split\<close>)
  then show ?thesis using assms(6) e
    by (auto simp: buildMatcher6_def match_reply_def icmp_error_def buildProbe6_def no_layers_def probe_ip_def
        split: Protocol.splits)
qed

text \<open>An echo reply is credited by the identifier and sequence number it echoes.\<close>

lemma echo_names_its_probe:
  assumes "trace_Validate env c = None" "tc_Protocol c = ProtoICMP" "tc_Queries c \<le> 256"
    and "probe_in c ttl probe" "probe_in c ttl' probe'"
  shows "buildMatcher (tc_Protocol c) (buildProbe c pid src dst ttl probe)
      (no_layers\<lparr>tp_IP := Some \<lparr>ipl_src = Some dst, ipl_dst = Some src, ipl_ttl = 64, ipl_tos = 0, ipl_proto = 1\<rparr>,
         tp_ICMP := Some \<lparr>ic_type = Some 0, ic_id = Some pid, ic_seq = Some (echo_seq ttl' probe')\<rparr>\<rparr>) \<longleftrightarrow>
    ttl' = ttl \<and> probe' = probe"
proof -
  have "echo_seq ttl probe = echo_seq ttl' probe' \<longleftrightarrow> ttl' = ttl \<and> probe' = probe"
    using echo_seq_inject [of ttl probe ttl' probe'] assms
    by (auto simp: trace_Validate_def trace_checks_def probe_in_def split: if_splits)
  then show ?thesis using assms(2)
    by (simp add: buildMatcher_def match_reply_def buildProbe_def no_layers_def probe_ip_def from_destination_def
        echoIdentMatches_def ident_matches_def u16_or0_def)
qed

section \<open>Where probes are confused\<close>

text \<open>
  Validation lets through runs in which probes share an identity: with more than 16 queries per hop, the
  TCP probe with index 16 of a hop has the source port of the first probe of the next hop, and an error
  quoting the one is accepted for the other.
\<close>

theorem seventeenth_probe_ambiguous:
  assumes "trace_Validate env c = None" "tc_Protocol c = ProtoTCP" "tc_SrcPort c = 0"
    and "probe_in c ttl 16" "probe_in c (ttl + 1) 0"
    and "typ = 3 \<or> typ = 11" "length dst = 4" "length hdr = 16" "hdr ! 0 AND 0x0F = 5" "length other = 4"
  shows "buildMatcher (tc_Protocol c) (buildProbe c pid src dst (ttl + 1) 0)
      (icmp_error router typ (hdr @ dst @ transport_head c pid ttl 16 other @ rest))"
proof -
  have p: "ephemeralSrcPort pid ttl 16 = ephemeralSrcPort pid (ttl + 1) 0"
    by (simp add: ephemeralSrcPort_def algebra_simps)
  have "(hdr @ dst @ xs) ! 0 = hdr ! 0" for xs using assms(8) by (cases hdr) auto
  moreover have "be16_at (be_bytes 2 x @ be_bytes 2 y @ z) 2 = y" for x y :: u16 and z
    using be16_at_bytes [of "be_bytes 2 x" y z] by simp
  ultimately show ?thesis using assms(2,3,6-10)
    by (auto simp: buildMatcher_def match_reply_def icmp_error_def buildProbe_def no_layers_def probe_ip_def
        matchEmbedded_def inner_matches_def transport_head_def tcpSrcPort_def probe_tcp_def u16_or0_def be16_at_head p)
qed

theorem seventeenth_probe_ambiguous_witness:
  "buildMatcher ProtoTCP (buildProbe (demo_trace\<lparr>tc_Queries := 17\<rparr>) 7 [10, 0, 0, 1] [192, 0, 2, 9] (3 + 1) 0)
      (icmp_error [10, 0, 0, 254] 11 ((0x45 # replicate 15 0) @ [192, 0, 2, 9] @
         transport_head (demo_trace\<lparr>tc_Queries := 17\<rparr>) 7 3 16 [0, 0, 0, 0] @ []))"
proof -
  have "buildMatcher (tc_Protocol (demo_trace\<lparr>tc_Queries := 17\<rparr>)) (buildProbe (demo_trace\<lparr>tc_Queries := 17\<rparr>) 7 [10, 0, 0, 1] [192, 0, 2, 9] (3 + 1) 0)
      (icmp_error [10, 0, 0, 254] 11 ((0x45 # replicate 15 0) @ [192, 0, 2, 9] @
         transport_head (demo_trace\<lparr>tc_Queries := 17\<rparr>) 7 3 16 [0, 0, 0, 0] @ []))"
    by (rule seventeenth_probe_ambiguous [of undefined])
      (simp_all add: trace_Validate_def trace_checks_def demo_trace_def DefaultConfig_def probe_in_def second_def)
  then show ?thesis by (simp add: demo_trace_def)
qed

text \<open>
  A TCP answer of the destination is taken for every TCP probe: a segment from the destination with SYN
  or RST set is accepted for the probe of any TTL and index, whatever ports it carries, and makes that
  probe count as having reached the destination.
\<close>

theorem tcp_answer_matches_every_probe:
  assumes "tc_Protocol c = ProtoTCP" "fl AND TCPSyn \<noteq> 0 \<or> fl AND TCPRst \<noteq> 0"
    and "resp = no_layers\<lparr>tp_IP := Some \<lparr>ipl_src = Some dst, ipl_dst = Some src, ipl_ttl = 64, ipl_tos = 0, ipl_proto = 6\<rparr>,
          tp_TCP := Some \<lparr>l4_sport = Some sp, l4_dport = Some dp, l4_flags = Some fl, l4_seq = sq\<rparr>\<rparr>"
  shows "buildMatcher (tc_Protocol c) (buildProbe c pid src dst ttl probe) resp \<and>
    sendProbe c (Some resp) rtt = \<lparr>pr_FromIP = Some dst, pr_RTT = rtt, pr_Reached = True, pr_TimedOut = False\<rparr>"
  using assms by (auto simp: buildMatcher_def match_reply_def buildProbe_def no_layers_def probe_ip_def
      from_destination_def sendProbe_def extractReply_def extract_reply_def)

theorem tcp_answer_matches_every_probe_witness:
  "pr_Reached (sendProbe demo_trace (Some (no_layers\<lparr>tp_IP := Some \<lparr>ipl_src = Some [192, 0, 2, 9], ipl_dst = Some [10, 0, 0, 1],
        ipl_ttl = 64, ipl_tos = 0, ipl_proto = 6\<rparr>,
      tp_TCP := Some \<lparr>l4_sport = Some 80, l4_dport = Some 1, l4_flags = Some 0x12, l4_seq = None\<rparr>\<rparr>)) 5)"
  using tcp_answer_matches_every_probe 
    [where c = demo_trace and fl = "0x12" and dst = "[192, 0, 2, 9]" and src = "[10, 0, 0, 1]" and sp = 80 and dp = 1
      and sq = None and pid = 0 and ttl = 1 and probe = 0 and rtt = 5, OF _ _ refl]
  by (simp add: demo_trace_def TCPSyn_def)

end
