(* ===== verification/Lidar.thy ===== *)
theory Lidar
  imports Sonar_Server
begin

text \<open>
  The package \<open>lidar\<close>: TCP SYN probing of a list of targets (\<open>config.go\<close>, \<open>scanner.go\<close>, \<open>sender.go\<close>). The
  raw sockets, the packet builder and the dissector of the packet library are parameters: a probe
  carries whether it could be built and sent, a received packet is its TCP fields. The capture filter is
  the raw instruction sequence of the source, run by a machine for the instruction codes it uses.
\<close>

section \<open>Configuration\<close>

record lidar_Config =
  ld_TargetAddrs :: "string list"
  ld_ServerPort :: int
  ld_LocalAddr :: string
  ld_LocalPort :: int
  ld_LocalPortCount :: int
  ld_Rate :: int
  ld_Span :: int
  ld_Delay :: int
  ld_Count :: int
  ld_SendDuration :: int
  ld_Interface :: string
  ld_Verbose :: bool

definition lidar_resolveLocalIP :: "net_env \<Rightarrow> cfg_error + string" where
  "lidar_resolveLocalIP env =
     (case e_Hostname env of
        None \<Rightarrow> Inl HostnameFailed
      | Some hostname \<Rightarrow>
          (case e_LookupHost env hostname of
             None \<Rightarrow> Inl (LookupFailed hostname)
           | Some addrs \<Rightarrow>
               (case first_addr env (\<lambda>ip. To4 ip \<noteq> None \<and> \<not> IsLoopback ip) addrs of
                  Some addr \<Rightarrow> Inr addr
                | None \<Rightarrow> (case addrs of a # _ \<Rightarrow> Inr a | [] \<Rightarrow> Inl (NoAddress hostname)))))"

definition lidar_defaults :: "lidar_Config \<Rightarrow> lidar_Config" where
  "lidar_defaults c =
     (let c = (if ld_ServerPort c = 0 then c\<lparr>ld_ServerPort := 447\<rparr> else c);
          c = (if ld_LocalPort c = 0 then c\<lparr>ld_LocalPort := 54321\<rparr> else c);
          c = (if ld_LocalPortCount c = 0 then c\<lparr>ld_LocalPortCount := 100\<rparr> else c);
          c = (if ld_Rate c = 0 then c\<lparr>ld_Rate := 10000\<rparr> else c);
          c = (if ld_Span c = 0 then c\<lparr>ld_Span := second\<rparr> else c)
      in if ld_Delay c = 0 then c\<lparr>ld_Delay := 3 * second\<rparr> else c)"

definition lidar_Validate :: "net_env \<Rightarrow> lidar_Config \<Rightarrow> cfg_error + lidar_Config" where
  "lidar_Validate env c =
     (if ld_TargetAddrs c = [] then Inl NoTargets
      else case List.find (\<lambda>a. \<not> valid_ip4 env a) (ld_TargetAddrs c) of
        Some a \<Rightarrow> Inl (NotIPv4 a)
      | None \<Rightarrow>
          (case (if ld_LocalAddr c = [] then lidar_resolveLocalIP env else Inr (ld_LocalAddr c)) of
             Inl e \<Rightarrow> Inl e
           | Inr addr \<Rightarrow>
               if valid_ip4 env addr then Inr (lidar_defaults (c\<lparr>ld_LocalAddr := addr\<rparr>)) else Inl (NotIPv4 addr)))"

definition lidar_findInterfaceByIP :: "net_env \<Rightarrow> string \<Rightarrow> string" where
  "lidar_findInterfaceByIP env ipStr =
     (case e_Interfaces env of
        None \<Rightarrow> []
      | Some ifaces \<Rightarrow>
          (case List.find (\<lambda>i. case if_Addrs i of
                              None \<Rightarrow> False
                            | Some as \<Rightarrow> (\<exists>a\<in>set as. case a of None \<Rightarrow> False | Some x \<Rightarrow> e_IPString env x = ipStr)) ifaces of
             None \<Rightarrow> []
           | Some i \<Rightarrow> if_Name i))"


section \<open>The scanner\<close>

text \<open>\<open>sc_stats\<close> maps a target to the position of its statistics in the processor.\<close>

record Scanner =
  sc_conf :: lidar_Config
  sc_targets :: "string list"
  sc_seq :: u64
  sc_seqStart :: u64
  sc_srcPort :: u16
  sc_portCount :: u16
  sc_currentPort :: u16
  sc_stats :: "(string, nat) gomap"
  sc_proc :: Processor

fun scanner_stats :: "lidar_Config \<Rightarrow> string list \<Rightarrow> (string, nat) gomap \<times> Processor \<Rightarrow> (string, nat) gomap \<times> Processor" where
  "scanner_stats conf [] sp = sp"
| "scanner_stats conf (addr # addrs) (stats, proc) =
     (let s = NewStat (ld_LocalAddr conf) addr
                \<lparr>pr_Min = ld_LocalPort conf, pr_Max = ld_LocalPort conf + ld_LocalPortCount conf - 1\<rparr>
                \<lparr>pr_Min = ld_ServerPort conf, pr_Max = ld_ServerPort conf\<rparr>
                (ld_Rate conf) (ld_Span conf) (ld_Delay conf) True
      in scanner_stats conf addrs (AList.update addr (length (p_stats proc)) stats, AddStat s proc))"

definition NewScanner :: "lidar_Config \<Rightarrow> Scanner" where
  "NewScanner conf =
     (let (stats, proc) = scanner_stats conf (ld_TargetAddrs conf) ([], NewProcessor (ld_Span conf) (ld_Delay conf))
      in \<lparr>sc_conf = conf, sc_targets = ld_TargetAddrs conf, sc_seq = 0, sc_seqStart = 0,
          sc_srcPort = word_of_int (ld_LocalPort conf), sc_portCount = word_of_int (ld_LocalPortCount conf),
          sc_currentPort = word_of_int (ld_LocalPort conf), sc_stats = stats, sc_proc = proc\<rparr>)"

record syn_io =
  sy_build_ok :: bool
  sy_send_ok :: bool

text \<open>One probe: the target at a position, the source port and the time of the round. A probe that is sent
  is returned with its target, port and sequence number as it goes on the wire.\<close>

definition probe_target ::
    "u16 \<Rightarrow> int \<Rightarrow> syn_io \<Rightarrow> nat \<Rightarrow> Scanner \<Rightarrow> (Scanner \<times> (string \<times> u16 \<times> u32) option) option" where
  "probe_target port now io i s =
     (let seq = sc_seq s + 1; s = s\<lparr>sc_seq := seq\<rparr>; target = sc_targets s ! i
      in if \<not> sy_build_ok io \<or> \<not> sy_send_ok io then Some (s, None)
         else
           (case map_of (sc_stats s) target of
              None \<Rightarrow> None
            | Some k \<Rightarrow>
                map_option (\<lambda>proc. (s\<lparr>sc_proc := proc\<rparr>, Some (target, port, ucast seq)))
                  (call_stat (Stat_Put port (word_of_int (ld_ServerPort (sc_conf s))) seq now) k (sc_proc s))))"

text \<open>A round over the targets with the number of probes sent so far.\<close>

fun probe_targets ::
    "u16 \<Rightarrow> int \<Rightarrow> (nat \<Rightarrow> syn_io) \<Rightarrow> nat list \<Rightarrow> Scanner \<times> int \<Rightarrow> ((Scanner \<times> int) \<times> (string \<times> u16 \<times> u32) list) option" where
  "probe_targets port now ios [] st = Some (st, [])"
| "probe_targets port now ios (i # rest) (s, cnt) =
     (case probe_target port now (ios i) i s of
        None \<Rightarrow> None
      | Some (s', sent) \<Rightarrow>
          (case probe_targets port now ios rest (s', if sent = None then cnt else cnt + 1) of
             None \<Rightarrow> None
           | Some (st, wire) \<Rightarrow> Some (st, (case sent of None \<Rightarrow> [] | Some p \<Rightarrow> [p]) @ wire)))"

definition next_port :: "Scanner \<Rightarrow> Scanner" where
  "next_port s =
     (let port = sc_currentPort s + 1
      in s\<lparr>sc_currentPort := (if port \<ge> sc_srcPort s + sc_portCount s then sc_srcPort s else port)\<rparr>)"

definition scan_round :: "int \<Rightarrow> (nat \<Rightarrow> syn_io) \<Rightarrow> Scanner \<times> int \<Rightarrow> ((Scanner \<times> int) \<times> (string \<times> u16 \<times> u32) list) option" where
  "scan_round now ios st =
     (case probe_targets (sc_currentPort (fst st)) now ios [0..<length (sc_targets (fst st))] st of
        None \<Rightarrow> None
      | Some ((s, cnt), wire) \<Rightarrow> Some ((next_port s, cnt), wire))"

definition scan_limit :: "lidar_Config \<Rightarrow> int \<Rightarrow> int \<Rightarrow> bool" where
  "scan_limit conf cnt since \<longleftrightarrow>
     (ld_Count conf > 0 \<and> cnt \<ge> ld_Count conf) \<or> (ld_SendDuration conf > 0 \<and> since \<ge> ld_SendDuration conf)"

text \<open>The probing loop of \<open>Run\<close>: per turn the time since the start, whether the rate limiter let the round
  through, the clock and the outcomes. The sequence counter is noted before the first turn.\<close>

fun scan_loop ::
    "(int \<times> bool \<times> int \<times> (nat \<Rightarrow> syn_io)) list \<Rightarrow> Scanner \<times> int \<Rightarrow> ((Scanner \<times> int) \<times> (string \<times> u16 \<times> u32) list) option" where
  "scan_loop [] st = Some (st, [])"
| "scan_loop ((since, ready, now, ios) # turns) st =
     (if scan_limit (sc_conf (fst st)) (snd st) since then Some (st, [])
      else if \<not> ready then scan_loop turns st
      else case scan_round now ios st of
        None \<Rightarrow> None
      | Some (st', wire) \<Rightarrow> map_option (\<lambda>(st'', wire'). (st'', wire @ wire')) (scan_loop turns st'))"

definition scanner_Run ::
    "(int \<times> bool \<times> int \<times> (nat \<Rightarrow> syn_io)) list \<Rightarrow> Scanner \<Rightarrow> ((Scanner \<times> int) \<times> (string \<times> u16 \<times> u32) list) option" where
  "scanner_Run turns s = scan_loop turns (s\<lparr>sc_seqStart := sc_seq s\<rparr>, 0)"


section \<open>Replies\<close>

record tcp_reply =
  tr_sport :: u16
  tr_dport :: u16
  tr_flags :: byte
  tr_ack :: u32

definition SYN_flag :: byte where "SYN_flag = 0x02"
definition RST_flag :: byte where "RST_flag = 0x04"
definition ACK_flag :: byte where "ACK_flag = 0x10"

text \<open>The division by the number of targets panics when there are none. The round-trip time of a SYN-ACK is
  booked as the time of arrival itself.\<close>

definition reply_target :: "Scanner \<Rightarrow> u64 \<Rightarrow> string" where
  "reply_target s seq = sc_targets s ! unat ((seq - sc_seqStart s - 1) mod of_nat (length (sc_targets s)))"

definition processParsedPacket :: "int \<Rightarrow> tcp_reply option \<Rightarrow> Scanner \<Rightarrow> Scanner option" where
  "processParsedPacket now pkt s =
     (case pkt of None \<Rightarrow> Some s | Some r \<Rightarrow>
        if uint (tr_sport r) \<noteq> ld_ServerPort (sc_conf s) then Some s
        else if uint (tr_dport r) < uint (sc_srcPort s) \<or> uint (tr_dport r) \<ge> uint (sc_srcPort s) + uint (sc_portCount s) then Some s
        else if sc_targets s = [] then None
        else
          let seq = (ucast (tr_ack r - 1) :: u64)
          in case map_of (sc_stats s) (reply_target s seq) of
               None \<Rightarrow> Some s
             | Some k \<Rightarrow>
                 if tr_flags r AND SYN_flag \<noteq> 0 \<and> tr_flags r AND ACK_flag \<noteq> 0 then
                   map_option (\<lambda>proc. s\<lparr>sc_proc := proc\<rparr>) (call_stat (Stat_Received seq now now False) k (sc_proc s))
                 else if tr_flags r AND RST_flag \<noteq> 0 then
                   map_option (\<lambda>proc. s\<lparr>sc_proc := proc\<rparr>) (call_stat (Stat_ReceivedRST seq now 0) k (sc_proc s))
                 else Some s)"

text \<open>What a statistics line shows.\<close>

datatype lidar_line =
    ScanLine LogLevel int string string int int int int int
  | TimeoutPortsLine LogLevel int string string "(string, int) gomap"

definition LidarSender_Send :: "bool \<Rightarrow> StatResult \<Rightarrow> lidar_line list" where
  "LidarSender_Send verbose r =
     (let timeout = R_Loss r;
          line = (\<lambda>lvl. ScanLine lvl (R_Timestamp r) (R_ClientAddr r) (R_ServerAddr r) (R_Sent r) (R_Received r)
                           (R_SynAckCount r) (R_RSTCount r) timeout)
      in if timeout = 0 then [line INFO]
         else [line WARN] @
              (if verbose \<and> R_LossPortsCount r \<noteq> []
               then [TimeoutPortsLine WARN (R_Timestamp r) (R_ClientAddr r) (R_ServerAddr r) (R_LossPortsCount r)] else []))"

text \<open>The receive loop: what each read gave, \<open>None\<close> for a timeout or another error.\<close>

fun scanner_serveRecv :: "(int \<times> tcp_reply option) option list \<Rightarrow> Scanner \<Rightarrow> Scanner option" where
  "scanner_serveRecv [] s = Some s"
| "scanner_serveRecv (None # evs) s = scanner_serveRecv evs s"
| "scanner_serveRecv (Some (now, pkt) # evs) s =
     (case processParsedPacket now pkt s of None \<Rightarrow> None | Some s' \<Rightarrow> scanner_serveRecv evs s')"


section \<open>The capture filter\<close>

record BPFInstruction =
  bi_Code :: int
  bi_Jt :: nat
  bi_Jf :: nat
  bi_K :: u32

definition ins :: "int \<Rightarrow> u32 \<Rightarrow> BPFInstruction" where
  "ins code k = \<lparr>bi_Code = code, bi_Jt = 0, bi_Jf = 0, bi_K = k\<rparr>"

definition jmp :: "int \<Rightarrow> nat \<Rightarrow> nat \<Rightarrow> u32 \<Rightarrow> BPFInstruction" where
  "jmp code jt jf k = \<lparr>bi_Code = code, bi_Jt = jt, bi_Jf = jf, bi_K = k\<rparr>"

text \<open>The constants of the source: class, size, mode and operation are added up to a code.\<close>

definition buildBPFProbeFilter :: "int \<Rightarrow> u16 \<Rightarrow> u16 \<Rightarrow> BPFInstruction list" where
  "buildBPFProbeFilter serverPort srcPort portCount =
     (let bpfLD = 0x00; bpfSt = 0x02; bpfAlu = 0x04; bpfJmp = 0x05; bpfRet = 0x06; bpfMisc = 0x07;
          bpfH = 0x08; bpfB = 0x10; bpfAbs = 0x20; bpfInd = 0x40; bpfMem = 0x60;
          bpfK = 0x00; bpfAdd = 0x00; bpfMul = 0x20; bpfAnd = 0x50; bpfTax = 0x00; bpfJeq = 0x10; bpfJge = 0x30;
          sp = word_of_int serverPort; lp = ucast srcPort; hp = ucast (srcPort + portCount); off = 14
      in [ins (bpfLD OR bpfB OR bpfAbs) off,
          ins (bpfAlu OR bpfAnd OR bpfK) 0x0f,
          ins (bpfAlu OR bpfMul OR bpfK) 4,
          ins bpfSt 0,
          ins (bpfAlu OR bpfAdd OR bpfK) off,
          ins (bpfMisc OR bpfTax) 0,
          ins (bpfLD OR bpfH OR bpfInd) 0,
          jmp (bpfJmp OR bpfJeq OR bpfK) 0 6 sp,
          ins (bpfLD OR bpfMem) 0,
          ins (bpfAlu OR bpfAdd OR bpfK) off,
          ins (bpfMisc OR bpfTax) 0,
          ins (bpfLD OR bpfH OR bpfInd) 2,
          jmp (bpfJmp OR bpfJge OR bpfK) 0 1 lp,
          jmp (bpfJmp OR bpfJge OR bpfK) 0 1 hp,
          ins (bpfRet OR bpfK) 0,
          ins (bpfRet OR bpfK) 0x0000ffff])"

text \<open>The kernel's machine for these codes: registers A and X and the scratch memory. A load outside the
  frame, an unknown code and the end of the program reject.\<close>

function raw_exec :: "BPFInstruction list \<Rightarrow> u32 \<Rightarrow> u32 \<Rightarrow> (nat \<Rightarrow> u32) \<Rightarrow> byte list \<Rightarrow> u32" where
  "raw_exec [] a x mem pkt = 0"
| "raw_exec (i # prog) a x mem pkt =
     (let code = bi_Code i; k = bi_K i
      in if code = 0x30 then (case bpf_load pkt (unat k) 1 of None \<Rightarrow> 0 | Some v \<Rightarrow> raw_exec prog v x mem pkt)
         else if code = 0x48 then (case bpf_load pkt (unat x + unat k) 2 of None \<Rightarrow> 0 | Some v \<Rightarrow> raw_exec prog v x mem pkt)
         else if code = 0x60 then raw_exec prog (mem (unat k)) x mem pkt
         else if code = 0x02 then raw_exec prog a x (mem(unat k := a)) pkt
         else if code = 0x04 then raw_exec prog (a + k) x mem pkt
         else if code = 0x24 then raw_exec prog (a * k) x mem pkt
         else if code = 0x54 then raw_exec prog (a AND k) x mem pkt
         else if code = 0x07 then raw_exec prog a a mem pkt
         else if code = 0x15 then raw_exec (drop (if a = k then bi_Jt i else bi_Jf i) prog) a x mem pkt
         else if code = 0x35 then raw_exec (drop (if a \<ge> k then bi_Jt i else bi_Jf i) prog) a x mem pkt
         else if code = 0x06 then k
         else 0)"
  by pat_completeness auto
termination
  by (relation "measure (\<lambda>(prog, a, x, mem, pkt). length prog)") auto

lemma filter_program:
  "buildBPFProbeFilter serverPort srcPort portCount =
     [ins 0x30 14, ins 0x54 0x0f, ins 0x24 4, ins 0x02 0, ins 0x04 14, ins 0x07 0, ins 0x48 0,
      jmp 0x15 0 6 (word_of_int serverPort), ins 0x60 0, ins 0x04 14, ins 0x07 0, ins 0x48 2,
      jmp 0x35 0 1 (ucast srcPort), jmp 0x35 0 1 (ucast (srcPort + portCount)), ins 0x06 0, ins 0x06 0xffff]"
  by (simp add: buildBPFProbeFilter_def)

lemma filter_runs:
  assumes "bpf_load pkt 14 1 = Some b"
  defines "x \<equiv> (b AND 0x0f) * 4 + 14"
  shows "raw_exec (buildBPFProbeFilter serverPort srcPort portCount) 0 0 mem pkt \<noteq> 0 \<longleftrightarrow>
    bpf_load pkt (unat x) 2 = Some (word_of_int serverPort) \<and>
    (case bpf_load pkt (unat x + 2) 2 of None \<Rightarrow> False | Some p \<Rightarrow> ucast srcPort \<le> p \<and> p < ucast (srcPort + portCount))"
  using assms by (auto simp: filter_program ins_def jmp_def x_def not_le Let_def split: option.splits)

definition tcp_offset :: "byte list \<Rightarrow> nat" where
  "tcp_offset pkt = 14 + 4 * (unat (pkt ! 14) mod 16)"

lemma header_offset:
  fixes b :: byte
  shows "unat ((ucast b AND 0x0f) * 4 + 14 :: u32) = 14 + 4 * (unat b mod 16)"
proof -
  have m: "(0x0f :: u32) = mask 4" by (simp add: mask_eq_exp_minus_1)
  have "unat (ucast b AND 0x0f :: u32) = unat b mod 16"
    unfolding m take_bit_eq_mask [symmetric] unsigned_take_bit_eq
    by (simp add: take_bit_eq_mod unsigned_ucast_eq mod_mod_cancel)
  moreover have "unat b mod 16 < 16" by simp
  ultimately show ?thesis by (simp add: unat_word_ariths)
qed


definition demo_frame :: "byte list" where
  "demo_frame = replicate 12 0 @ [8, 0] @ 0x45 # replicate 19 0 @ [0x01, 0xBF, 0xD4, 0x40, 0, 0]"



section \<open>Replies are credited to the probed target\<close>

definition scanner_ok :: "Scanner \<Rightarrow> bool" where
  "scanner_ok s \<longleftrightarrow> sc_targets s \<noteq> [] \<and> distinct (sc_targets s) \<and> length (sc_targets s) \<le> length (p_stats (sc_proc s)) \<and>
     (\<forall>i<length (sc_targets s). map_of (sc_stats s) (sc_targets s ! i) = Some i)"

lemma scanner_stats_map:
  "distinct addrs \<Longrightarrow>
   length (p_stats (snd (scanner_stats conf addrs (m, proc)))) = length (p_stats proc) + length addrs \<and>
   (\<forall>i<length addrs. map_of (fst (scanner_stats conf addrs (m, proc))) (addrs ! i) = Some (length (p_stats proc) + i)) \<and>
   (\<forall>a. a \<notin> set addrs \<longrightarrow> map_of (fst (scanner_stats conf addrs (m, proc))) a = map_of m a)"
proof (induction addrs arbitrary: m proc)
  case (Cons addr addrs)
  define proc' where "proc' = AddStat (NewStat (ld_LocalAddr conf) addr
      \<lparr>pr_Min = ld_LocalPort conf, pr_Max = ld_LocalPort conf + ld_LocalPortCount conf - 1\<rparr>
      \<lparr>pr_Min = ld_ServerPort conf, pr_Max = ld_ServerPort conf\<rparr> (ld_Rate conf) (ld_Span conf) (ld_Delay conf) True) proc"
  have l: "length (p_stats proc') = Suc (length (p_stats proc))" by (simp add: proc'_def AddStat_def)
  have e: "scanner_stats conf (addr # addrs) (m, proc) = scanner_stats conf addrs (AList.update addr (length (p_stats proc)) m, proc')"
    by (simp add: Let_def proc'_def)
  show ?case unfolding e using Cons.IH [of "AList.update addr (length (p_stats proc)) m" proc'] Cons.prems
    by (auto simp: l nth_Cons update_conv' split: nat.splits)
qed simp

lemma NewScanner_ok:
  assumes "ld_TargetAddrs conf \<noteq> []" "distinct (ld_TargetAddrs conf)"
  shows "scanner_ok (NewScanner conf)"
  using scanner_stats_map [OF assms(2), of conf "[]" "NewProcessor (ld_Span conf) (ld_Delay conf)"] assms
  by (auto simp: NewScanner_def scanner_ok_def NewProcessor_def split: prod.splits)

text \<open>Nothing but the counters and the statistics changes while probing.\<close>

definition same_setup :: "Scanner \<Rightarrow> Scanner \<Rightarrow> bool" where
  "same_setup s s' \<longleftrightarrow> sc_conf s' = sc_conf s \<and> sc_targets s' = sc_targets s \<and> sc_seqStart s' = sc_seqStart s \<and>
     sc_srcPort s' = sc_srcPort s \<and> sc_portCount s' = sc_portCount s \<and> sc_stats s' = sc_stats s \<and>
     length (p_stats (sc_proc s')) = length (p_stats (sc_proc s))"

lemma same_setup_trans: "same_setup s s' \<Longrightarrow> same_setup s' s'' \<Longrightarrow> same_setup s s''"
  by (simp add: same_setup_def)

lemma probe_target_effect:
  assumes "probe_target port now io i s = Some (s', sent)"
  shows "same_setup s s' \<and> sc_seq s' = sc_seq s + 1 \<and> sc_currentPort s' = sc_currentPort s \<and>
    (sent = None \<or> sent = Some (sc_targets s ! i, port, ucast (sc_seq s + 1)))"
  using assms call_stat_length
  by (auto simp: probe_target_def Let_def same_setup_def split: if_splits option.splits)

lemma probe_targets_effect:
  "probe_targets port now ios js (s, cnt) = Some ((s', cnt'), wire) \<Longrightarrow>
   same_setup s s' \<and> sc_seq s' = sc_seq s + of_nat (length js) \<and> sc_currentPort s' = sc_currentPort s \<and>
   (\<forall>w\<in>set wire. \<exists>m<length js. w = (sc_targets s ! (js ! m), port, ucast (sc_seq s + of_nat m + 1)))"
proof (induction js arbitrary: s cnt wire)
  case Nil
  then show ?case by (simp add: same_setup_def)
next
  case (Cons j js)
  obtain s1 sent wire' where s1: "probe_target port now (ios j) j s = Some (s1, sent)"
    "probe_targets port now ios js (s1, if sent = None then cnt else cnt + 1) = Some ((s', cnt'), wire')"
    "wire = (case sent of None \<Rightarrow> [] | Some p \<Rightarrow> [p]) @ wire'"
    using Cons.prems by (auto split: option.splits)
  note p = probe_target_effect [OF s1(1)] and q = Cons.IH [OF s1(2)]
  have t: "sc_targets s1 = sc_targets s" using p by (simp add: same_setup_def)
  have "\<exists>m<length (j # js). w = (sc_targets s ! ((j # js) ! m), port, ucast (sc_seq s + of_nat m + 1))" if "w \<in> set wire" for w
  proof (cases "w \<in> set wire'")
    case True
    then obtain m where "m < length js" "w = (sc_targets s ! (js ! m), port, ucast (sc_seq s1 + of_nat m + 1))"
      using q t by auto
    then show ?thesis using p by (intro exI [of _ "Suc m"]) (simp add: algebra_simps)
  next
    case False
    then have "sent = Some w" using that s1(3) by (cases sent) auto
    then show ?thesis using p by (intro exI [of _ 0]) simp
  qed
  then show ?case using p q same_setup_trans by (auto simp: algebra_simps)
qed

definition ports_ok :: "Scanner \<Rightarrow> bool" where
  "ports_ok s \<longleftrightarrow> uint (sc_srcPort s) + uint (sc_portCount s) < 65536 \<and> uint (sc_srcPort s) \<le> uint (sc_currentPort s) \<and>
     uint (sc_currentPort s) < uint (sc_srcPort s) + uint (sc_portCount s)"

lemma next_port_cases:
  assumes "ports_ok s"
  shows "uint (sc_currentPort (next_port s)) =
    (if uint (sc_currentPort s) + 1 = uint (sc_srcPort s) + uint (sc_portCount s) then uint (sc_srcPort s)
     else uint (sc_currentPort s) + 1)"
proof -
  have "uint (sc_currentPort s + 1) = uint (sc_currentPort s) + 1"
    "uint (sc_srcPort s + sc_portCount s) = uint (sc_srcPort s) + uint (sc_portCount s)"
    using assms by (simp_all add: ports_ok_def uint_word_ariths)
  then show ?thesis using assms by (auto simp: next_port_def Let_def word_le_def ports_ok_def)
qed

lemma next_port_ok: "ports_ok s \<Longrightarrow> ports_ok (next_port s)"
  using next_port_cases [of s] by (auto simp: ports_ok_def next_port_def Let_def)

lemma next_port_setup: "same_setup s (next_port s)" "sc_seq (next_port s) = sc_seq s"
  by (simp_all add: next_port_def Let_def same_setup_def)

definition probe_of :: "Scanner \<Rightarrow> nat \<Rightarrow> string \<times> u16 \<times> u32 \<Rightarrow> bool" where
  "probe_of s k w \<longleftrightarrow> (\<exists>i p. i < length (sc_targets s) \<and> w = (sc_targets s ! i, p, ucast (sc_seq s + of_nat (k * length (sc_targets s) + i) + 1)) \<and>
     uint (sc_srcPort s) \<le> uint p \<and> uint p < uint (sc_srcPort s) + uint (sc_portCount s))"

lemma scan_round_effect:
  assumes "scan_round now ios (s, cnt) = Some ((s', cnt'), wire)" "ports_ok s"
  shows "same_setup s s'" "sc_seq s' = sc_seq s + of_nat (length (sc_targets s))" "ports_ok s'" "\<forall>w\<in>set wire. probe_of s 0 w"
proof -
  obtain s1 where s1: "probe_targets (sc_currentPort s) now ios [0..<length (sc_targets s)] (s, cnt) = Some ((s1, cnt'), wire)"
    "s' = next_port s1" using assms(1) by (auto simp: scan_round_def split: option.splits)
  note e = probe_targets_effect [OF s1(1)]
  have ok1: "ports_ok s1" using e assms(2) by (auto simp: ports_ok_def same_setup_def)
  show "same_setup s s'" "sc_seq s' = sc_seq s + of_nat (length (sc_targets s))" "ports_ok s'"
    using e next_port_setup [of s1] same_setup_trans next_port_ok [OF ok1] by (auto simp: s1(2))
  show "\<forall>w\<in>set wire. probe_of s 0 w"
  proof
    fix w assume "w \<in> set wire"
    then obtain m where "m < length (sc_targets s)"
      "w = (sc_targets s ! m, sc_currentPort s, ucast (sc_seq s + of_nat m + 1))" using e by fastforce
    then show "probe_of s 0 w" using assms(2) unfolding probe_of_def ports_ok_def
      by (intro exI [of _ m] exI [of _ "sc_currentPort s"]) simp
  qed
qed

lemma probe_of_later:
  assumes "probe_of s' k w" "same_setup s s'" "sc_seq s' = sc_seq s + of_nat (length (sc_targets s))"
  shows "probe_of s (Suc k) w"
  using assms by (auto simp: probe_of_def same_setup_def algebra_simps)

lemma scan_loop_effect:
  "scan_loop turns (s, cnt) = Some ((s', cnt'), wire) \<Longrightarrow> ports_ok s \<Longrightarrow>
   same_setup s s' \<and> (\<forall>w\<in>set wire. \<exists>k<length turns. probe_of s k w)"
proof (induction turns arbitrary: s cnt wire)
  case Nil
  then show ?case by (simp add: same_setup_def)
next
  case (Cons turn turns)
  obtain since ready now ios where turn: "turn = (since, ready, now, ios)" by (cases turn) auto
  consider "s' = s" "wire = []" | "scan_loop turns (s, cnt) = Some ((s', cnt'), wire)"
    | s1 cnt1 w1 w2 where "scan_round now ios (s, cnt) = Some ((s1, cnt1), w1)"
        "scan_loop turns (s1, cnt1) = Some ((s', cnt'), w2)" "wire = w1 @ w2"
    using Cons.prems(1) by (auto simp: turn split: if_splits option.splits)
  then show ?case
  proof cases
    case 1
    then show ?thesis by (simp add: same_setup_def)
  next
    case 2
    then show ?thesis using Cons.IH [OF 2 Cons.prems(2)] by (auto intro: less_SucI)
  next
    case 3
    note e = scan_round_effect [OF 3(1) Cons.prems(2)] and q = Cons.IH [OF 3(2) scan_round_effect(3) [OF 3(1) Cons.prems(2)]]
    have "\<exists>k<length (turn # turns). probe_of s k w" if wire: "w \<in> set wire" for w
    proof (cases "w \<in> set w1")
      case True
      then show ?thesis using e(4) by (intro exI [of _ 0]) simp
    next
      case False
      then obtain k where "k < length turns" "probe_of s1 k w" using wire q 3(3) by auto
      then have "Suc k < length (turn # turns)" "probe_of s (Suc k) w" using probe_of_later [OF _ e(1,2)] by simp_all
      then show ?thesis by blast
    qed
    then show ?thesis using q e(1) same_setup_trans by blast
  qed
qed

lemma ack_sequence:
  assumes "x + 1 < 2 ^ 32"
  shows "(ucast (ucast (of_nat x + 1 :: u64) :: u32) :: u64) = of_nat x + 1"
proof -
  have "unat (of_nat (Suc x) :: u64) = Suc x" using assms by (simp add: unsigned_of_nat take_bit_nat_eq_self del: of_nat_Suc)
  then have "unat (ucast (ucast (of_nat (Suc x) :: u64) :: u32) :: u64) = unat (of_nat (Suc x) :: u64)"
    using assms by (simp add: unsigned_ucast_eq unsigned_take_bit_eq take_bit_nat_eq_self del: of_nat_Suc)
  then have "(ucast (ucast (of_nat (Suc x) :: u64) :: u32) :: u64) = of_nat (Suc x)" by (rule unsigned_word_eqI)
  then show ?thesis by (simp add: add.commute)
qed

lemma credited_index:
  fixes n k i :: nat
  assumes "i < n" "k * n + i + 1 < 2 ^ 32" "n < 2 ^ 32"
  shows "unat ((of_nat (k * n + i) :: u64) mod of_nat n) = i"
proof -
  have "unat (of_nat x :: u64) = x" if "x < 2 ^ 32" for x
    using that by (simp add: unsigned_of_nat take_bit_nat_eq_self)
  then have "unat ((of_nat (k * n + i) :: u64) mod of_nat n) = (k * n + i) mod n"
    using assms(2,3) unfolding unat_mod by (simp del: of_nat_add of_nat_mult)
  then show ?thesis using assms(1) by simp
qed

text \<open>The two kinds of answers and how they are booked.\<close>

definition is_synack :: "byte \<Rightarrow> bool" where
  "is_synack fl \<longleftrightarrow> fl AND SYN_flag \<noteq> 0 \<and> fl AND ACK_flag \<noteq> 0"

definition is_answer :: "byte \<Rightarrow> bool" where
  "is_answer fl \<longleftrightarrow> is_synack fl \<or> fl AND RST_flag \<noteq> 0"

definition booking :: "byte \<Rightarrow> u64 \<Rightarrow> int \<Rightarrow> udpStat \<Rightarrow> udpStat option" where
  "booking fl seq now = (if is_synack fl then Stat_Received seq now now False else Stat_ReceivedRST seq now 0)"

text \<open>
  C22. Every answer is booked for the target that was probed: in a run over distinct targets whose port
  range does not reach 65536 and with fewer than 2^32 probes, a SYN-ACK from the server port to the
  source port of a probe, acknowledging its sequence number, is recorded with the statistics of the
  probe's target and under the probe's sequence number, and a RST is recorded there as a refusal.
\<close>

theorem lidar_reply_credited:
  assumes "scanner_Run turns (NewScanner conf) = Some ((s, cnt), wire)" "(target, port, sq) \<in> set wire"
    and "ld_TargetAddrs conf \<noteq> []" "distinct (ld_TargetAddrs conf)"
    and "0 < ld_LocalPort conf" "0 < ld_LocalPortCount conf" "ld_LocalPort conf + ld_LocalPortCount conf < 65536"
    and "length turns * length (ld_TargetAddrs conf) < 2 ^ 32 - length (ld_TargetAddrs conf)" "length (ld_TargetAddrs conf) < 2 ^ 32"
    and "uint sport = ld_ServerPort conf" "is_answer fl"
  shows "\<exists>i<length (ld_TargetAddrs conf). target = ld_TargetAddrs conf ! i \<and>
    processParsedPacket now (Some \<lparr>tr_sport = sport, tr_dport = port, tr_flags = fl, tr_ack = sq + 1\<rparr>) s =
      map_option (\<lambda>proc. s\<lparr>sc_proc := proc\<rparr>) (call_stat (booking fl (ucast sq) now) i (sc_proc s))"
proof -
  define s0 where "s0 = NewScanner conf"
  let ?n = "length (ld_TargetAddrs conf)"
  have f: "sc_targets s0 = ld_TargetAddrs conf" "sc_seq s0 = 0" "sc_seqStart s0 = 0" "sc_conf s0 = conf"
    "sc_srcPort s0 = word_of_int (ld_LocalPort conf)" "sc_portCount s0 = word_of_int (ld_LocalPortCount conf)"
    "sc_currentPort s0 = word_of_int (ld_LocalPort conf)"
    by (simp_all add: s0_def NewScanner_def split: prod.splits)
  then have "s0\<lparr>sc_seqStart := sc_seq s0\<rparr> = s0" by simp
  then have loop: "scan_loop turns (s0, 0) = Some ((s, cnt), wire)" using assms(1) by (simp add: scanner_Run_def s0_def)
  have "ports_ok s0" using assms(5-7) by (simp add: ports_ok_def f uint_of_int_id)
  note e = scan_loop_effect [OF loop this]
  have ok: "scanner_ok s" using NewScanner_ok [OF assms(3,4)] e by (simp add: scanner_ok_def same_setup_def s0_def)
  obtain k i where ki: "k < length turns" "i < ?n" "target = ld_TargetAddrs conf ! i"
    "sq = ucast (of_nat (k * ?n + i) + 1 :: u64)" "uint (sc_srcPort s0) \<le> uint port"
    "uint port < uint (sc_srcPort s0) + uint (sc_portCount s0)"
    using e assms(2) unfolding probe_of_def f by fastforce
  have "k * ?n + ?n \<le> length turns * ?n" using ki(1) mult_le_mono1 [of "Suc k" "length turns" ?n] by simp
  then have small: "k * ?n + i + 1 < 2 ^ 32" using assms(8) ki(2) by linarith
  have t: "sc_targets s = ld_TargetAddrs conf" "sc_seqStart s = 0" "sc_conf s = conf" "sc_srcPort s = sc_srcPort s0"
    "sc_portCount s = sc_portCount s0" using e f by (simp_all add: same_setup_def)
  have "reply_target s (ucast sq) = ld_TargetAddrs conf ! i"
    using ack_sequence [OF small] credited_index [OF ki(2) small assms(9)] by (simp add: reply_target_def t ki(4))
  moreover have "map_of (sc_stats s) (ld_TargetAddrs conf ! i) = Some i" using ok ki(2) by (simp add: scanner_ok_def t)
  ultimately show ?thesis using ki assms(3,10,11)
    by (intro exI [of _ i]) (auto simp: processParsedPacket_def t Let_def is_answer_def is_synack_def booking_def)
qed

definition demo_lidar :: lidar_Config where
  "demo_lidar = \<lparr>ld_TargetAddrs = [''a'', ''b''], ld_ServerPort = 447, ld_LocalAddr = ''c'', ld_LocalPort = 54321,
     ld_LocalPortCount = 100, ld_Rate = 10, ld_Span = 1000, ld_Delay = 3000, ld_Count = 0, ld_SendDuration = 0,
     ld_Interface = ''eth0'', ld_Verbose = False\<rparr>"

definition demo_turns :: "(int \<times> bool \<times> int \<times> (nat \<Rightarrow> syn_io)) list" where
  "demo_turns = [(0, True, 5000, \<lambda>_. \<lparr>sy_build_ok = True, sy_send_ok = True\<rparr>)]"

definition demo_scan :: "(Scanner \<times> int) \<times> (string \<times> u16 \<times> u32) list" where
  "demo_scan = the (scanner_Run demo_turns (NewScanner demo_lidar))"

lemma demo_scan_run:
  "scanner_Run demo_turns (NewScanner demo_lidar) = Some ((fst (fst demo_scan), snd (fst demo_scan)), snd demo_scan)"
proof -
  have "scanner_Run demo_turns (NewScanner demo_lidar) \<noteq> None" by code_simp
  then show ?thesis by (auto simp: demo_scan_def)
qed

theorem lidar_reply_credited_witness:
  "\<exists>i<length (ld_TargetAddrs demo_lidar). ''b'' = ld_TargetAddrs demo_lidar ! i \<and>
     processParsedPacket 5100 (Some \<lparr>tr_sport = 447, tr_dport = 54321, tr_flags = 0x12, tr_ack = 2 + 1\<rparr>) (fst (fst demo_scan)) =
       map_option (\<lambda>proc. (fst (fst demo_scan))\<lparr>sc_proc := proc\<rparr>)
         (call_stat (booking 0x12 (ucast (2 :: u32)) 5100) i (sc_proc (fst (fst demo_scan))))"
proof (rule lidar_reply_credited [OF demo_scan_run])
  have "snd demo_scan = [(''a'', 54321, 1), (''b'', 54321, 2)]" by code_simp
  then show "(''b'', 54321, 2) \<in> set (snd demo_scan)" by simp
qed (simp_all add: demo_lidar_def demo_turns_def is_answer_def is_synack_def SYN_flag_def ACK_flag_def)

text \<open>The counter on the wire has 32 bits: after 2^32 probes the credit is wrong unless the number of targets
  divides 2^32.\<close>

lemma credit_wrong_after_wrap:
  assumes "sc_seqStart s = 0" "length (sc_targets s) = 3" "distinct (sc_targets s)"
  shows "reply_target s (ucast (ucast (2 ^ 32 + 1 :: u64) :: u32)) = sc_targets s ! 0"
    "reply_target s (2 ^ 32 + 1) = sc_targets s ! 1"
  using assms by (simp_all add: reply_target_def)

text \<open>With a port range that ends at 65535 the rotation never leaves the first port.\<close>

lemma rotation_stuck:
  assumes "uint (sc_srcPort s) + uint (sc_portCount s) = 65536"
  shows "sc_currentPort (next_port s) = sc_srcPort s"
proof -
  have "sc_srcPort s + sc_portCount s = 0"
    using assms by (intro unsigned_word_eqI [where ?'a = int]) (simp add: uint_word_ariths)
  then show ?thesis by (simp add: next_port_def Let_def)
qed

end
