(* ===== verification/Rotate_Writer.thy ===== *)
theory Rotate_Writer
  imports Go_Strings
begin

text \<open>
  The rotating log writer, \<open>util/rotate_writer.go\<close>, over a model of the log directory: names bound to files or
  symbolic links, and file contents apart from names, so that an open file stays writable when its name is
  removed. The calendar (\<open>Time.Format\<close> and \<open>Time.AddDate\<close>) is an argument; clock readings and the success of
  system calls are inputs of a step.
\<close>

section \<open>The directory\<close>

datatype dir_entry = File nat | Symlink string int

record file_data =
  fd_content :: "byte list"
  fd_mtime :: int

record directory =
  d_names :: "(string, dir_entry) gomap"
  d_files :: "file_data list"

text \<open>\<open>os.OpenFile\<close> with \<open>O_CREATE|O_WRONLY|O_APPEND\<close>: it follows a link, and creates what is missing.\<close>

definition open_name :: "int \<Rightarrow> string \<Rightarrow> directory \<Rightarrow> directory \<times> nat" where
  "open_name now name d =
     (case map_of (d_names d) name of
        Some (File i) \<Rightarrow> (d, i)
      | _ \<Rightarrow> (d\<lparr>d_names := AList.update name (File (length (d_files d))) (d_names d),
                d_files := d_files d @ [\<lparr>fd_content = [], fd_mtime = now\<rparr>]\<rparr>, length (d_files d)))"

definition OpenFile :: "int \<Rightarrow> string \<Rightarrow> directory \<Rightarrow> directory \<times> nat" where
  "OpenFile now name d =
     (case map_of (d_names d) name of
        Some (Symlink target _) \<Rightarrow> open_name now target d
      | _ \<Rightarrow> open_name now name d)"

definition os_Remove :: "string \<Rightarrow> directory \<Rightarrow> directory" where
  "os_Remove name d = d\<lparr>d_names := AList.delete name (d_names d)\<rparr>"

definition os_Symlink :: "int \<Rightarrow> string \<Rightarrow> string \<Rightarrow> directory \<Rightarrow> directory" where
  "os_Symlink now target link d =
     (if map_of (d_names d) link = None then d\<lparr>d_names := AList.update link (Symlink target now) (d_names d)\<rparr> else d)"

definition file_Write :: "int \<Rightarrow> nat \<Rightarrow> byte list \<Rightarrow> directory \<Rightarrow> directory" where
  "file_Write now i p d =
     d\<lparr>d_files := (d_files d)[i := \<lparr>fd_content = fd_content (d_files d ! i) @ p, fd_mtime = now\<rparr>]\<rparr>"

definition ModTime :: "directory \<Rightarrow> dir_entry \<Rightarrow> int" where
  "ModTime d e = (case e of File i \<Rightarrow> fd_mtime (d_files d ! i) | Symlink _ t \<Rightarrow> t)"


section \<open>The writer\<close>

record RotateWriter =
  w_dir :: string
  w_prefix :: string
  w_maxAgeDays :: int
  w_file :: "nat option"
  w_date :: string

datatype rotate_error = DirEmpty | PrefixEmpty | MkdirFailed | OpenFailed | FileNotOpen | WriteFailed

record calendar =
  cal_format :: "int \<Rightarrow> string"
  cal_addDays :: "int \<Rightarrow> int \<Rightarrow> int"

definition NewRotateWriter :: "bool \<Rightarrow> string \<Rightarrow> string \<Rightarrow> int \<Rightarrow> rotate_error + RotateWriter" where
  "NewRotateWriter mkdir_ok dir prefix maxAgeDays =
     (if dir = [] then Inl DirEmpty
      else if prefix = [] then Inl PrefixEmpty
      else if \<not> mkdir_ok then Inl MkdirFailed
      else Inr \<lparr>w_dir = dir, w_prefix = prefix, w_maxAgeDays = maxAgeDays, w_file = None, w_date = []\<rparr>)"

definition HasPrefix :: "string \<Rightarrow> string \<Rightarrow> bool" where
  "HasPrefix s pre \<longleftrightarrow> take (length pre) s = pre"

definition prunable :: "RotateWriter \<Rightarrow> int \<Rightarrow> directory \<Rightarrow> string \<Rightarrow> dir_entry \<Rightarrow> bool" where
  "prunable w cutoff d name e \<longleftrightarrow> HasPrefix name (w_prefix w @ ''.'') \<and> \<not> ModTime d e > cutoff"

definition clean :: "calendar \<Rightarrow> int \<Rightarrow> RotateWriter \<Rightarrow> directory \<Rightarrow> directory" where
  "clean cal now w d =
     (if w_maxAgeDays w \<le> 0 then d
      else fold (\<lambda>(name, e) d'. if prunable w (cal_addDays cal now (- w_maxAgeDays w)) d name e then os_Remove name d' else d')
             (d_names d) d)"

text \<open>The inputs of a write: the clock at its two readings, and whether opening and writing succeed.\<close>

record write_io =
  wi_now :: int
  wi_cleanNow :: int
  wi_open_ok :: bool
  wi_write_ok :: bool

definition day_file :: "RotateWriter \<Rightarrow> string \<Rightarrow> string" where
  "day_file w today = w_prefix w @ ''.'' @ today"

definition rotate_file :: "calendar \<Rightarrow> write_io \<Rightarrow> string \<Rightarrow> RotateWriter \<Rightarrow> directory \<Rightarrow> (RotateWriter \<times> directory) \<times> rotate_error option" where
  "rotate_file cal io today w d =
     (if \<not> wi_open_ok io then ((w\<lparr>w_file := None, w_date := []\<rparr>, d), Some OpenFailed)
      else
        let (d1, f) = OpenFile (wi_now io) (day_file w today) d;
            w1 = w\<lparr>w_file := Some f, w_date := today\<rparr>;
            d2 = os_Symlink (wi_now io) (day_file w today) (w_prefix w) (os_Remove (w_prefix w) d1)
        in ((w1, clean cal (wi_cleanNow io) w1 d2), None))"

definition rw_Write :: "calendar \<Rightarrow> write_io \<Rightarrow> byte list \<Rightarrow> RotateWriter \<times> directory \<Rightarrow>
    (RotateWriter \<times> directory) \<times> (rotate_error + nat)" where
  "rw_Write cal io p s =
     (case s of (w, d) \<Rightarrow>
        let today = cal_format cal (wi_now io);
            (s1, err) = (if today \<noteq> w_date w then rotate_file cal io today w d else ((w, d), None))
        in case err of
             Some e \<Rightarrow> (s1, Inl e)
           | None \<Rightarrow>
               (case w_file (fst s1) of
                  None \<Rightarrow> (s1, Inl FileNotOpen)
                | Some f \<Rightarrow>
                    if wi_write_ok io then ((fst s1, file_Write (wi_now io) f p (snd s1)), Inr (length p))
                    else (s1, Inl WriteFailed)))"

definition rw_Close :: "RotateWriter \<Rightarrow> RotateWriter" where
  "rw_Close w = (case w_file w of None \<Rightarrow> w | Some f \<Rightarrow> w\<lparr>w_file := None\<rparr>)"

fun rw_run :: "calendar \<Rightarrow> (write_io \<times> byte list) list \<Rightarrow> RotateWriter \<times> directory \<Rightarrow> RotateWriter \<times> directory" where
  "rw_run cal [] s = s"
| "rw_run cal ((io, p) # ws) s = rw_run cal ws (fst (rw_Write cal io p s))"


section \<open>After closing\<close>

text \<open>
  A closed writer does not come back on the same day. The comment on \<open>Close\<close> says that later writes reopen a
  fresh file; the date is kept, so every write of the day on which the writer was closed fails and changes
  nothing.
\<close>

theorem write_after_close_fails:
  assumes "cal_format cal (wi_now io) = w_date w"
  shows "rw_Write cal io p (rw_Close w, d) = ((rw_Close w, d), Inl FileNotOpen)"
  using assms by (auto simp: rw_Write_def rw_Close_def split: option.splits)

theorem write_after_close_fails_witness:
  "rw_Write \<lparr>cal_format = (\<lambda>_. ''20240101''), cal_addDays = (+)\<rparr> \<lparr>wi_now = 5, wi_cleanNow = 5, wi_open_ok = True, wi_write_ok = True\<rparr> [1]
     (rw_Close \<lparr>w_dir = ''d'', w_prefix = ''p'', w_maxAgeDays = 7, w_file = Some 0, w_date = ''20240101''\<rparr>, \<lparr>d_names = [], d_files = []\<rparr>)
   = ((rw_Close \<lparr>w_dir = ''d'', w_prefix = ''p'', w_maxAgeDays = 7, w_file = Some 0, w_date = ''20240101''\<rparr>, \<lparr>d_names = [], d_files = []\<rparr>),
      Inl FileNotOpen)"
  by (rule write_after_close_fails) simp


section \<open>Pruning\<close>

text \<open>Removing in a fold: a name goes when its entry is selected.\<close>

lemma fold_Remove:
  "map_ok es \<Longrightarrow> map_of (d_names (fold (\<lambda>(name, e) d'. if Q name e then os_Remove name d' else d') es d)) n =
     (if \<exists>e. map_of es n = Some e \<and> Q n e then None else map_of (d_names d) n)"
  "d_files (fold (\<lambda>(name, e) d'. if Q name e then os_Remove name d' else d') es d) = d_files d"
  "map_ok (d_names d) \<Longrightarrow> map_ok (d_names (fold (\<lambda>(name, e) d'. if Q name e then os_Remove name d' else d') es d))"
proof (induction es arbitrary: d)
  case (Cons x es)
  obtain m e where x: "x = (m, e)" by (cases x)
  {
    case 1
    then have es: "map_ok es" "m \<notin> fst ` set es" by (auto simp: map_ok_def x)
    then have "map_of es m = None" by (simp add: map_of_eq_None_iff)
    then show ?case using Cons.IH(1) [OF es(1)] by (auto simp: x os_Remove_def delete_conv')
  next
    case 2
    show ?case using Cons.IH(2) by (auto simp: x os_Remove_def)
  next
    case 3
    then show ?case using Cons.IH(3) by (auto simp: x os_Remove_def)
  }
qed auto

lemma clean_names:
  assumes "map_ok (d_names d)"
  shows "map_of (d_names (clean cal now w d)) n =
      (if 0 < w_maxAgeDays w \<and> (\<exists>e. map_of (d_names d) n = Some e \<and> prunable w (cal_addDays cal now (- w_maxAgeDays w)) d n e)
       then None else map_of (d_names d) n)"
    "d_files (clean cal now w d) = d_files d" "map_ok (d_names (clean cal now w d))"
  using assms fold_Remove [where es = "d_names d" and d = d and Q = "prunable w (cal_addDays cal now (- w_maxAgeDays w)) d"]
  by (auto simp: clean_def)

section \<open>Writing\<close>

text \<open>Every name of a file has its own contents.\<close>

definition dir_ok :: "directory \<Rightarrow> bool" where
  "dir_ok d \<longleftrightarrow> map_ok (d_names d) \<and>
     (\<forall>n i. map_of (d_names d) n = Some (File i) \<longrightarrow> i < length (d_files d)) \<and>
     (\<forall>n n' i. map_of (d_names d) n = Some (File i) \<longrightarrow> map_of (d_names d) n' = Some (File i) \<longrightarrow> n' = n)"

definition content :: "directory \<Rightarrow> string \<Rightarrow> byte list" where
  "content d n = (case map_of (d_names d) n of Some (File i) \<Rightarrow> fd_content (d_files d ! i) | _ \<Rightarrow> [])"

text \<open>The writer's view: closed with no date, or open on the file of its date, to which the link points.\<close>

definition rw_inv :: "RotateWriter \<Rightarrow> directory \<Rightarrow> bool" where
  "rw_inv w d \<longleftrightarrow> dir_ok d \<and>
     (case w_file w of
        None \<Rightarrow> w_date w = []
      | Some f \<Rightarrow> map_of (d_names d) (day_file w (w_date w)) = Some (File f) \<and>
          (\<exists>t. map_of (d_names d) (w_prefix w) = Some (Symlink (day_file w (w_date w)) t)))"

definition no_link :: "RotateWriter \<Rightarrow> directory \<Rightarrow> bool" where
  "no_link w d \<longleftrightarrow> (\<forall>day target t. map_of (d_names d) (day_file w day) \<noteq> Some (Symlink target t))"

lemma day_file_neq [simp]: "day_file w day \<noteq> w_prefix w" "w_prefix w \<noteq> day_file w day"
  by (auto simp: day_file_def)

lemma day_file_inject [simp]: "day_file w a = day_file w b \<longleftrightarrow> a = b"
  by (simp add: day_file_def)

lemma open_day:
  assumes "dir_ok d" "no_link w d"
  obtains d1 f where "OpenFile now (day_file w day) d = (d1, f)" "dir_ok d1" "no_link w d1"
    "map_of (d_names d1) (day_file w day) = Some (File f)" "\<And>n. content d1 n = content d n"
    "\<And>n. n \<noteq> day_file w day \<Longrightarrow> map_of (d_names d1) n = map_of (d_names d) n"
    "fd_mtime (d_files d1 ! f) = now \<or> map_of (d_names d) (day_file w day) = Some (File f) \<and> d1 = d"
    "\<forall>x \<in> set (d_files d1). fd_mtime x = now \<or> x \<in> set (d_files d)"
proof (cases "map_of (d_names d) (day_file w day)")
  case None
  let ?d = "d\<lparr>d_names := AList.update (day_file w day) (File (length (d_files d))) (d_names d),
                d_files := d_files d @ [\<lparr>fd_content = [], fd_mtime = now\<rparr>]\<rparr>"
  show ?thesis
  proof (rule that)
    show "OpenFile now (day_file w day) d = (?d, length (d_files d))" using None by (simp add: OpenFile_def open_name_def)
    show "dir_ok ?d" using assms(1) unfolding dir_ok_def by (auto simp: update_conv' less_Suc_eq split: if_splits)
    show "no_link w ?d" using assms(2) unfolding no_link_def by (auto simp: update_conv' split: if_splits)
    show "content ?d n = content d n" for n
      using assms(1) None unfolding content_def dir_ok_def
      by (auto simp: update_conv' nth_append split: option.splits dir_entry.splits)
  qed (auto simp: update_conv')
next
  case (Some e)
  then obtain f where "e = File f" using assms(2) by (cases e) (auto simp: no_link_def)
  then show ?thesis using that [of d f] assms Some by (simp add: OpenFile_def open_name_def)
qed

lemma relink:
  fixes now :: int and target :: string
  assumes "dir_ok d" "no_link w d"
  defines "d' \<equiv> os_Symlink now target (w_prefix w) (os_Remove (w_prefix w) d)"
  shows "map_of (d_names d') (w_prefix w) = Some (Symlink target now)"
    "n \<noteq> w_prefix w \<Longrightarrow> map_of (d_names d') n = map_of (d_names d) n" "d_files d' = d_files d"
    "dir_ok d'" "no_link w d'"
proof -
  have d': "d_names d' = AList.update (w_prefix w) (Symlink target now) (AList.delete (w_prefix w) (d_names d))" "d_files d' = d_files d"
    by (simp_all add: d'_def os_Symlink_def os_Remove_def delete_conv')
  show "map_of (d_names d') (w_prefix w) = Some (Symlink target now)" "d_files d' = d_files d"
    "n \<noteq> w_prefix w \<Longrightarrow> map_of (d_names d') n = map_of (d_names d) n"
    by (simp_all add: d' update_conv' delete_conv')
  show "dir_ok d'" using assms(1) unfolding dir_ok_def d' by (auto simp: update_conv' delete_conv' split: if_splits)
  show "no_link w d'" using assms(2) unfolding no_link_def d' by (simp add: update_conv' delete_conv')
qed

text \<open>The conditions under which the file of the day survives the pruning that follows its opening.\<close>

definition day_file_young :: "calendar \<Rightarrow> write_io \<Rightarrow> string \<Rightarrow> RotateWriter \<Rightarrow> directory \<Rightarrow> bool" where
  "day_file_young cal io today w d \<longleftrightarrow> w_maxAgeDays w \<le> 0 \<or>
     cal_addDays cal (wi_cleanNow io) (- w_maxAgeDays w) < wi_now io \<and>
     (\<forall>f. map_of (d_names d) (day_file w today) = Some (File f) \<longrightarrow>
        cal_addDays cal (wi_cleanNow io) (- w_maxAgeDays w) < fd_mtime (d_files d ! f))"

text \<open>The conditions under which the pruning removes nothing.\<close>

definition nothing_old :: "calendar \<Rightarrow> write_io \<Rightarrow> RotateWriter \<Rightarrow> directory \<Rightarrow> bool" where
  "nothing_old cal io w d \<longleftrightarrow> w_maxAgeDays w \<le> 0 \<or>
     cal_addDays cal (wi_cleanNow io) (- w_maxAgeDays w) < wi_now io \<and>
     (\<forall>x \<in> set (d_files d). cal_addDays cal (wi_cleanNow io) (- w_maxAgeDays w) < fd_mtime x)"

lemma nothing_old_young: "dir_ok d \<Longrightarrow> nothing_old cal io w d \<Longrightarrow> day_file_young cal io today w d"
  by (auto simp: nothing_old_def day_file_young_def dir_ok_def)

lemma prefix_day_file: "HasPrefix n (w_prefix w @ ''.'') \<Longrightarrow> \<exists>day. n = day_file w day"
  using append_take_drop_id [of "length (w_prefix w @ ''.'')" n]
  by (intro exI [of _ "drop (length (w_prefix w @ ''.'')) n"]) (simp add: HasPrefix_def day_file_def)

lemma clean_keeps:
  assumes "dir_ok d" "no_link w d" "w_maxAgeDays w \<le> 0 \<or> (\<forall>x \<in> set (d_files d). cal_addDays cal now (- w_maxAgeDays w) < fd_mtime x)"
  shows "map_of (d_names (clean cal now w d)) n = map_of (d_names d) n"
proof -
  have "\<not> prunable w (cal_addDays cal now (- w_maxAgeDays w)) d n e" if h: "map_of (d_names d) n = Some e" "0 < w_maxAgeDays w" for e
  proof
    assume p: "prunable w (cal_addDays cal now (- w_maxAgeDays w)) d n e"
    then obtain i where "e = File i"
      using prefix_day_file [of n w] h(1) assms(2) by (cases e) (auto simp: prunable_def no_link_def)
    then show False using h assms(1,3) p by (fastforce simp: prunable_def ModTime_def dir_ok_def)
  qed
  then show ?thesis using clean_names(1) [of d cal now w n] assms(1) by (auto simp: dir_ok_def)
qed

lemma rotate_opens:
  assumes "dir_ok d" "no_link w d" "wi_open_ok io" "day_file_young cal io today w d"
  obtains w' d' f where "rotate_file cal io today w d = ((w', d'), None)" "w' = w\<lparr>w_file := Some f, w_date := today\<rparr>"
    "rw_inv w' d'" "no_link w d'" "content d' (day_file w today) = content d (day_file w today)"
    "\<And>n. n \<noteq> w_prefix w \<Longrightarrow> nothing_old cal io w d \<Longrightarrow> content d' n = content d n"
    "\<forall>x \<in> set (d_files d'). fd_mtime x = wi_now io \<or> x \<in> set (d_files d)"
proof -
  obtain d1 f where o: "OpenFile (wi_now io) (day_file w today) d = (d1, f)" "dir_ok d1" "no_link w d1"
    "map_of (d_names d1) (day_file w today) = Some (File f)" "\<And>n. content d1 n = content d n"
    "\<And>n. n \<noteq> day_file w today \<Longrightarrow> map_of (d_names d1) n = map_of (d_names d) n"
    "fd_mtime (d_files d1 ! f) = wi_now io \<or> map_of (d_names d) (day_file w today) = Some (File f) \<and> d1 = d"
    "\<forall>x \<in> set (d_files d1). fd_mtime x = wi_now io \<or> x \<in> set (d_files d)"
    using open_day [OF assms(1,2), of "wi_now io" today] by metis
  let ?w = "w\<lparr>w_file := Some f, w_date := today\<rparr>"
  let ?d2 = "os_Symlink (wi_now io) (day_file w today) (w_prefix w) (os_Remove (w_prefix w) d1)"
  let ?d3 = "clean cal (wi_cleanNow io) ?w ?d2"
  note r = relink [OF o(2,3), where now = "wi_now io" and target = "day_file w today"]
  have ok2: "map_ok (d_names ?d2)" using r(4) by (simp add: dir_ok_def)
  note c = clean_names [OF ok2, of cal "wi_cleanNow io" ?w]
  have day2: "map_of (d_names ?d2) (day_file w today) = Some (File f)" using r(2) o(4) by simp
  have mt: "0 < w_maxAgeDays w \<Longrightarrow> cal_addDays cal (wi_cleanNow io) (- w_maxAgeDays w) < fd_mtime (d_files ?d2 ! f)"
    using assms(4) o(7) r(3) unfolding day_file_young_def by auto
  then have day3: "map_of (d_names ?d3) (day_file w today) = Some (File f)"
    using day2 unfolding c(1) by (auto simp: prunable_def ModTime_def)
  have "\<not> HasPrefix (w_prefix w) (w_prefix w @ ''.'')" by (auto simp: HasPrefix_def)
  then have link3: "map_of (d_names ?d3) (w_prefix w) = Some (Symlink (day_file w today) (wi_now io))"
    unfolding c(1) using r(1) by (simp add: prunable_def)
  have sub: "map_of (d_names ?d3) n = Some e \<Longrightarrow> map_of (d_names ?d2) n = Some e" for n e
    unfolding c(1) by (auto split: if_splits)
  have ok3: "dir_ok ?d3" using r(4) c(2,3) unfolding dir_ok_def by (metis sub)
  have nl3: "no_link w ?d3" using r(5) unfolding no_link_def by (metis sub)
  have inv: "rw_inv ?w ?d3" using ok3 day3 link3 by (simp add: rw_inv_def day_file_def)
  have "content ?d3 (day_file w today) = content d (day_file w today)"
    using day3 c(2) r(3) o(4,5) by (metis content_def option.simps(5) dir_entry.simps(5))
  moreover have "content ?d3 n = content d n" if "n \<noteq> w_prefix w" "nothing_old cal io w d" for n
  proof -
    have "no_link ?w ?d2" using r(5) by (simp add: no_link_def day_file_def)
    moreover have "w_maxAgeDays ?w \<le> 0 \<or> (\<forall>x \<in> set (d_files ?d2). cal_addDays cal (wi_cleanNow io) (- w_maxAgeDays ?w) < fd_mtime x)"
      using that(2) o(8) unfolding nothing_old_def r(3) by auto
    ultimately have "map_of (d_names ?d3) n = map_of (d_names d1) n" using clean_keeps [OF r(4)] r(2) that(1) by simp
    then have "content ?d3 n = content d1 n" unfolding content_def c(2) r(3) by simp
    then show ?thesis using o(5) by simp
  qed
  moreover have "rotate_file cal io today w d = ((?w, ?d3), None)"
    using o(1) assms(3) by (simp add: rotate_file_def Let_def)
  moreover have "\<forall>x \<in> set (d_files ?d3). fd_mtime x = wi_now io \<or> x \<in> set (d_files d)" using o(8) unfolding c(2) r(3) .
  ultimately show ?thesis using that inv nl3 by blast
qed

lemma file_Write_content:
  assumes "dir_ok d" "map_of (d_names d) n = Some (File f)"
  shows "content (file_Write now f p d) n = content d n @ p" "n' \<noteq> n \<Longrightarrow> content (file_Write now f p d) n' = content d n'"
    "dir_ok (file_Write now f p d)" "d_names (file_Write now f p d) = d_names d"
proof -
  show names: "d_names (file_Write now f p d) = d_names d" by (simp add: file_Write_def)
  have f: "f < length (d_files d)" using assms by (auto simp: dir_ok_def)
  then show "content (file_Write now f p d) n = content d n @ p"
    using assms(2) by (simp add: content_def file_Write_def)
  show "content (file_Write now f p d) n' = content d n'" if "n' \<noteq> n"
  proof -
    have "map_of (d_names d) n' \<noteq> Some (File f)" using that assms unfolding dir_ok_def by blast
    then show ?thesis unfolding content_def names
      by (auto simp: file_Write_def nth_list_update split: option.splits dir_entry.splits)
  qed
  show "dir_ok (file_Write now f p d)" using assms(1) by (simp add: dir_ok_def file_Write_def)
qed

lemma write_reaches:
  assumes "rw_inv w d" "no_link w d" "wi_open_ok io" "wi_write_ok io" "cal_format cal (wi_now io) = today" "today \<noteq> []"
    and "day_file_young cal io today w d"
  shows "\<exists>f d' t. rw_Write cal io p (w, d) = ((w\<lparr>w_file := Some f, w_date := today\<rparr>, d'), Inr (length p)) \<and>
    rw_inv (w\<lparr>w_file := Some f, w_date := today\<rparr>) d' \<and> no_link w d' \<and>
    content d' (day_file w today) = content d (day_file w today) @ p \<and>
    map_of (d_names d') (w_prefix w) = Some (Symlink (day_file w today) t) \<and>
    (nothing_old cal io w d \<longrightarrow> (\<forall>n. n \<noteq> w_prefix w \<longrightarrow> n \<noteq> day_file w today \<longrightarrow> content d' n = content d n)) \<and>
    (\<forall>x \<in> set (d_files d'). fd_mtime x = wi_now io \<or> x \<in> set (d_files d))"
proof -
  obtain d1 f where d1: "(if today \<noteq> w_date w then rotate_file cal io today w d else ((w, d), None)) =
      ((w\<lparr>w_file := Some f, w_date := today\<rparr>, d1), None)"
    and inv: "rw_inv (w\<lparr>w_file := Some f, w_date := today\<rparr>) d1" "no_link w d1"
    and keep: "content d1 (day_file w today) = content d (day_file w today)"
      "\<And>n. n \<noteq> w_prefix w \<Longrightarrow> nothing_old cal io w d \<Longrightarrow> content d1 n = content d n"
      "\<forall>x \<in> set (d_files d1). fd_mtime x = wi_now io \<or> x \<in> set (d_files d)"
  proof (cases "today = w_date w")
    case True
    then obtain f where "w_file w = Some f" using assms(1,6) by (auto simp: rw_inv_def split: option.splits)
    then have "w\<lparr>w_file := Some f, w_date := today\<rparr> = w" using True by simp
    then show ?thesis using that [of f d] True assms(1,2) by simp
  next
    case False
    then show ?thesis using that rotate_opens [of d w io cal today] assms by (metis rw_inv_def)
  qed
  let ?w = "w\<lparr>w_file := Some f, w_date := today\<rparr>"
  let ?d' = "file_Write (wi_now io) f p d1"
  obtain t where names: "map_of (d_names d1) (day_file w today) = Some (File f)" "map_of (d_names d1) (w_prefix w) = Some (Symlink (day_file w today) t)"
    and ok: "dir_ok d1"
    using inv(1) by (auto simp: rw_inv_def day_file_def)
  note fw = file_Write_content [OF ok names(1), where now = "wi_now io" and p = p]
  have "rw_Write cal io p (w, d) = ((?w, ?d'), Inr (length p))"
    using d1 assms(4,5) by (simp add: rw_Write_def Let_def)
  moreover have "rw_inv ?w ?d'" using names fw(3,4) by (auto simp: rw_inv_def day_file_def)
  moreover have "no_link w ?d'" using inv(2) fw(4) by (simp add: no_link_def)
  moreover have "\<forall>x \<in> set (d_files ?d'). fd_mtime x = wi_now io \<or> x \<in> set (d_files d)"
    using keep(3) set_update_subset_insert [of "d_files d1" f] by (fastforce simp: file_Write_def)
  ultimately show ?thesis using names fw keep(1,2) by (intro exI [of _ f] exI [of _ ?d'] exI [of _ t]) auto
qed


text \<open>
  A write reaches the file of its day. With the system calls succeeding and the file of the day young enough
  for the pruning, a write appends exactly its bytes to the file named after the day, whether it has to be
  opened, created or is open already; afterwards the link points to that file.
\<close>

theorem write_reaches_day_file:
  assumes "rw_inv w d" "no_link w d" "wi_open_ok io" "wi_write_ok io" "cal_format cal (wi_now io) = today" "today \<noteq> []"
    and "day_file_young cal io today w d"
  shows "\<exists>f d' t. rw_Write cal io p (w, d) = ((w\<lparr>w_file := Some f, w_date := today\<rparr>, d'), Inr (length p)) \<and>
    rw_inv (w\<lparr>w_file := Some f, w_date := today\<rparr>) d' \<and> no_link w d' \<and>
    content d' (day_file w today) = content d (day_file w today) @ p \<and>
    map_of (d_names d') (w_prefix w) = Some (Symlink (day_file w today) t) \<and>
    (nothing_old cal io w d \<longrightarrow> (\<forall>n. n \<noteq> w_prefix w \<longrightarrow> n \<noteq> day_file w today \<longrightarrow> content d' n = content d n))"
  using write_reaches [OF assms] by blast

text \<open>
  C25. No log line is lost, duplicated or misplaced. Over any sequence of writes whose system calls succeed, and
  however the clock moves between days (also backwards), the file of every day gains exactly the writes of
  that day, in order; with pruning on, as long as the files and the writes are all younger than the age
  limit at every rotation (\<open>since\<close> is a time after all cutoffs and before all of them).
\<close>

theorem daily_logs_complete:
  assumes "rw_inv w d" "no_link w d"
    and "\<forall>(io, p) \<in> set ws. wi_open_ok io \<and> wi_write_ok io \<and> cal_format cal (wi_now io) \<noteq> []"
    and "w_maxAgeDays w \<le> 0 \<or>
      (\<forall>(io, p) \<in> set ws. cal_addDays cal (wi_cleanNow io) (- w_maxAgeDays w) \<le> since \<and> since < wi_now io) \<and>
      (\<forall>x \<in> set (d_files d). since < fd_mtime x)"
  shows "content (snd (rw_run cal ws (w, d))) (day_file w day) =
    content d (day_file w day) @ concat (map snd (filter (\<lambda>(io, p). cal_format cal (wi_now io) = day) ws))"
  using assms
proof (induction ws arbitrary: w d)
  case (Cons x ws)
  obtain io p where x: "x = (io, p)" by (cases x)
  let ?today = "cal_format cal (wi_now io)"
  have old: "nothing_old cal io w d" using Cons.prems(4) by (force simp: x nothing_old_def)
  have "dir_ok d" using Cons.prems(1) by (simp add: rw_inv_def)
  with old have young: "day_file_young cal io ?today w d" by (rule nothing_old_young [rotated])
  obtain f d' where d': "rw_Write cal io p (w, d) = ((w\<lparr>w_file := Some f, w_date := ?today\<rparr>, d'), Inr (length p))"
    "rw_inv (w\<lparr>w_file := Some f, w_date := ?today\<rparr>) d'" "no_link w d'"
    "content d' (day_file w ?today) = content d (day_file w ?today) @ p"
    "\<forall>n. n \<noteq> w_prefix w \<longrightarrow> n \<noteq> day_file w ?today \<longrightarrow> content d' n = content d n"
    "\<forall>x \<in> set (d_files d'). fd_mtime x = wi_now io \<or> x \<in> set (d_files d)"
    using write_reaches [OF Cons.prems(1,2) _ _ refl _ young, of p] Cons.prems(3) old by (auto simp: x)
  let ?w = "w\<lparr>w_file := Some f, w_date := ?today\<rparr>"
  have "no_link ?w d'" using d'(3) by (simp add: no_link_def day_file_def)
  moreover have "w_maxAgeDays ?w \<le> 0 \<or>
      (\<forall>(io, p) \<in> set ws. cal_addDays cal (wi_cleanNow io) (- w_maxAgeDays ?w) \<le> since \<and> since < wi_now io) \<and>
      (\<forall>x \<in> set (d_files d'). since < fd_mtime x)"
    using Cons.prems(4) d'(6) by (auto simp: x)
  ultimately have "content (snd (rw_run cal ws (?w, d'))) (day_file ?w day) =
      content d' (day_file ?w day) @ concat (map snd (filter (\<lambda>(io, p). cal_format cal (wi_now io) = day) ws))"
    using Cons.IH [OF d'(2)] Cons.prems(3) by simp
  moreover have "day_file ?w day = day_file w day" by (simp add: day_file_def)
  ultimately show ?case using d'(1,4,5) by (cases "?today = day") (auto simp: x)
qed simp

definition demo_cal :: calendar where
  "demo_cal = \<lparr>cal_format = (\<lambda>t. if t < 10 then ''20240101'' else ''20240102''), cal_addDays = (\<lambda>t n. t + 10 * n)\<rparr>"

definition demo_writer :: "int \<Rightarrow> RotateWriter" where
  "demo_writer age = \<lparr>w_dir = ''logs'', w_prefix = ''evr.log'', w_maxAgeDays = age, w_file = None, w_date = []\<rparr>"

definition demo_write :: "int \<Rightarrow> write_io" where
  "demo_write now = \<lparr>wi_now = now, wi_cleanNow = now, wi_open_ok = True, wi_write_ok = True\<rparr>"

definition empty_dir :: directory where
  "empty_dir = \<lparr>d_names = [], d_files = []\<rparr>"

lemma demo_writer_inv: "rw_inv (demo_writer age) empty_dir" "no_link (demo_writer age) empty_dir"
  by (simp_all add: rw_inv_def dir_ok_def no_link_def demo_writer_def empty_dir_def)

lemma content_empty_dir [simp]: "content empty_dir n = []"
  by (simp add: content_def empty_dir_def)

theorem write_reaches_day_file_witness:
  "\<exists>f d'. rw_Write demo_cal (demo_write 5) [1, 2] (demo_writer 7, empty_dir) =
      (((demo_writer 7)\<lparr>w_file := Some f, w_date := ''20240101''\<rparr>, d'), Inr 2) \<and>
    content d' ''evr.log.20240101'' = [1, 2]"
proof -
  have young: "day_file_young demo_cal (demo_write 5) ''20240101'' (demo_writer 7) empty_dir"
    by (simp add: day_file_young_def demo_cal_def demo_write_def demo_writer_def empty_dir_def)
  have "wi_open_ok (demo_write 5)" "wi_write_ok (demo_write 5)" "cal_format demo_cal (wi_now (demo_write 5)) = ''20240101''"
    by (simp_all add: demo_write_def demo_cal_def)
  from write_reaches_day_file [OF demo_writer_inv this _ young, of "[1, 2]"]
  show ?thesis by (auto simp: day_file_def demo_writer_def)
qed

theorem daily_logs_complete_witness:
  "content (snd (rw_run demo_cal [(demo_write 5, [1]), (demo_write 12, [2]), (demo_write 6, [3])] (demo_writer 7, empty_dir)))
     (day_file (demo_writer 7) ''20240101'') = [1, 3]"
  using daily_logs_complete [OF demo_writer_inv, where ws = "[(demo_write 5, [1]), (demo_write 12, [2]), (demo_write 6, [3])]"
      and cal = demo_cal and since = 0 and day = "''20240101''"]
  by (simp add: demo_writer_def demo_write_def demo_cal_def empty_dir_def content_def)

text \<open>
  Pruning removes exactly the files it is meant to: those with the writer's prefix that were last modified
  at or before the cutoff, and none when the age limit is not positive. Files of other names, and the link,
  stay; no contents change.
\<close>

theorem prune_exact:
  assumes "dir_ok d"
  shows "map_of (d_names (clean cal now w d)) n =
    (case map_of (d_names d) n of
       None \<Rightarrow> None
     | Some e \<Rightarrow> if 0 < w_maxAgeDays w \<and> HasPrefix n (w_prefix w @ ''.'') \<and> ModTime d e \<le> cal_addDays cal now (- w_maxAgeDays w)
                then None else Some e) \<and> d_files (clean cal now w d) = d_files d"
  using assms clean_names [of d cal now w]
  by (auto simp: dir_ok_def prunable_def split: option.splits)

theorem prune_exact_witness:
  "map_of (d_names (clean demo_cal 100 (demo_writer 3)
     \<lparr>d_names = [(''evr.log.1'', File 0), (''other'', File 1)], d_files = [\<lparr>fd_content = [1], fd_mtime = 60\<rparr>, \<lparr>fd_content = [2], fd_mtime = 60\<rparr>]\<rparr>))
     ''evr.log.1'' = None"
proof -
  let ?d = "\<lparr>d_names = [(''evr.log.1'', File 0), (''other'', File 1)],
     d_files = [\<lparr>fd_content = [1], fd_mtime = 60\<rparr>, \<lparr>fd_content = [2], fd_mtime = 60\<rparr>]\<rparr>"
  have "dir_ok ?d" by (auto simp: dir_ok_def map_ok_def split: if_splits)
  from prune_exact [OF this, of demo_cal 100 "demo_writer 3" "''evr.log.1''"] show ?thesis
    by (simp add: demo_writer_def demo_cal_def HasPrefix_def ModTime_def)
qed

end
