(* ===== verification/Cmd_Config.thy ===== *)
theory Cmd_Config
  imports Cmd_Targets Config_Evr Lidar Rotate_Writer
begin

text \<open>
  The commands that merge a configuration file with flags: \<open>cmd/evr\<close>, \<open>cmd/lidar\<close>, \<open>cmd/kuiniu\<close>, \<open>cmd/baize\<close>,
  \<open>cmd/bitflip\<close> and \<open>cmd/bitflip6\<close>. Reading and decoding the file is not modelled: the decoded structure is
  an argument, whose value without a file is the zero value. \<open>pflag.Visit\<close> calls its argument for
  the flags given on the command line, in the order of their names: a list of names.
\<close>

section \<open>evr\<close>

record evr_json =
  ej_ID :: string
  ej_ClientAddr :: string
  ej_Targets :: string
  ej_DstPort :: u16
  ej_InnerDstPort :: u16
  ej_SrcMAC :: string
  ej_DstMAC :: string
  ej_VNI :: u32
  ej_TOS :: int
  ej_TTL :: int
  ej_ClientPortRange :: string
  ej_RateInSpan :: int
  ej_Span :: string
  ej_Delay :: string
  ej_MsgLen :: int
  ej_PprofAddr :: string
  ej_LogDir :: string
  ej_LogMaxAgeDays :: int
  ej_Verbose :: bool

definition evr_json_zero :: evr_json where
  "evr_json_zero =
     \<lparr>ej_ID = [], ej_ClientAddr = [], ej_Targets = [], ej_DstPort = 0, ej_InnerDstPort = 0, ej_SrcMAC = [], ej_DstMAC = [],
      ej_VNI = 0, ej_TOS = 0, ej_TTL = 0, ej_ClientPortRange = [], ej_RateInSpan = 0, ej_Span = [], ej_Delay = [],
      ej_MsgLen = 0, ej_PprofAddr = [], ej_LogDir = [], ej_LogMaxAgeDays = 0, ej_Verbose = False\<rparr>"

definition buildConfig :: "net_env \<Rightarrow> evr_json \<Rightarrow> cfg_error + evr_Config" where
  "buildConfig env jc =
     (case (if ej_Targets jc \<noteq> [] then ParseTargets (ej_Targets jc) else Inr []) of Inl e \<Rightarrow> Inl e | Inr ts \<Rightarrow>
     (case range_or_default (ej_ClientPortRange jc) zero_range of Inl e \<Rightarrow> Inl e | Inr pr \<Rightarrow>
     (case duration_or_default env (ej_Span jc) 0 of Inl e \<Rightarrow> Inl e | Inr spn \<Rightarrow>
     (case duration_or_default env (ej_Delay jc) 0 of Inl e \<Rightarrow> Inl e | Inr delay \<Rightarrow>
        Inr \<lparr>ec_ID = ej_ID jc, ec_ClientAddr = ej_ClientAddr jc, ec_Targets = ts, ec_DstPort = ej_DstPort jc,
             ec_InnerDstPort = ej_InnerDstPort jc, ec_SrcMAC = ej_SrcMAC jc, ec_DstMAC = ej_DstMAC jc, ec_VNI = ej_VNI jc,
             ec_TOS = ej_TOS jc, ec_TTL = ej_TTL jc, ec_ClientPortRange = pr, ec_RateInSpan = ej_RateInSpan jc,
             ec_Span = spn, ec_Delay = delay, ec_MsgLen = ej_MsgLen jc, ec_PprofAddr = ej_PprofAddr jc,
             ec_LogDir = ej_LogDir jc, ec_LogMaxAgeDays = ej_LogMaxAgeDays jc, ec_Verbose = ej_Verbose jc\<rparr>))))"

record evr_flags =
  ef_id :: string
  ef_clientAddr :: string
  ef_targets :: string
  ef_dstPort :: u16
  ef_innerDstPort :: u16
  ef_srcMAC :: string
  ef_dstMAC :: string
  ef_vni :: u32
  ef_tos :: int
  ef_ttl :: int
  ef_clientPortRange :: string
  ef_rateInSpan :: int
  ef_span :: int
  ef_delay :: int
  ef_msgLen :: int
  ef_pprofAddr :: string
  ef_logDir :: string
  ef_logMaxAgeDays :: int
  ef_verbose :: bool

definition evr_flag_defaults :: evr_flags where
  "evr_flag_defaults =
     \<lparr>ef_id = [], ef_clientAddr = [], ef_targets = [], ef_dstPort = 0, ef_innerDstPort = 0, ef_srcMAC = [], ef_dstMAC = [],
      ef_vni = 0, ef_tos = 0, ef_ttl = 0, ef_clientPortRange = [], ef_rateInSpan = 0, ef_span = 0, ef_delay = 0,
      ef_msgLen = 0, ef_pprofAddr = [], ef_logDir = [], ef_logMaxAgeDays = 0, ef_verbose = False\<rparr>"

text \<open>The flags the function given to \<open>pflag.Visit\<close> looks for, that function, and the visit, which stops at the
  first error. \<open>Evr_other\<close> are the remaining flags, \<open>config\<close> and \<open>version\<close>.\<close>

datatype evr_flag =
    Evr_id | Evr_client_addr | Evr_targets | Evr_dst_port | Evr_inner_dst_port | Evr_src_mac
  | Evr_dst_mac | Evr_vni | Evr_tos | Evr_ttl | Evr_client_port_range | Evr_rate_in_span
  | Evr_span | Evr_delay | Evr_msg_len | Evr_pprof | Evr_log_dir | Evr_log_max_age
  | Evr_verbose | Evr_other

fun evr_visit :: "evr_flags \<Rightarrow> evr_flag \<Rightarrow> evr_Config \<Rightarrow> cfg_error + evr_Config" where
  "evr_visit f Evr_id cfg = Inr (cfg\<lparr>ec_ID := ef_id f\<rparr>)"
| "evr_visit f Evr_client_addr cfg = Inr (cfg\<lparr>ec_ClientAddr := ef_clientAddr f\<rparr>)"
| "evr_visit f Evr_targets cfg = (case ParseTargets (ef_targets f) of Inl e \<Rightarrow> Inl e | Inr ts \<Rightarrow> Inr (cfg\<lparr>ec_Targets := ts\<rparr>))"
| "evr_visit f Evr_dst_port cfg = Inr (cfg\<lparr>ec_DstPort := ef_dstPort f\<rparr>)"
| "evr_visit f Evr_inner_dst_port cfg = Inr (cfg\<lparr>ec_InnerDstPort := ef_innerDstPort f\<rparr>)"
| "evr_visit f Evr_src_mac cfg = Inr (cfg\<lparr>ec_SrcMAC := ef_srcMAC f\<rparr>)"
| "evr_visit f Evr_dst_mac cfg = Inr (cfg\<lparr>ec_DstMAC := ef_dstMAC f\<rparr>)"
| "evr_visit f Evr_vni cfg = Inr (cfg\<lparr>ec_VNI := ef_vni f\<rparr>)"
| "evr_visit f Evr_tos cfg = Inr (cfg\<lparr>ec_TOS := ef_tos f\<rparr>)"
| "evr_visit f Evr_ttl cfg = Inr (cfg\<lparr>ec_TTL := ef_ttl f\<rparr>)"
| "evr_visit f Evr_client_port_range cfg = (case ParsePortRange (ef_clientPortRange f) of Inl e \<Rightarrow> Inl e | Inr pr \<Rightarrow> Inr (cfg\<lparr>ec_ClientPortRange := pr\<rparr>))"
| "evr_visit f Evr_rate_in_span cfg = Inr (cfg\<lparr>ec_RateInSpan := ef_rateInSpan f\<rparr>)"
| "evr_visit f Evr_span cfg = Inr (cfg\<lparr>ec_Span := ef_span f\<rparr>)"
| "evr_visit f Evr_delay cfg = Inr (cfg\<lparr>ec_Delay := ef_delay f\<rparr>)"
| "evr_visit f Evr_msg_len cfg = Inr (cfg\<lparr>ec_MsgLen := ef_msgLen f\<rparr>)"
| "evr_visit f Evr_pprof cfg = Inr (cfg\<lparr>ec_PprofAddr := ef_pprofAddr f\<rparr>)"
| "evr_visit f Evr_log_dir cfg = Inr (cfg\<lparr>ec_LogDir := ef_logDir f\<rparr>)"
| "evr_visit f Evr_log_max_age cfg = Inr (cfg\<lparr>ec_LogMaxAgeDays := ef_logMaxAgeDays f\<rparr>)"
| "evr_visit f Evr_verbose cfg = Inr (cfg\<lparr>ec_Verbose := ef_verbose f\<rparr>)"
| "evr_visit f Evr_other cfg = Inr cfg"

fun Visit :: "('n \<Rightarrow> 'c \<Rightarrow> cfg_error + 'c) \<Rightarrow> 'n list \<Rightarrow> 'c \<Rightarrow> cfg_error + 'c" where
  "Visit visit [] cfg = Inr cfg"
| "Visit visit (name # names) cfg = (case visit name cfg of Inl e \<Rightarrow> Inl e | Inr cfg' \<Rightarrow> Visit visit names cfg')"

definition evr_main :: "net_env \<Rightarrow> evr_json \<Rightarrow> evr_flags \<Rightarrow> evr_flag list \<Rightarrow> evr_Config outcome" where
  "evr_main env jc f names =
     (case buildConfig env jc of
        Inl e \<Rightarrow> Exit e
      | Inr cfg0 \<Rightarrow>
          (case Visit (evr_visit f) names cfg0 of
             Inl e \<Rightarrow> Exit e
           | Inr cfg \<Rightarrow>
               if ec_Targets cfg = [] then Exit NoTargets
               else case evr_Validate env cfg of Inl e \<Rightarrow> Exit e | Inr cfg' \<Rightarrow> Start cfg'))"

text \<open>The log writer, with the same age limit in \<open>evr\<close>, \<open>baize\<close> and \<open>kuiniu\<close>; without a directory there is none.\<close>

definition log_max_age :: "int \<Rightarrow> int" where
  "log_max_age days = (if days \<le> 0 then 7 else days)"

definition log_setup :: "bool \<Rightarrow> string \<Rightarrow> string \<Rightarrow> int \<Rightarrow> (rotate_error + RotateWriter) option" where
  "log_setup mkdir_ok prefix dir days =
     (if dir \<noteq> [] then Some (NewRotateWriter mkdir_ok dir prefix (log_max_age days)) else None)"

definition evr_log :: "bool \<Rightarrow> evr_Config \<Rightarrow> (rotate_error + RotateWriter) option" where
  "evr_log mkdir_ok cfg = log_setup mkdir_ok ''evr.log'' (ec_LogDir cfg) (ec_LogMaxAgeDays cfg)"


section \<open>lidar\<close>

record lidar_json =
  lj_TargetAddrs :: string
  lj_ServerPort :: int
  lj_LocalAddr :: string
  lj_LocalPort :: int
  lj_LocalPortCount :: int
  lj_Rate :: int
  lj_Span :: string
  lj_Delay :: string
  lj_Count :: int
  lj_SendDuration :: string
  lj_Interface :: string
  lj_Verbose :: bool

record lidar_flags =
  lf_targets :: string
  lf_port :: int
  lf_localAddr :: string
  lf_localPort :: int
  lf_localPortCount :: int
  lf_rate :: int
  lf_span :: int
  lf_delay :: int
  lf_count :: int
  lf_duration :: int
  lf_iface :: string
  lf_verbose :: bool

text \<open>\<open>parseDuration\<close> of \<open>lidar\<close> exits on a bad duration; that of \<open>baize\<close> warns and goes on with zero.\<close>

definition lidar_parseDuration :: "net_env \<Rightarrow> string \<Rightarrow> cfg_error + int" where
  "lidar_parseDuration env s = duration_or_default env s 0"

definition lidar_file_config :: "net_env \<Rightarrow> lidar_json \<Rightarrow> cfg_error + lidar_Config" where
  "lidar_file_config env jc =
     (case lidar_parseDuration env (lj_Span jc) of Inl e \<Rightarrow> Inl e | Inr spn \<Rightarrow>
     (case lidar_parseDuration env (lj_Delay jc) of Inl e \<Rightarrow> Inl e | Inr delay \<Rightarrow>
     (case lidar_parseDuration env (lj_SendDuration jc) of Inl e \<Rightarrow> Inl e | Inr sd \<Rightarrow>
        Inr \<lparr>ld_TargetAddrs = splitNonEmpty_trace (lj_TargetAddrs jc), ld_ServerPort = lj_ServerPort jc,
             ld_LocalAddr = lj_LocalAddr jc, ld_LocalPort = lj_LocalPort jc, ld_LocalPortCount = lj_LocalPortCount jc,
             ld_Rate = lj_Rate jc, ld_Span = spn, ld_Delay = delay, ld_Count = lj_Count jc, ld_SendDuration = sd,
             ld_Interface = lj_Interface jc, ld_Verbose = lj_Verbose jc\<rparr>)))"

datatype lidar_flag =
    Lidar_targets | Lidar_port | Lidar_local_addr | Lidar_local_port | Lidar_local_port_count | Lidar_rate
  | Lidar_span | Lidar_delay | Lidar_count | Lidar_duration | Lidar_interface | Lidar_verbose
  | Lidar_other

fun lidar_visit :: "lidar_flags \<Rightarrow> lidar_flag \<Rightarrow> lidar_Config \<Rightarrow> cfg_error + lidar_Config" where
  "lidar_visit f Lidar_targets cfg = Inr (cfg\<lparr>ld_TargetAddrs := splitNonEmpty_trace (lf_targets f)\<rparr>)"
| "lidar_visit f Lidar_port cfg = Inr (cfg\<lparr>ld_ServerPort := lf_port f\<rparr>)"
| "lidar_visit f Lidar_local_addr cfg = Inr (cfg\<lparr>ld_LocalAddr := lf_localAddr f\<rparr>)"
| "lidar_visit f Lidar_local_port cfg = Inr (cfg\<lparr>ld_LocalPort := lf_localPort f\<rparr>)"
| "lidar_visit f Lidar_local_port_count cfg = Inr (cfg\<lparr>ld_LocalPortCount := lf_localPortCount f\<rparr>)"
| "lidar_visit f Lidar_rate cfg = Inr (cfg\<lparr>ld_Rate := lf_rate f\<rparr>)"
| "lidar_visit f Lidar_span cfg = Inr (cfg\<lparr>ld_Span := lf_span f\<rparr>)"
| "lidar_visit f Lidar_delay cfg = Inr (cfg\<lparr>ld_Delay := lf_delay f\<rparr>)"
| "lidar_visit f Lidar_count cfg = Inr (cfg\<lparr>ld_Count := lf_count f\<rparr>)"
| "lidar_visit f Lidar_duration cfg = Inr (cfg\<lparr>ld_SendDuration := lf_duration f\<rparr>)"
| "lidar_visit f Lidar_interface cfg = Inr (cfg\<lparr>ld_Interface := lf_iface f\<rparr>)"
| "lidar_visit f Lidar_verbose cfg = Inr (cfg\<lparr>ld_Verbose := lf_verbose f\<rparr>)"
| "lidar_visit f Lidar_other cfg = Inr cfg"

definition lidar_fill :: "lidar_Config \<Rightarrow> lidar_Config" where
  "lidar_fill c =
     (let c = (if ld_ServerPort c = 0 then c\<lparr>ld_ServerPort := 22\<rparr> else c);
          c = (if ld_LocalPort c = 0 then c\<lparr>ld_LocalPort := 54321\<rparr> else c);
          c = (if ld_LocalPortCount c = 0 then c\<lparr>ld_LocalPortCount := 100\<rparr> else c);
          c = (if ld_Rate c = 0 then c\<lparr>ld_Rate := 10\<rparr> else c);
          c = (if ld_Span c = 0 then c\<lparr>ld_Span := second\<rparr> else c)
      in if ld_Delay c = 0 then c\<lparr>ld_Delay := 3 * second\<rparr> else c)"

definition lidar_main :: "net_env \<Rightarrow> lidar_json \<Rightarrow> lidar_flags \<Rightarrow> lidar_flag list \<Rightarrow> lidar_Config outcome" where
  "lidar_main env jc f names =
     (case lidar_file_config env jc of
        Inl e \<Rightarrow> Exit e
      | Inr cfg0 \<Rightarrow>
          (case Visit (lidar_visit f) names cfg0 of
             Inl e \<Rightarrow> Exit e
           | Inr cfg1 \<Rightarrow>
               let cfg = lidar_fill cfg1
               in if ld_TargetAddrs cfg = [] then Exit NoTargets
                  else case lidar_Validate env cfg of Inl e \<Rightarrow> Exit e | Inr cfg' \<Rightarrow> Start cfg'))"

section \<open>kuiniu\<close>

record kuiniu_flags =
  kf_role :: string
  kf_localGPUAddrs :: string
  kf_remoteGPUAddrs :: string
  kf_tos :: int
  kf_count :: int
  kf_sendDuration :: int
  kf_delay :: int
  kf_clientPorts :: string
  kf_serverPorts :: string
  kf_rate :: int
  kf_msgLen :: int
  kf_verbose :: bool
  kf_pprofAddr :: string
  kf_logDir :: string
  kf_logMaxAge :: int

definition kuiniu_flag_defaults :: kuiniu_flags where
  "kuiniu_flag_defaults =
     \<lparr>kf_role = [], kf_localGPUAddrs = [], kf_remoteGPUAddrs = [], kf_tos = 64, kf_count = 0, kf_sendDuration = 0,
      kf_delay = 3 * second, kf_clientPorts = ''43600,43699'', kf_serverPorts = ''43600,43609'', kf_rate = 5000,
      kf_msgLen = 1024, kf_verbose = False, kf_pprofAddr = [], kf_logDir = [], kf_logMaxAge = 7\<rparr>"

definition kuiniu_zero :: kuiniu_Config where
  "kuiniu_zero =
     \<lparr>kc_PprofAddr = [], kc_LogDir = [], kc_LogMaxAgeDays = 0, kc_Role = [], kc_LocalGPUAddrs = [], kc_RemoteGPUAddrs = [],
      kc_TOS = 0, kc_ClientPortRange = zero_range, kc_ServerPortRange = zero_range, kc_ClientPortRangeStr = [],
      kc_ServerPortRangeStr = [], kc_RateInSpan = 0, kc_Span = 0, kc_SpanStr = [], kc_Delay = 0, kc_DelayStr = [],
      kc_MsgLen = 0, kc_Count = 0, kc_SendDuration = 0, kc_SendDurStr = [], kc_Verbose = False\<rparr>"

text \<open>The overlay compares with the defaults instead of asking which flags were given. \<open>durStr\<close> is
  \<open>Duration.String\<close>.\<close>

definition set_if :: "('c \<Rightarrow> bool) \<Rightarrow> ('c \<Rightarrow> 'c) \<Rightarrow> 'c \<Rightarrow> 'c" where
  "set_if cond change c = (if cond c then change c else c)"

definition kuiniu_overlay :: "(int \<Rightarrow> string) \<Rightarrow> kuiniu_flags \<Rightarrow> kuiniu_Config \<Rightarrow> kuiniu_Config" where
  "kuiniu_overlay durStr f cfg =
     (let cfg = set_if (\<lambda>c. kf_role f \<noteq> []) (\<lambda>c. c\<lparr>kc_Role := kf_role f\<rparr>) cfg;
          cfg = set_if (\<lambda>c. kf_localGPUAddrs f \<noteq> []) (\<lambda>c. c\<lparr>kc_LocalGPUAddrs := splitNonEmpty (kf_localGPUAddrs f)\<rparr>) cfg;
          cfg = set_if (\<lambda>c. kf_remoteGPUAddrs f \<noteq> []) (\<lambda>c. c\<lparr>kc_RemoteGPUAddrs := splitNonEmpty (kf_remoteGPUAddrs f)\<rparr>) cfg;
          cfg = set_if (\<lambda>c. kf_pprofAddr f \<noteq> []) (\<lambda>c. c\<lparr>kc_PprofAddr := kf_pprofAddr f\<rparr>) cfg;
          cfg = set_if (\<lambda>c. kf_logDir f \<noteq> []) (\<lambda>c. c\<lparr>kc_LogDir := kf_logDir f\<rparr>) cfg;
          cfg = set_if (\<lambda>c. kf_logMaxAge f \<noteq> 7) (\<lambda>c. c\<lparr>kc_LogMaxAgeDays := kf_logMaxAge f\<rparr>) cfg;
          cfg = set_if (\<lambda>c. kf_clientPorts f \<noteq> ''43600,43699'' \<or> kc_ClientPortRangeStr c = []) (\<lambda>c. c\<lparr>kc_ClientPortRangeStr := kf_clientPorts f\<rparr>) cfg;
          cfg = set_if (\<lambda>c. kf_serverPorts f \<noteq> ''43600,43609'' \<or> kc_ServerPortRangeStr c = []) (\<lambda>c. c\<lparr>kc_ServerPortRangeStr := kf_serverPorts f\<rparr>) cfg;
          cfg = set_if (\<lambda>c. kf_tos f \<noteq> 64) (\<lambda>c. c\<lparr>kc_TOS := kf_tos f\<rparr>) cfg;
          cfg = set_if (\<lambda>c. kf_count f \<noteq> 0) (\<lambda>c. c\<lparr>kc_Count := kf_count f\<rparr>) cfg;
          cfg = set_if (\<lambda>c. kf_sendDuration f \<noteq> 0) (\<lambda>c. c\<lparr>kc_SendDuration := kf_sendDuration f, kc_SendDurStr := durStr (kf_sendDuration f)\<rparr>) cfg;
          cfg = set_if (\<lambda>c. kf_rate f \<noteq> 5000) (\<lambda>c. c\<lparr>kc_RateInSpan := kf_rate f\<rparr>) cfg;
          cfg = set_if (\<lambda>c. kf_msgLen f \<noteq> 1024) (\<lambda>c. c\<lparr>kc_MsgLen := kf_msgLen f\<rparr>) cfg
      in set_if (\<lambda>c. kf_verbose f) (\<lambda>c. c\<lparr>kc_Verbose := True\<rparr>) cfg)"

definition kuiniu_main :: "net_env \<Rightarrow> (int \<Rightarrow> string) \<Rightarrow> kuiniu_Config \<Rightarrow> kuiniu_flags \<Rightarrow> kuiniu_Config outcome" where
  "kuiniu_main env durStr fileCfg f =
     (case kuiniu_Validate env (kuiniu_overlay durStr f fileCfg) of Inl e \<Rightarrow> Exit e | Inr cfg \<Rightarrow> Start cfg)"

definition kuiniu_log :: "bool \<Rightarrow> kuiniu_Config \<Rightarrow> (rotate_error + RotateWriter) option" where
  "kuiniu_log mkdir_ok cfg = log_setup mkdir_ok ''kuiniu.log'' (kc_LogDir cfg) (kc_LogMaxAgeDays cfg)"

text \<open>Which of the two parts the command starts.\<close>

definition kuiniu_parts :: "kuiniu_Config \<Rightarrow> bool \<times> bool" where
  "kuiniu_parts cfg = (kc_Role cfg = ''client'' \<or> kc_Role cfg = ''both'', kc_Role cfg = ''server'' \<or> kc_Role cfg = ''both'')"


section \<open>baize\<close>

record baize_client =
  bc_ClientAddr :: string
  bc_ServerAddrs :: string
  bc_TOS :: int
  bc_ClientPortRange :: string
  bc_ServerPortRange :: string
  bc_RateInSpan :: int
  bc_Span :: string
  bc_Delay :: string
  bc_MsgLen :: int
  bc_Count :: int
  bc_SendDuration :: string
  bc_Verbose :: bool

record baize_server =
  bs_ServerAddr :: string
  bs_ClientAddrs :: string
  bs_TOS :: int
  bs_ClientPortRange :: string
  bs_ServerPortRange :: string
  bs_RateInSpan :: int
  bs_Span :: string
  bs_Delay :: string
  bs_MsgLen :: int
  bs_Verbose :: bool

definition baize_parseDuration :: "net_env \<Rightarrow> string \<Rightarrow> int" where
  "baize_parseDuration env s =
     (if s = [] then 0 else case e_ParseDuration env s of None \<Rightarrow> 0 | Some d \<Rightarrow> d)"

definition baize_parsePortRange :: "string \<Rightarrow> cfg_error + PortRange" where
  "baize_parsePortRange s = (if s = [] then Inr zero_range else ParsePortRange s)"

definition baize_runClient :: "net_env \<Rightarrow> baize_client \<Rightarrow> Config outcome" where
  "baize_runClient env cfg =
     (case baize_parsePortRange (bc_ClientPortRange cfg) of Inl e \<Rightarrow> Exit e | Inr cpr \<Rightarrow>
     (case baize_parsePortRange (bc_ServerPortRange cfg) of Inl e \<Rightarrow> Exit e | Inr spr \<Rightarrow>
     (case Validate env
             \<lparr>c_Role = RoleClient, c_ClientAddr = bc_ClientAddr cfg, c_ClientAddrs = splitNonEmpty (bc_ClientAddr cfg),
              c_ServerAddrs = splitNonEmpty (bc_ServerAddrs cfg), c_TOS = bc_TOS cfg, c_ClientPortRange = cpr,
              c_ServerPortRange = spr, c_RateInSpan = bc_RateInSpan cfg, c_Span = baize_parseDuration env (bc_Span cfg),
              c_Delay = baize_parseDuration env (bc_Delay cfg), c_MsgLen = bc_MsgLen cfg, c_Count = bc_Count cfg,
              c_SendDuration = baize_parseDuration env (bc_SendDuration cfg), c_Verbose = bc_Verbose cfg\<rparr> of
        Inl e \<Rightarrow> Exit e
      | Inr conf \<Rightarrow> Start conf)))"

definition baize_runServer :: "net_env \<Rightarrow> baize_server \<Rightarrow> Config outcome" where
  "baize_runServer env cfg =
     (case baize_parsePortRange (bs_ClientPortRange cfg) of Inl e \<Rightarrow> Exit e | Inr cpr \<Rightarrow>
     (case baize_parsePortRange (bs_ServerPortRange cfg) of Inl e \<Rightarrow> Exit e | Inr spr \<Rightarrow>
     (case Validate env
             \<lparr>c_Role = RoleServer, c_ClientAddr = [], c_ClientAddrs = splitNonEmpty (bs_ClientAddrs cfg),
              c_ServerAddrs = [bs_ServerAddr cfg], c_TOS = bs_TOS cfg, c_ClientPortRange = cpr,
              c_ServerPortRange = spr, c_RateInSpan = bs_RateInSpan cfg, c_Span = baize_parseDuration env (bs_Span cfg),
              c_Delay = baize_parseDuration env (bs_Delay cfg), c_MsgLen = bs_MsgLen cfg, c_Count = 0,
              c_SendDuration = 0, c_Verbose = bs_Verbose cfg\<rparr> of
        Inl e \<Rightarrow> Exit e
      | Inr conf \<Rightarrow> Start conf)))"

text \<open>The file may configure both parts. They share a context: a part that fails to start cancels the other.\<close>

record baize_config =
  bz_PprofAddr :: string
  bz_LogDir :: string
  bz_LogMaxAgeDays :: int
  bz_Client :: "baize_client option"
  bz_Server :: "baize_server option"

definition baize_log :: "bool \<Rightarrow> baize_config \<Rightarrow> (rotate_error + RotateWriter) option" where
  "baize_log mkdir_ok cfg = log_setup mkdir_ok ''baize.log'' (bz_LogDir cfg) (bz_LogMaxAgeDays cfg)"

definition baize_main :: "net_env \<Rightarrow> baize_config \<Rightarrow> (Config outcome option \<times> Config outcome option) outcome" where
  "baize_main env cfg =
     (if bz_Client cfg = None \<and> bz_Server cfg = None then Exit MissingAddrs
      else Start (map_option (baize_runClient env) (bz_Client cfg), map_option (baize_runServer env) (bz_Server cfg)))"


section \<open>bitflip and bitflip6\<close>

record bitflip_flags =
  bf_role :: string
  bf_clientAddr :: string
  bf_serverAddr :: string
  bf_tos :: int
  bf_count :: int
  bf_sendDuration :: int
  bf_delay :: int
  bf_clientPorts :: string
  bf_serverPorts :: string
  bf_rate :: int
  bf_msgLen :: int
  bf_verbose :: bool

definition bitflip_flag_defaults :: bitflip_flags where
  "bitflip_flag_defaults =
     \<lparr>bf_role = ''server'', bf_clientAddr = [], bf_serverAddr = [], bf_tos = 64, bf_count = 0, bf_sendDuration = 0,
      bf_delay = 3 * second, bf_clientPorts = ''43500,43599'', bf_serverPorts = ''43500,43509'', bf_rate = 5000,
      bf_msgLen = 1024, bf_verbose = False\<rparr>"

definition bitflip_main :: "net_env \<Rightarrow> bitflip_flags \<Rightarrow> Config outcome" where
  "bitflip_main env f =
     (case ParsePortRange (bf_clientPorts f) of Inl e \<Rightarrow> Exit e | Inr cpr \<Rightarrow>
     (case ParsePortRange (bf_serverPorts f) of Inl e \<Rightarrow> Exit e | Inr spr \<Rightarrow>
     (case Validate env
             \<lparr>c_Role = bf_role f, c_ClientAddr = bf_clientAddr f, c_ClientAddrs = splitNonEmpty (bf_clientAddr f),
              c_ServerAddrs = splitNonEmpty (bf_serverAddr f), c_TOS = bf_tos f, c_ClientPortRange = cpr,
              c_ServerPortRange = spr, c_RateInSpan = bf_rate f, c_Span = second, c_Delay = bf_delay f,
              c_MsgLen = bf_msgLen f, c_Count = bf_count f, c_SendDuration = bf_sendDuration f, c_Verbose = bf_verbose f\<rparr> of
        Inl e \<Rightarrow> Exit e
      | Inr cfg \<Rightarrow> Start cfg)))"

definition bitflip6_main :: "net_env \<Rightarrow> bitflip_flags \<Rightarrow> Config6 outcome" where
  "bitflip6_main env f =
     (case ParsePortRange (bf_clientPorts f) of Inl e \<Rightarrow> Exit e | Inr cpr \<Rightarrow>
     (case ParsePortRange (bf_serverPorts f) of Inl e \<Rightarrow> Exit e | Inr spr \<Rightarrow>
        let clientAddrs = splitNonEmpty (bf_clientAddr f)
        in case Validate6 env
             \<lparr>c_Role = bf_role f,
              c_ClientAddr = (if bf_role f = RoleClient \<and> length clientAddrs > 0 then clientAddrs ! 0 else []),
              c_ClientAddrs = clientAddrs, c_ServerAddrs = splitNonEmpty (bf_serverAddr f), c_TOS = bf_tos f,
              c_ClientPortRange = cpr, c_ServerPortRange = spr, c_RateInSpan = bf_rate f, c_Span = second,
              c_Delay = bf_delay f, c_MsgLen = bf_msgLen f, c_Count = bf_count f,
              c_SendDuration = bf_sendDuration f, c_Verbose = bf_verbose f, c_ServerZone = [], c_ClientZone = []\<rparr> of
          Inl e \<Rightarrow> Exit e
        | Inr cfg \<Rightarrow> Start cfg))"

section \<open>Logs of the commands\<close>

text \<open>A writer set up by a command always prunes, and starts in the state the writer's invariant asks for.\<close>

lemma log_setup_writer:
  assumes "log_setup mkdir_ok prefix dir days = Some (Inr w)" "dir_ok d"
  shows "w_maxAgeDays w = (if days \<le> 0 then 7 else days)" "0 < w_maxAgeDays w" "w_prefix w = prefix" "rw_inv w d"
  using assms by (auto simp: log_setup_def NewRotateWriter_def log_max_age_def rw_inv_def split: if_splits)

text \<open>The writer of \<open>evr\<close> keeps files for the validated age, three days when none is given: the value seven of
  the command is never used.\<close>

lemma evr_log_age:
  assumes "evr_main env jc f names = Start cfg" "evr_log mkdir_ok cfg = Some (Inr w)"
  shows "w_maxAgeDays w = ec_LogMaxAgeDays cfg"
proof -
  have "0 < ec_LogMaxAgeDays cfg"
    using assms(1) by (auto simp: evr_main_def evr_runnable_def dest!: evr_Validate_runnable split: sum.splits if_splits)
  then show ?thesis using assms(2) by (auto simp: evr_log_def log_setup_def NewRotateWriter_def log_max_age_def split: if_splits)
qed

section \<open>Flags over files\<close>

text \<open>What visiting the given flags promises: the result is the file's configuration with the fields of the
  given flags replaced, in whatever order they are visited. \<open>merge names\<close> is that replacement and \<open>bad\<close>
  tells the flags whose value does not parse.\<close>

locale flag_overlay =
  fixes visit :: "'n \<Rightarrow> 'c \<Rightarrow> cfg_error + 'c"
    and merge :: "'n set \<Rightarrow> 'c \<Rightarrow> 'c"
    and bad :: "'n \<Rightarrow> bool"
  assumes visit_good: "\<not> bad name \<Longrightarrow> visit name cfg = Inr (merge {name} cfg)"
    and visit_bad: "bad name \<Longrightarrow> \<exists>e. visit name cfg = Inl e"
    and merge_none: "merge {} cfg = cfg"
    and merge_merge: "merge A (merge B cfg) = merge (B \<union> A) cfg"
begin

lemma visited: "Visit visit names cfg = Inr cfg' \<longleftrightarrow> (\<forall>name \<in> set names. \<not> bad name) \<and> cfg' = merge (set names) cfg"
proof (induction names arbitrary: cfg)
  case (Cons name names)
  show ?case
  proof (cases "bad name")
    case True
    then show ?thesis using visit_bad [of name cfg] by auto
  next
    case False
    then have "Visit visit (name # names) cfg = Visit visit names (merge {name} cfg)" using visit_good by simp
    then show ?thesis using False Cons.IH [of "merge {name} cfg"] merge_merge [of "set names" "{name}" cfg] by auto
  qed
qed (auto simp: merge_none)

lemma order_irrelevant:
  assumes "set names = set names'" "Visit visit names cfg = Inr cfg'"
  shows "Visit visit names' cfg = Inr cfg'"
  using assms visited by simp

end

definition given :: "'n set \<Rightarrow> 'n \<Rightarrow> 'a \<Rightarrow> 'a \<Rightarrow> 'a" where
  "given G name new old = (if name \<in> G then new else old)"

lemma given_none: "given {} name new old = old"
  and given_one: "given {name} name new old = new"
  and given_other: "name \<noteq> other \<Longrightarrow> given {other} name new old = old"
  and given_given: "given A name new (given B name new old) = given (B \<union> A) name new old"
  by (auto simp: given_def)

definition evr_merge :: "evr_flags \<Rightarrow> evr_flag set \<Rightarrow> evr_Config \<Rightarrow> evr_Config" where
  "evr_merge f G c =
     \<lparr>ec_ID = given G Evr_id (ef_id f) (ec_ID c),
      ec_ClientAddr = given G Evr_client_addr (ef_clientAddr f) (ec_ClientAddr c),
      ec_Targets = given G Evr_targets (projr (ParseTargets (ef_targets f))) (ec_Targets c),
      ec_DstPort = given G Evr_dst_port (ef_dstPort f) (ec_DstPort c),
      ec_InnerDstPort = given G Evr_inner_dst_port (ef_innerDstPort f) (ec_InnerDstPort c),
      ec_SrcMAC = given G Evr_src_mac (ef_srcMAC f) (ec_SrcMAC c),
      ec_DstMAC = given G Evr_dst_mac (ef_dstMAC f) (ec_DstMAC c),
      ec_VNI = given G Evr_vni (ef_vni f) (ec_VNI c),
      ec_TOS = given G Evr_tos (ef_tos f) (ec_TOS c),
      ec_TTL = given G Evr_ttl (ef_ttl f) (ec_TTL c),
      ec_ClientPortRange = given G Evr_client_port_range (projr (ParsePortRange (ef_clientPortRange f))) (ec_ClientPortRange c),
      ec_RateInSpan = given G Evr_rate_in_span (ef_rateInSpan f) (ec_RateInSpan c),
      ec_Span = given G Evr_span (ef_span f) (ec_Span c),
      ec_Delay = given G Evr_delay (ef_delay f) (ec_Delay c),
      ec_MsgLen = given G Evr_msg_len (ef_msgLen f) (ec_MsgLen c),
      ec_PprofAddr = given G Evr_pprof (ef_pprofAddr f) (ec_PprofAddr c),
      ec_LogDir = given G Evr_log_dir (ef_logDir f) (ec_LogDir c),
      ec_LogMaxAgeDays = given G Evr_log_max_age (ef_logMaxAgeDays f) (ec_LogMaxAgeDays c),
      ec_Verbose = given G Evr_verbose (ef_verbose f) (ec_Verbose c)\<rparr>"

definition evr_bad :: "evr_flags \<Rightarrow> evr_flag \<Rightarrow> bool" where
  "evr_bad f name \<longleftrightarrow> (name = Evr_targets \<and> isl (ParseTargets (ef_targets f))) \<or>
     (name = Evr_client_port_range \<and> isl (ParsePortRange (ef_clientPortRange f)))"

definition lidar_merge :: "lidar_flags \<Rightarrow> lidar_flag set \<Rightarrow> lidar_Config \<Rightarrow> lidar_Config" where
  "lidar_merge f G c =
     \<lparr>ld_TargetAddrs = given G Lidar_targets (splitNonEmpty_trace (lf_targets f)) (ld_TargetAddrs c),
      ld_ServerPort = given G Lidar_port (lf_port f) (ld_ServerPort c),
      ld_LocalAddr = given G Lidar_local_addr (lf_localAddr f) (ld_LocalAddr c),
      ld_LocalPort = given G Lidar_local_port (lf_localPort f) (ld_LocalPort c),
      ld_LocalPortCount = given G Lidar_local_port_count (lf_localPortCount f) (ld_LocalPortCount c),
      ld_Rate = given G Lidar_rate (lf_rate f) (ld_Rate c),
      ld_Span = given G Lidar_span (lf_span f) (ld_Span c),
      ld_Delay = given G Lidar_delay (lf_delay f) (ld_Delay c),
      ld_Count = given G Lidar_count (lf_count f) (ld_Count c),
      ld_SendDuration = given G Lidar_duration (lf_duration f) (ld_SendDuration c),
      ld_Interface = given G Lidar_interface (lf_iface f) (ld_Interface c),
      ld_Verbose = given G Lidar_verbose (lf_verbose f) (ld_Verbose c)\<rparr>"

interpretation evr: flag_overlay "evr_visit f" "evr_merge f" "evr_bad f" for f
proof
  fix name cfg assume "\<not> evr_bad f name"
  then show "evr_visit f name cfg = Inr (evr_merge f {name} cfg)"
    by (cases name) (simp_all add: evr_merge_def given_one given_other evr_bad_def isl_def split: sum.splits)
next
  fix name cfg assume "evr_bad f name"
  then show "\<exists>e. evr_visit f name cfg = Inl e"
    by (cases name) (auto simp: evr_bad_def isl_def)
qed (simp_all add: evr_merge_def given_none given_given)

interpretation ldr: flag_overlay "lidar_visit f" "lidar_merge f" "\<lambda>_. False" for f
proof
  fix name cfg show "lidar_visit f name cfg = Inr (lidar_merge f {name} cfg)"
    by (cases name) (simp_all add: lidar_merge_def given_one given_other)
qed (simp_all add: lidar_merge_def given_none given_given)

lemma evr_Validate_msgLen: "evr_Validate env c = Inr c' \<Longrightarrow> 0 < ec_MsgLen c"
proof -
  have rates: "check_rates c2 = Inr c3 \<Longrightarrow> 0 < ec_MsgLen c2" for c2 c3
    by (cases "ec_MsgLen c2 \<le> 0") (auto simp: check_rates_def Let_def split: if_splits)
  have link: "check_link env c1 = Inr c2 \<Longrightarrow> ec_MsgLen c2 = ec_MsgLen c1" for c1 c2
    by (auto simp: check_link_def Let_def split: if_splits)
  have defs: "ec_MsgLen (link_defaults c1) = ec_MsgLen c1" for c1 by (simp add: link_defaults_def Let_def)
  assume "evr_Validate env c = Inr c'"
  then have "\<exists>addr c2. check_link env (link_defaults (c\<lparr>ec_ClientAddr := addr\<rparr>)) = Inr c2 \<and> check_rates c2 = Inr c'"
    by (cases "ec_ClientAddr c = []")
      (auto simp: evr_Validate_def split: sum.splits if_splits option.splits intro: exI [of _ "ec_ClientAddr c"])
  then obtain c1 c2 where c: "ec_MsgLen c1 = ec_MsgLen c" "check_link env (link_defaults c1) = Inr c2" "check_rates c2 = Inr c'"
    by (metis evr_Config.select_convs(15) evr_Config.update_convs(2) evr_Config.surjective)
  then show "0 < ec_MsgLen c" using rates [OF c(3)] link [OF c(2)] defs [of c1] by simp
qed

text \<open>
  C29. Flags win over the file, field by field. When the \<open>evr\<close> command gets past its flags, the configuration it
  validates has the value of the flag in every field whose flag was given and the file's value in every other,
  whatever the order in which the flags are visited.
\<close>

theorem evr_flags_override:
  assumes "buildConfig env jc = Inr cfg0" "\<forall>name \<in> set names. \<not> evr_bad f name"
  shows "evr_main env jc f names =
    (if ec_Targets (evr_merge f (set names) cfg0) = [] then Exit NoTargets
     else case evr_Validate env (evr_merge f (set names) cfg0) of Inl e \<Rightarrow> Exit e | Inr cfg \<Rightarrow> Start cfg)"
  using assms evr.visited [of f names cfg0 "evr_merge f (set names) cfg0"] by (simp add: evr_main_def)

text \<open>
  The documented command line does not run. The README starts the probe with \<open>--client-addr\<close> and \<open>--targets\<close>
  only and gives \<open>--msg-len\<close> the default 28; without that flag and without a length in the file the
  command never starts, whatever else is given.
\<close>

theorem evr_needs_msg_len:
  assumes "ej_MsgLen jc \<le> 0" "Evr_msg_len \<notin> set names"
  shows "evr_main env jc f names \<noteq> Start cfg"
proof
  assume "evr_main env jc f names = Start cfg"
  then obtain cfg0 cfg1 where c: "buildConfig env jc = Inr cfg0" "Visit (evr_visit f) names cfg0 = Inr cfg1" "evr_Validate env cfg1 = Inr cfg"
    by (auto simp: evr_main_def split: sum.splits if_splits)
  have "ec_MsgLen cfg0 = ej_MsgLen jc" using c(1) by (auto simp: buildConfig_def split: sum.splits)
  moreover have "ec_MsgLen cfg1 = ec_MsgLen cfg0"
    using c(2) assms(2) evr.visited [of f names cfg0 cfg1] by (simp add: evr_merge_def given_def)
  ultimately show False using evr_Validate_msgLen [OF c(3)] assms(1) by simp
qed

theorem evr_needs_msg_len_witness:
  "\<forall>cfg. evr_main demo_evr_env evr_json_zero (evr_flag_defaults\<lparr>ef_clientAddr := ''203.0.113.10'', ef_targets := ''198.51.100.96#192.0.2.1''\<rparr>)
     [Evr_client_addr, Evr_targets] \<noteq> Start cfg"
  by (intro allI evr_needs_msg_len) (simp_all add: evr_json_zero_def)

text \<open>
  The \<open>kuiniu\<close> command cannot be told its default type of service, nor any delay. The overlay recognises a
  flag as given by comparing it with the default: with \<open>--tos\<close> at its documented default 64, given or
  not, the type of service stays the one of the file, 0 without a file, and \<open>--delay\<close> is never read.
\<close>

lemma set_if_keeps: "(\<And>c. sel (change c) = sel c) \<Longrightarrow> sel (set_if cond change c) = sel c"
  by (simp add: set_if_def)

theorem kuiniu_default_tos_not_applied:
  assumes "kf_tos f = 64" "kuiniu_main env durStr fileCfg f = Start cfg"
  shows "kc_TOS cfg = kc_TOS fileCfg \<and> kuiniu_main env durStr fileCfg (f\<lparr>kf_delay := d\<rparr>) = Start cfg"
proof -
  obtain v where v: "kuiniu_Validate env (kuiniu_overlay durStr f fileCfg) = Inr v" "cfg = v"
    using assms(2) by (auto simp: kuiniu_main_def split: sum.splits)
  have "kc_TOS v = kc_TOS (kuiniu_overlay durStr f fileCfg)"
    using v(1) by (auto simp: kuiniu_Validate_def Let_def split: if_splits option.splits sum.splits)
  also have "\<dots> = kc_TOS fileCfg" using assms(1)
    by (simp add: kuiniu_overlay_def Let_def set_if_keeps [where sel = kc_TOS]) (simp add: set_if_def)
  finally have "kc_TOS cfg = kc_TOS fileCfg" using v(2) by simp
  moreover have "kuiniu_overlay durStr (f\<lparr>kf_delay := d\<rparr>) fileCfg = kuiniu_overlay durStr f fileCfg"
    by (simp add: kuiniu_overlay_def)
  ultimately show ?thesis using assms(2) by (simp add: kuiniu_main_def)
qed

definition demo_kuiniu_flags :: kuiniu_flags where
  "demo_kuiniu_flags = kuiniu_flag_defaults\<lparr>kf_role := ''both'', kf_localGPUAddrs := ''10.0.0.1'', kf_remoteGPUAddrs := ''10.0.0.1'',
     kf_clientPorts := ''10,13'', kf_serverPorts := ''20,23''\<rparr>"

theorem kuiniu_default_tos_not_applied_witness:
  "\<exists>cfg. kuiniu_main demo_evr_env (\<lambda>_. []) kuiniu_zero (demo_kuiniu_flags\<lparr>kf_delay := 5 * second\<rparr>) = Start cfg \<and> kc_TOS cfg = 0"
proof -
  have "case kuiniu_main demo_evr_env (\<lambda>_. []) kuiniu_zero demo_kuiniu_flags of Start _ \<Rightarrow> True | _ \<Rightarrow> False" by code_simp
  then obtain cfg where "kuiniu_main demo_evr_env (\<lambda>_. []) kuiniu_zero demo_kuiniu_flags = Start cfg" by (auto split: outcome.splits)
  moreover have "kf_tos demo_kuiniu_flags = 64" by (simp add: demo_kuiniu_flags_def kuiniu_flag_defaults_def)
  moreover have "kc_TOS kuiniu_zero = 0" by (simp add: kuiniu_zero_def)
  ultimately show ?thesis
    using kuiniu_default_tos_not_applied [of demo_kuiniu_flags demo_evr_env "\<lambda>_. []" kuiniu_zero cfg "5 * second"] by metis
qed

definition demo_evr_flags :: evr_flags where
  "demo_evr_flags = evr_flag_defaults\<lparr>ef_clientAddr := ''10.0.0.1'', ef_targets := ''10.0.0.1#10.0.0.1'', ef_msgLen := 64\<rparr>"

definition demo_evr_file :: evr_Config where
  "demo_evr_file = projr (buildConfig demo_evr_env evr_json_zero)"

theorem evr_flags_override_witness:
  "\<exists>cfg. evr_main demo_evr_env evr_json_zero demo_evr_flags [Evr_client_addr, Evr_msg_len, Evr_targets] = Start cfg \<and>
     evr_Validate demo_evr_env (evr_merge demo_evr_flags {Evr_client_addr, Evr_msg_len, Evr_targets} demo_evr_file) = Inr cfg"
proof -
  let ?names = "[Evr_client_addr, Evr_msg_len, Evr_targets]"
  let ?cfg = "evr_merge demo_evr_flags (set ?names) demo_evr_file"
  have 1: "buildConfig demo_evr_env evr_json_zero = Inr demo_evr_file"
  proof -
    have "\<not> isl (buildConfig demo_evr_env evr_json_zero)" by code_simp
    then show ?thesis by (simp add: demo_evr_file_def)
  qed
  have 2: "\<forall>name \<in> set ?names. \<not> evr_bad demo_evr_flags name" by code_simp
  have "ec_Targets ?cfg \<noteq> []" "\<not> isl (evr_Validate demo_evr_env ?cfg)" by code_simp+
  then show ?thesis
    using evr_flags_override [OF 1 2] by (auto simp: isl_def split: sum.splits)
qed

end
