(* ===== verification/Cmd_Run.thy ===== *)
theory Cmd_Run
  imports Cmd_Config Sonar_Server Sonar6_Client
begin

text \<open>
  \<open>bitflip\<close> from its flags to its running parts: \<open>runClient\<close> and \<open>runServer\<close> of \<open>cmd/bitflip/main.go\<close> on
  the configuration that \<open>main\<close> validates, and the steps of the client's goroutines in any order.
\<close>

section \<open>The parts\<close>

definition bitflip_runServer :: "net_env \<Rightarrow> Config \<Rightarrow> Server option" where
  "bitflip_runServer env cfg = New env cfg (NewProcessor (c_Span cfg) (c_Delay cfg))"

definition bitflip_runClient :: "net_env \<Rightarrow> (nat \<Rightarrow> u64) \<Rightarrow> Config \<Rightarrow> Client option" where
  "bitflip_runClient env seqs cfg = NewClient env seqs cfg (NewProcessor (c_Span cfg) (c_Delay cfg))"

datatype bitflip_part = ServerPart Server | ClientPart Client

text \<open>The switch over the role; \<open>None\<close> is a panic.\<close>

definition bitflip_start :: "net_env \<Rightarrow> (nat \<Rightarrow> u64) \<Rightarrow> bitflip_flags \<Rightarrow> bitflip_part option outcome" where
  "bitflip_start env seqs f =
     (case bitflip_main env f of
        Start cfg \<Rightarrow>
          Start (if c_Role cfg = RoleClient then map_option ClientPart (bitflip_runClient env seqs cfg)
                 else if c_Role cfg = RoleServer then map_option ServerPart (bitflip_runServer env cfg)
                 else None)
      | Exit e \<Rightarrow> Exit e
      | Crash \<Rightarrow> Crash)"

text \<open>A step of the client: a probe for a peer, or a packet for one of the receiving sockets.\<close>

datatype client_event = ProbeTo string send_io | PacketFrom int int string "byte list"

fun client_step ::
    "builder \<Rightarrow> (byte list \<Rightarrow> byte list option) \<Rightarrow> client_event \<Rightarrow> sender_state \<Rightarrow> sender_state option" where
  "client_step build dissect (ProbeTo key io) st = map_option fst (send_probe build io key st)"
| "client_step build dissect (PacketFrom now since remote pkt) st =
     map_option (\<lambda>c. st\<lparr>ss_client := c\<rparr>) (handlePacket dissect now since remote pkt (ss_client st))"

fun client_session ::
    "builder \<Rightarrow> (byte list \<Rightarrow> byte list option) \<Rightarrow> client_event list \<Rightarrow> sender_state \<Rightarrow> sender_state option" where
  "client_session build dissect [] st = Some st"
| "client_session build dissect (e # es) st =
     (case client_step build dissect e st of None \<Rightarrow> None | Some st' \<Rightarrow> client_session build dissect es st')"

fun probe_key :: "client_event \<Rightarrow> string option" where
  "probe_key (ProbeTo key io) = Some key"
| "probe_key (PacketFrom now since remote pkt) = None"

section \<open>The client does not fail\<close>

definition client_ready :: "string set \<Rightarrow> Client \<Rightarrow> bool" where
  "client_ready keys c \<longleftrightarrow> c_Span (cl_conf c) \<noteq> 0 \<and> dom (map_of (cl_peers c)) = keys \<and>
     (\<forall>p \<in> ran (map_of (cl_peers c)). pe_stat p < length (p_stats (cl_proc c))) \<and>
     (\<forall>s \<in> set (p_stats (cl_proc c)). bs_span (us_bkts s) \<noteq> 0)"

lemma delete_spans:
  assumes "bs_span bs \<noteq> 0" shows "\<exists>bs'. buckets_delete seq ts bs = Some bs' \<and> bs_span bs' \<noteq> 0"
  using assms by (simp add: buckets_delete_def bucketID_def)

lemma received_spans:
  assumes "bs_span bs \<noteq> 0" shows "\<exists>bs'. buckets_received seq ts rtt bf bs = Some bs' \<and> bs_span bs' \<noteq> 0"
proof -
  have "try_update k u bs = Some bs' \<Longrightarrow> bs_span bs' \<noteq> 0" for k u bs' using assms by (simp add: span_try_update)
  then show ?thesis using assms by (auto simp: buckets_received_def bucketID_def split: option.split)
qed

lemma record_total:
  assumes "bs_span (us_bkts s) \<noteq> 0"
  shows "\<exists>s'. Stat_Put cp sp seq ts s = Some s' \<and> bs_span (us_bkts s') \<noteq> 0"
    "\<exists>s'. Stat_Delete seq ts s = Some s' \<and> bs_span (us_bkts s') \<noteq> 0"
    "\<exists>s'. Stat_Received seq ts rtt bf s = Some s' \<and> bs_span (us_bkts s') \<noteq> 0"
proof -
  show "\<exists>s'. Stat_Put cp sp seq ts s = Some s' \<and> bs_span (us_bkts s') \<noteq> 0"
    using Stat_Put_total [OF assms, of cp sp seq ts] assms by auto
  show "\<exists>s'. Stat_Delete seq ts s = Some s' \<and> bs_span (us_bkts s') \<noteq> 0"
    using delete_spans [OF assms, of seq ts] by (auto simp: Stat_Delete_def lift_bkts_def)
  show "\<exists>s'. Stat_Received seq ts rtt bf s = Some s' \<and> bs_span (us_bkts s') \<noteq> 0"
    using received_spans [OF assms, of seq ts rtt bf] by (auto simp: Stat_Received_def lift_bkts_def)
qed

lemma call_stat_spans:
  assumes "\<forall>s \<in> set (p_stats proc). bs_span (us_bkts s) \<noteq> 0" "i < length (p_stats proc)"
    and "\<And>s. bs_span (us_bkts s) \<noteq> 0 \<Longrightarrow> \<exists>s'. f s = Some s' \<and> bs_span (us_bkts s') \<noteq> 0"
  shows "\<exists>proc'. call_stat f i proc = Some proc' \<and> length (p_stats proc') = length (p_stats proc) \<and>
    (\<forall>s \<in> set (p_stats proc'). bs_span (us_bkts s) \<noteq> 0)"
proof -
  obtain s' where "f (p_stats proc ! i) = Some s'" "bs_span (us_bkts s') \<noteq> 0" using assms by (metis nth_mem)
  then show ?thesis using assms(1,2)
    by (auto simp: call_stat_def set_stat_def dest!: set_update_subset_insert [THEN subsetD])
qed

lemma client_ready_calls:
  assumes "client_ready keys c" "map_of (cl_peers c) key = Some p"
  shows "\<exists>proc. call_stat (Stat_Put cp sp seq ts) (pe_stat p) (cl_proc c) = Some proc \<and> length (p_stats proc) = length (p_stats (cl_proc c)) \<and>
      (\<forall>s \<in> set (p_stats proc). bs_span (us_bkts s) \<noteq> 0) \<and>
      (\<exists>proc'. call_stat (Stat_Delete seq ts) (pe_stat p) proc = Some proc' \<and> length (p_stats proc') = length (p_stats (cl_proc c)) \<and>
        (\<forall>s \<in> set (p_stats proc'). bs_span (us_bkts s) \<noteq> 0))"
    "\<exists>proc. call_stat (Stat_Received seq ts rtt bf) (pe_stat p) (cl_proc c) = Some proc \<and> length (p_stats proc) = length (p_stats (cl_proc c)) \<and>
      (\<forall>s \<in> set (p_stats proc). bs_span (us_bkts s) \<noteq> 0)"
proof -
  have p: "pe_stat p < length (p_stats (cl_proc c))" "\<forall>s \<in> set (p_stats (cl_proc c)). bs_span (us_bkts s) \<noteq> 0"
    using assms by (auto simp: client_ready_def intro: ranI)
  obtain proc where proc: "call_stat (Stat_Put cp sp seq ts) (pe_stat p) (cl_proc c) = Some proc"
      "length (p_stats proc) = length (p_stats (cl_proc c))" "\<forall>s \<in> set (p_stats proc). bs_span (us_bkts s) \<noteq> 0"
    using call_stat_spans [OF p(2,1), where f = "Stat_Put cp sp seq ts"] record_total(1) by blast
  then have "\<exists>proc'. call_stat (Stat_Delete seq ts) (pe_stat p) proc = Some proc' \<and> length (p_stats proc') = length (p_stats proc) \<and>
      (\<forall>s \<in> set (p_stats proc'). bs_span (us_bkts s) \<noteq> 0)"
    using p(1) by (intro call_stat_spans record_total(2)) simp_all
  then show "\<exists>proc. call_stat (Stat_Put cp sp seq ts) (pe_stat p) (cl_proc c) = Some proc \<and> length (p_stats proc) = length (p_stats (cl_proc c)) \<and>
      (\<forall>s \<in> set (p_stats proc). bs_span (us_bkts s) \<noteq> 0) \<and>
      (\<exists>proc'. call_stat (Stat_Delete seq ts) (pe_stat p) proc = Some proc' \<and> length (p_stats proc') = length (p_stats (cl_proc c)) \<and>
        (\<forall>s \<in> set (p_stats proc'). bs_span (us_bkts s) \<noteq> 0))" using proc by auto
  show "\<exists>proc. call_stat (Stat_Received seq ts rtt bf) (pe_stat p) (cl_proc c) = Some proc \<and> length (p_stats proc) = length (p_stats (cl_proc c)) \<and>
      (\<forall>s \<in> set (p_stats proc). bs_span (us_bkts s) \<noteq> 0)"
    by (intro call_stat_spans p record_total(3))
qed

lemma client_ready_proc:
  assumes "client_ready keys c" "length (p_stats proc) = length (p_stats (cl_proc c))" "\<forall>s \<in> set (p_stats proc). bs_span (us_bkts s) \<noteq> 0"
  shows "client_ready keys (c\<lparr>cl_proc := proc\<rparr>)"
  using assms by (simp add: client_ready_def)

lemma client_ready_peer:
  assumes "client_ready keys c" "map_of (cl_peers c) key = Some p" "pe_stat p' = pe_stat p"
  shows "client_ready keys (c\<lparr>cl_peers := AList.update key p' (cl_peers c)\<rparr>)"
proof -
  have "pe_stat p < length (p_stats (cl_proc c))" "key \<in> keys" using assms(1,2) by (auto simp: client_ready_def intro: ranI)
  then show ?thesis using assms(1,3) by (auto simp: client_ready_def update_conv' ran_def dom_def split: if_splits)
qed

lemma send_probe_ready:
  assumes ready: "client_ready keys (ss_client st)" and key: "key \<in> keys"
  shows "\<exists>st' r. send_probe build io key st = Some (st', r) \<and> client_ready keys (ss_client st')"
proof -
  let ?c = "ss_client st"
  obtain p where p: "map_of (cl_peers ?c) key = Some p" using assms by (auto simp: client_ready_def)
  define c where "c = ?c\<lparr>cl_peers := AList.update key (advance_peer p) (cl_peers ?c)\<rparr>"
  have c: "client_ready keys c" "map_of (cl_peers c) key = Some (advance_peer p)"
    using client_ready_peer [OF ready p, of "advance_peer p"] by (simp_all add: c_def advance_peer_def update_conv')
  have spn: "c_Span (cl_conf ?c) \<noteq> 0" using ready by (simp add: client_ready_def)
  obtain proc proc' where proc:
      "call_stat (Stat_Put (fst (next_ports p)) (snd (next_ports p)) (pe_seq (advance_peer p)) (io_ts io)) (pe_stat (advance_peer p)) (cl_proc c) = Some proc"
      "call_stat (Stat_Delete (pe_seq (advance_peer p)) (io_ts io)) (pe_stat (advance_peer p)) proc = Some proc'"
      "client_ready keys (c\<lparr>cl_proc := proc\<rparr>)" "client_ready keys (c\<lparr>cl_proc := proc'\<rparr>)"
    using client_ready_calls(1) [OF c] client_ready_proc [OF c(1)] by metis
  show ?thesis
    using p spn proc c(1) unfolding send_probe_def Let_def c_def [symmetric]
    by (simp add: c_def [symmetric] split: option.split)
qed

lemma handlePacket_ready:
  assumes ready: "client_ready keys c"
  shows "\<exists>c'. handlePacket dissect now since remote pkt c = Some c' \<and> client_ready keys c'"
proof -
  have rec: "\<exists>proc. call_stat (Stat_Received seq ts rtt bf) (pe_stat p) (cl_proc c) = Some proc \<and> client_ready keys (c\<lparr>cl_proc := proc\<rparr>)"
    if "map_of (cl_peers c) remote = Some p" for p seq ts rtt bf
    using client_ready_calls(2) [OF ready that] client_ready_proc [OF ready] by blast
  show ?thesis
  proof (cases "dissect pkt")
    case (Some payload)
    obtain seq ts n sp dp where d: "Decode payload = (seq, ts, n, sp, dp)" by (cases "Decode payload") auto
    show ?thesis
    proof (cases "map_of (cl_peers c) remote")
      case None
      then show ?thesis using ready Some d by (simp add: handlePacket_def)
    next
      case p: (Some p)
      from rec [OF p, of seq ts "i64 (now - ts)" False] show ?thesis
        using ready Some d p by (auto simp: handlePacket_def Let_def)
    qed
  qed (simp add: handlePacket_def ready)
qed

lemma client_session_ready:
  assumes "client_ready keys (ss_client st)" "\<forall>e \<in> set es. \<forall>key. probe_key e = Some key \<longrightarrow> key \<in> keys"
  shows "\<exists>st'. client_session build dissect es st = Some st' \<and> client_ready keys (ss_client st')"
  using assms
proof (induction es arbitrary: st)
  case (Cons e es)
  have "\<exists>st1. client_step build dissect e st = Some st1 \<and> client_ready keys (ss_client st1)"
  proof (cases e)
    case (ProbeTo key io)
    then show ?thesis using send_probe_ready [OF Cons.prems(1), of key build io] Cons.prems(2) by auto
  next
    case (PacketFrom now since remote pkt)
    then show ?thesis using handlePacket_ready [OF Cons.prems(1), of dissect now since remote pkt] by auto
  qed
  then obtain st1 where "client_step build dissect e st = Some st1" "client_ready keys (ss_client st1)" by blast
  then show ?case using Cons.IH [of st1] Cons.prems(2) by auto
qed simp

lemma initPeers_ready:
  assumes "client_ready (dom (map_of (cl_peers c))) c"
  shows "client_ready (dom (map_of (cl_peers c)) \<union> set addrs) (initPeers env seqs addrs c) \<and> cl_conf (initPeers env seqs addrs c) = cl_conf c"
  using assms
proof (induction addrs arbitrary: c)
  case (Cons addr addrs)
  let ?st = "length (p_stats (cl_proc c))"
  let ?s = "NewStat (c_ClientAddr (cl_conf c)) addr (c_ClientPortRange (cl_conf c)) (c_ServerPortRange (cl_conf c))
                (c_RateInSpan (cl_conf c)) (c_Span (cl_conf c)) (c_Delay (cl_conf c)) True"
  define c1 where "c1 = c\<lparr>cl_peers := AList.update addr (new_peer env (cl_conf c) (seqs ?st) ?st addr) (cl_peers c), cl_proc := AddStat ?s (cl_proc c)\<rparr>"
  have spn: "c_Span (cl_conf c) \<noteq> 0" using Cons.prems by (simp add: client_ready_def)
  have "bs_span (us_bkts ?s) = c_Span (cl_conf c)" by (simp add: NewStat_def newBuckets_def)
  moreover have "\<forall>p \<in> ran (map_of (cl_peers c1)). pe_stat p < length (p_stats (cl_proc c1))"
    using Cons.prems by (auto simp: c1_def client_ready_def update_conv' ran_def AddStat_def new_peer_def less_Suc_eq split: if_splits)
  ultimately have "client_ready (dom (map_of (cl_peers c1))) c1"
    using Cons.prems spn unfolding client_ready_def by (auto simp: c1_def AddStat_def)
  moreover have "dom (map_of (cl_peers c1)) = insert addr (dom (map_of (cl_peers c)))" by (simp add: c1_def update_conv')
  ultimately show ?case using Cons.IH [of c1] by (simp add: c1_def Let_def)
qed simp

lemma NewClient_cases:
  assumes "NewClient env seqs conf proc = Some c"
  obtains conf' salts where "c = initPeers env seqs (c_ServerAddrs conf)
      \<lparr>cl_conf = conf', cl_peers = [], cl_salts = salts, cl_proc = proc, cl_delayBitflip = 10 * second\<rparr>"
    "c_Span conf' = c_Span conf" "c_ServerAddrs conf' = c_ServerAddrs conf"
  using assms by (cases "c_MsgLen conf < int MsgHeaderLen") (auto simp: NewClient_def Let_def split: option.splits)

lemma NewClient_ready:
  assumes "NewClient env seqs conf (NewProcessor spn delay) = Some c" "c_Span conf \<noteq> 0"
  shows "client_ready (set (c_ServerAddrs conf)) c" "c_ServerAddrs (cl_conf c) = c_ServerAddrs conf"
proof -
  obtain conf' salts where c: "c = initPeers env seqs (c_ServerAddrs conf)
      \<lparr>cl_conf = conf', cl_peers = [], cl_salts = salts, cl_proc = NewProcessor spn delay, cl_delayBitflip = 10 * second\<rparr>"
    (is "c = initPeers _ _ _ ?c0") and conf': "c_Span conf' = c_Span conf" "c_ServerAddrs conf' = c_ServerAddrs conf"
    using NewClient_cases [OF assms(1)] by blast
  have "client_ready (dom (map_of (cl_peers ?c0))) ?c0" using assms(2) conf' by (simp add: client_ready_def NewProcessor_def)
  from initPeers_ready [OF this, of "c_ServerAddrs conf" env seqs]
  show "client_ready (set (c_ServerAddrs conf)) c" "c_ServerAddrs (cl_conf c) = c_ServerAddrs conf" using conf' by (simp_all add: c)
qed

lemma bitflip_main_runnable:
  assumes "bitflip_main env f = Start cfg"
  shows "runnable cfg" "c_Role cfg = RoleServer \<Longrightarrow> e_ParseIP env (ServerAddr cfg) \<noteq> None"
proof -
  obtain cpr spr c where c: "ParsePortRange (bf_clientPorts f) = Inr cpr" "ParsePortRange (bf_serverPorts f) = Inr spr"
      "Validate env c = Inr cfg" "c_ClientPortRange c = cpr" "c_ServerPortRange c = spr"
    using assms by (force simp: bitflip_main_def split: sum.splits)
  then have "ranges_given c" using ParsePortRange_sound by (simp add: ranges_given_def)
  then show "runnable cfg" "c_Role cfg = RoleServer \<Longrightarrow> e_ParseIP env (ServerAddr cfg) \<noteq> None"
    using Validate_runnable [OF c(3)] by simp_all
qed

lemma New_localIP:
  assumes "New env conf proc = Some s" shows "se_localIP s = e_ParseIP env (ServerAddr conf)"
proof -
  have "se_localIP (fold (\<lambda>a. register a a) as t) = se_localIP t" for as t
    by (induction as arbitrary: t) (simp_all add: register_def)
  moreover have "ServerAddr (server_conf conf) = ServerAddr conf" by (simp add: server_conf_def ServerAddr_def)
  ultimately show ?thesis using assms by (auto simp: New_def Let_def split: option.splits)
qed

text \<open>
  C9. A \<open>bitflip\<close> that starts keeps running. Whatever flags are given, once they pass validation the part of
  the chosen role is made without a panic: a server listens on a parsed address, and any sequence of datagrams
  from any senders is handled to its end with exactly the valid ones echoed; a client has a peer for
  every server address, and any interleaving of probes to its peers and of packets of any content is
  handled to its end.
\<close>

theorem bitflip_never_fails:
  assumes "bitflip_start env seqs f = Start part"
  shows "(\<exists>s. part = Some (ServerPart s) \<and> se_localIP s \<noteq> None \<and>
        (\<forall>ds. \<exists>s'. serve ds s = Some (s', filter IsValid (map dg_data ds)))) \<or>
    (\<exists>c. part = Some (ClientPart c) \<and>
        (\<forall>es. (\<forall>e \<in> set es. \<forall>key. probe_key e = Some key \<longrightarrow> key \<in> set (c_ServerAddrs (cl_conf c))) \<longrightarrow>
          (\<exists>st. client_session build dissect es (start_sending c) = Some st)))"
proof -
  obtain cfg where cfg: "bitflip_main env f = Start cfg"
    and part: "part = (if c_Role cfg = RoleClient then map_option ClientPart (bitflip_runClient env seqs cfg)
                 else if c_Role cfg = RoleServer then map_option ServerPart (bitflip_runServer env cfg) else None)"
    using assms by (auto simp: bitflip_start_def split: outcome.splits)
  have run: "c_Role cfg = RoleServer \<or> c_Role cfg = RoleClient" "c_Span cfg \<noteq> 0" "0 < c_MsgLen cfg"
    using bitflip_main_runnable(1) [OF cfg] by (simp_all add: runnable_def)
  show ?thesis
  proof (cases "c_Role cfg = RoleClient")
    case True
    obtain c where c: "bitflip_runClient env seqs cfg = Some c"
      by (cases "c_MsgLen cfg < int MsgHeaderLen") (auto simp: bitflip_runClient_def NewClient_def NewSalts_def Let_def)
    note ready = NewClient_ready [OF c [unfolded bitflip_runClient_def] run(2)]
    have "client_ready (set (c_ServerAddrs (cl_conf c))) (ss_client (start_sending c))" using ready by (simp add: start_sending_def)
    note session = client_session_ready [OF this]
    have "part = Some (ClientPart c)" using part True c by simp
    then show ?thesis using session by blast
  next
    case False
    then have srv: "c_Role cfg = RoleServer" "RoleServer \<noteq> RoleClient" using run(1) by (auto simp: RoleServer_def RoleClient_def)
    obtain s where s: "bitflip_runServer env cfg = Some s"
      by (cases "c_MsgLen cfg < int MsgHeaderLen") (auto simp: bitflip_runServer_def New_def server_conf_def NewSalts_def Let_def)
    have inv: "server_inv s" "c_Span (se_conf s) \<noteq> 0" using New_inv [OF s [unfolded bitflip_runServer_def]] run(2) by auto
    have "se_localIP s = e_ParseIP env (ServerAddr cfg)" by (rule New_localIP [OF s [unfolded bitflip_runServer_def]])
    then show ?thesis using serve_total [OF inv] bitflip_main_runnable(2) [OF cfg] part srv s by (metis option.simps(9))
  qed
qed

definition demo_server_flags :: bitflip_flags where
  "demo_server_flags = bitflip_flag_defaults\<lparr>bf_clientPorts := ''10,12'', bf_serverPorts := ''20,21'', bf_msgLen := 36\<rparr>"

definition demo_client_flags :: bitflip_flags where
  "demo_client_flags = demo_server_flags\<lparr>bf_role := ''client'', bf_clientAddr := ''10.0.0.1'', bf_serverAddr := ''10.0.0.1''\<rparr>"

definition demo_probe_io :: send_io where
  "demo_probe_io = \<lparr>io_ts = 15, io_since = 0, io_deadline_ok = True, io_write_ok = True\<rparr>"

lemma demo_flags_valid:
  "case bitflip_main demo_env demo_server_flags of Start cfg \<Rightarrow> c_Role cfg = ''server'' | _ \<Rightarrow> False"
  "case bitflip_main demo_env demo_client_flags of
     Start cfg \<Rightarrow> c_Role cfg = ''client'' \<and> c_ServerAddrs cfg = [''10.0.0.1''] \<and> c_Span cfg \<noteq> 0 | _ \<Rightarrow> False"
  by code_simp+

lemma demo_flags_start:
  "\<exists>s. bitflip_start demo_env seqs demo_server_flags = Start (Some (ServerPart s))"
  "\<exists>c. bitflip_start demo_env seqs demo_client_flags = Start (Some (ClientPart c)) \<and> c_ServerAddrs (cl_conf c) = [''10.0.0.1'']"
proof -
  obtain cfg where "bitflip_main demo_env demo_server_flags = Start cfg" "c_Role cfg = ''server''"
    using demo_flags_valid(1) by (auto split: outcome.splits)
  then show "\<exists>s. bitflip_start demo_env seqs demo_server_flags = Start (Some (ServerPart s))"
    by (cases "c_MsgLen cfg < int MsgHeaderLen")
      (auto simp: bitflip_start_def RoleServer_def RoleClient_def bitflip_runServer_def New_def server_conf_def NewSalts_def Let_def)
  obtain cl where cl: "bitflip_main demo_env demo_client_flags = Start cl" "c_Role cl = ''client''" "c_ServerAddrs cl = [''10.0.0.1'']" "c_Span cl \<noteq> 0"
    using demo_flags_valid(2) by (auto split: outcome.splits)
  obtain c where c: "bitflip_runClient demo_env seqs cl = Some c"
    by (cases "c_MsgLen cl < int MsgHeaderLen") (auto simp: bitflip_runClient_def NewClient_def NewSalts_def Let_def)
  then show "\<exists>c. bitflip_start demo_env seqs demo_client_flags = Start (Some (ClientPart c)) \<and> c_ServerAddrs (cl_conf c) = [''10.0.0.1'']"
    using cl NewClient_ready(2) [OF c [unfolded bitflip_runClient_def]] by (auto simp: bitflip_start_def RoleClient_def)
qed

theorem bitflip_never_fails_witness:
  "(\<exists>s s'. bitflip_start demo_env (\<lambda>_. 7) demo_server_flags = Start (Some (ServerPart s)) \<and>
      serve [\<lparr>dg_now = 22, dg_port = 20, dg_remoteIP = ''10.0.0.9'', dg_remotePort = 10, dg_data = [1]\<rparr>] s = Some (s', filter IsValid [[1]])) \<and>
   (\<exists>c st. bitflip_start demo_env (\<lambda>_. 7) demo_client_flags = Start (Some (ClientPart c)) \<and>
      client_session (\<lambda>_ _ _ _ _ d. Some d) Some [ProbeTo ''10.0.0.1'' demo_probe_io, PacketFrom 20 0 ''10.0.0.9'' [2]] (start_sending c) = Some st)"
proof (intro conjI)
  obtain s where s: "bitflip_start demo_env (\<lambda>_. 7) demo_server_flags = Start (Some (ServerPart s))"
    using demo_flags_start(1) by blast
  obtain c where c: "bitflip_start demo_env (\<lambda>_. 7) demo_client_flags = Start (Some (ClientPart c))" "c_ServerAddrs (cl_conf c) = [''10.0.0.1'']"
    using demo_flags_start(2) by blast
  have "\<forall>ds. \<exists>s'. serve ds s = Some (s', filter IsValid (map dg_data ds))" using bitflip_never_fails [OF s] by simp
  from this [rule_format, of "[\<lparr>dg_now = 22, dg_port = 20, dg_remoteIP = ''10.0.0.9'', dg_remotePort = 10, dg_data = [1]\<rparr>]"]
  show "\<exists>s s'. bitflip_start demo_env (\<lambda>_. 7) demo_server_flags = Start (Some (ServerPart s)) \<and>
      serve [\<lparr>dg_now = 22, dg_port = 20, dg_remoteIP = ''10.0.0.9'', dg_remotePort = 10, dg_data = [1]\<rparr>] s = Some (s', filter IsValid [[1]])"
    using s by auto
  show "\<exists>c st. bitflip_start demo_env (\<lambda>_. 7) demo_client_flags = Start (Some (ClientPart c)) \<and>
      client_session (\<lambda>_ _ _ _ _ d. Some d) Some [ProbeTo ''10.0.0.1'' demo_probe_io, PacketFrom 20 0 ''10.0.0.9'' [2]] (start_sending c) = Some st"
    using bitflip_never_fails [OF c(1), of "\<lambda>_ _ _ _ _ d. Some d" Some] c
    by (auto dest!: spec [of _ "[ProbeTo ''10.0.0.1'' demo_probe_io, PacketFrom 20 0 ''10.0.0.9'' [2]]"])
qed

section \<open>bitflip6\<close>

text \<open>\<open>cmd/bitflip6/main.go\<close>: the server may be nil, which ends the process.\<close>

definition bitflip6_runServer :: "net_env \<Rightarrow> Config6 \<Rightarrow> Server option outcome" where
  "bitflip6_runServer env cfg =
     (case New6 env (Config.truncate cfg) (NewProcessor (c_Span cfg) (c_Delay cfg)) of
        None \<Rightarrow> Start None
      | Some None \<Rightarrow> Exit (InvalidAddress (ServerAddr cfg))
      | Some (Some s) \<Rightarrow> Start (Some s))"

definition bitflip6_runClient :: "net_env \<Rightarrow> (nat \<Rightarrow> u64) \<Rightarrow> Config6 \<Rightarrow> Client option" where
  "bitflip6_runClient env seqs cfg = NewClient6 env seqs (Config.truncate cfg) (NewProcessor (c_Span cfg) (c_Delay cfg))"

lemma truncate_fields:
  "c_MsgLen (Config.truncate c) = c_MsgLen c" "c_ServerAddrs (Config.truncate c) = c_ServerAddrs c" "c_Span (Config.truncate c) = c_Span c"
  by (simp_all add: Config.truncate_def)

text \<open>After validation the server is never nil: it is made whenever there is a server address, and the
  client always.\<close>

lemma bitflip6_parts_start:
  assumes "bitflip6_main env f = Start cfg"
  shows "runnable cfg" "\<exists>c. bitflip6_runClient env seqs cfg = Some c"
    "c_ServerAddrs cfg \<noteq> [] \<Longrightarrow> \<exists>s. bitflip6_runServer env cfg = Start (Some s)"
proof -
  obtain cpr spr c where c: "ParsePortRange (bf_clientPorts f) = Inr cpr" "ParsePortRange (bf_serverPorts f) = Inr spr"
      "Validate6 env c = Inr cfg" "c_ClientPortRange c = cpr" "c_ServerPortRange c = spr"
    using assms by (force simp: bitflip6_main_def Let_def split: sum.splits)
  then have "ranges_given c" using ParsePortRange_sound by (simp add: ranges_given_def)
  note v = validated_config6_addresses [OF c(3) this]
  show "runnable cfg" using v by simp
  show "\<exists>c. bitflip6_runClient env seqs cfg = Some c"
    by (cases "c_MsgLen cfg < int MsgHeaderLen") (auto simp: bitflip6_runClient_def NewClient6_def NewSalts_def Let_def truncate_fields)
  assume a: "c_ServerAddrs cfg \<noteq> []"
  then have addr: "ServerAddr cfg \<in> set (c_ServerAddrs cfg)" "ServerAddr (server_conf (Config.truncate cfg)) = ServerAddr cfg"
    by (cases "c_ServerAddrs cfg"; simp add: ServerAddr_def server_conf_def truncate_fields)+
  then obtain ip where "e_ParseIP env (ServerAddr cfg) = Some ip" using v by (auto simp: valid_ip6_def split: option.splits)
  then show "\<exists>s. bitflip6_runServer env cfg = Start (Some s)" using addr(2)
    by (cases "c_MsgLen cfg < int MsgHeaderLen")
      (auto simp: bitflip6_runServer_def New6_def NewSalts_def Let_def server_conf_def truncate_fields ServerAddr_def split: option.splits)
qed

end
