(* ===== verification/Spec2Isabelle.thy ===== *)
theory Spec2Isabelle
  imports Ping_Session Sonar_System Sonar6_Server Kuiniu_Transport Evr_Agent Trace_Match Cmd_Run
begin

text \<open>
  A verification development for the network probing tools of this repository: the bit-flip probe
  (\<open>sonar\<close>, \<open>sonar6\<close>), the GPU fabric probe (\<open>kuiniu\<close>), the VXLAN probe (\<open>evr\<close>), the mass pingers
  (\<open>ping\<close>, \<open>ping6\<close>), the SYN scanner (\<open>lidar\<close>), the tracers (\<open>traceroute\<close>, \<open>traceroute6\<close>), the
  statistics package (\<open>stat\<close>) they share, the log writer (\<open>util\<close>) and the commands (\<open>cmd\<close>) that start them.

  \<^bold>\<open>How the program is put together.\<close> Every probing tool has the same shape. A configuration is validated
  and completed; a client keeps one peer per target with a sequence number and a pair of ports that walks
  through its ranges; each probe is recorded with \<open>Put\<close> in the statistics object of its peer, in the
  bucket of its time span, and sent; a receiver, fed by a packet filter, decodes what comes back and
  records it with \<open>Received\<close>; a processor reports the oldest finished bucket of each object once per span.
  The servers echo probes and keep statistics of their own, from what the client announces about its
  previous span. The tracers send all probes at once, match replies to them and aggregate hops. A command
  collects its targets and its configuration from flags, arguments and a file, and hands them to a package.

  \<^bold>\<open>What is modelled where.\<close>
  \<^item> \<open>Prelude\<close>, \<open>Go_Strings\<close>: Go's int64 and unsigned words, byte buffers, maps as association lists, decimal
    text, \<open>strings\<close> and \<open>strconv\<close> as far as the sources use them, and the lemma collections on them.
  \<^item> \<open>Stat_Ports\<close> (\<open>stat/stat.go\<close>): port ranges and the port walk, in its four copies and the single-port form.
  \<^item> \<open>Stat_Bucket\<close>, \<open>Stat_Summary\<close> (\<open>stat/bucket.go\<close>): requests, buckets, the recording operations, the
    summaries of a bucket. \<open>Stat_Table\<close>: the abstract table of probes that the buckets implement.
  \<^item> \<open>Stat_Report\<close> (\<open>stat/sender.go\<close>, \<open>stat/processor.go\<close>): statistics objects, reporting, lost ports, the
    log sender and the processor. \<open>Stat_Processor\<close>: the processor's loop over many objects, with recording calls
    between its visits. \<open>Stat_Records\<close>: what each of these operations keeps of a property of single
    records, for the components that record into them.
  \<^item> \<open>Probe_Codecs\<close> (\<open>sonar/codec\<close>, \<open>kuiniu/codec\<close>, \<open>evr/codec\<close>), \<open>Sonar6_Codec\<close> (\<open>sonar6/codec\<close>),
    \<open>Util_Salts\<close> (\<open>util/salts.go\<close>): payload formats, the IPv6 extension header walk, salt patterns.
  \<^item> \<open>Bpf_Filters\<close>: the packet filters of \<open>sonar\<close>, \<open>sonar6\<close>, \<open>kuiniu\<close> and \<open>evr\<close>, with the filter machine.
  \<^item> \<open>Net_Env\<close>, \<open>Config_Sonar\<close>, \<open>Config_Evr\<close>: addresses, the environment, and the configurations.
  \<^item> \<open>Sonar_Client\<close>, \<open>Sonar_Server\<close>, \<open>Sonar6_Client\<close>, \<open>Sonar6_Server\<close>: the bit-flip probe; \<open>Sonar_System\<close>: client,
    servers and the network between them as a step relation; \<open>Kuiniu\<close>: the GPU probe's client and server; \<open>Kuiniu_Transport\<close>
    (\<open>kuiniu/transport\<close>): its raw sockets, and the \<open>Run\<close> methods that open them; \<open>Evr_Agent\<close>: the VXLAN probe;
    \<open>Ping\<close>, \<open>Ping_Io\<close>, \<open>Ping_Sockets\<close>: the pingers, their kernel timestamps, their sockets and packets; \<open>Ping_Session\<close>:
    a run of \<open>mping\<close> with its goroutines interleaved;
    \<open>Lidar\<close>: the scanner with its own filter program.
  \<^item> \<open>Enrich\<close> (\<open>traceroute/enrich\<close>), \<open>Traceroute\<close>, \<open>Trace_Hops\<close>, \<open>Trace_Match\<close>, \<open>Trace_Format\<close>
    (\<open>traceroute\<close>, \<open>traceroute6\<close>): probes, matching, hops, the run over all targets, output.
  \<^item> \<open>Rotate_Writer\<close> (\<open>util/rotate_writer.go\<close>): the daily log files over a model of their directory.
  \<^item> \<open>Cidr\<close>: the expansion of networks in \<open>cmd/mping\<close> and \<open>cmd/mping6\<close>. \<open>Cmd_Targets\<close>: these two commands and
    \<open>cmd/traceroute\<close>, \<open>cmd/traceroute6\<close>, from the parsed flags to the configuration and, for the tracers, the
    printed reports. \<open>Cmd_Config\<close>: \<open>cmd/evr\<close>, \<open>cmd/lidar\<close>, \<open>cmd/kuiniu\<close>, \<open>cmd/baize\<close>, \<open>cmd/bitflip\<close> and
    \<open>cmd/bitflip6\<close>: file values, the overlay of flags, defaults, validation, the log writer they open.
    \<open>Cmd_Run\<close>: the parts \<open>bitflip\<close> and \<open>bitflip6\<close> make from their configuration.

  \<^bold>\<open>How state and operations correspond.\<close> A struct is a record whose fields carry a prefix; a method that
  changes its receiver is a function from the old to the new record. \<open>None\<close> is a panic (in the servers and
  clients) or an error value, as the theories say. Pointers to statistics objects are positions in the list
  of the processor, so that the aliasing between a client's peers and the processor is explicit. What the
  outside decides is an argument: clock readings, random first sequence numbers, the outcome of socket
  calls, the order of map iteration and of completions, resolver and parser of the \<open>net\<close> package (the
  record \<open>net_env\<close>), and the packet library as builder and dissector. Loops of goroutines are functions
  over the list of what they read, one element per turn. Lengths, ports, sequence numbers and counters that
  can wrap are words; nanoseconds are integers with the int64 wrap written out (\<open>i64\<close>); rates are rational
  numbers where the code has floats.

  \<^bold>\<open>What is shown.\<close>
  \<^item> Statistics: the buckets refine the abstract table (\<open>probe_table\<close> is the interface, interpreted as \<open>bk\<close>);
    a late reply updates the record of the previous span but duplicates it after two; reports come out once,
    in order and complete; what the summaries count; what a server reports as lost; objects report
    independently of each other and the processor works off any backlog, one span per tick.
  \<^item> Ports: a full turn of the odometer visits every pair once; the receiving sockets share the ports
    without gap or overlap; the wrap at 65535.
  \<^item> Formats: encoding and decoding are inverse, damage in the body never reaches the header, and an accepted
    payload is an encoded one (\<open>probe_codec\<close>, interpreted for the three formats).
  \<^item> Filters: which packets a filter accepts, byte for byte (\<open>bpf_machine\<close>, interpreted for the machine).
  \<^item> Clients and servers: a clean echo is credited to its probe, a damaged one is dropped or marked; the
    servers handle every datagram, echo exactly the valid foreign ones and keep one object per client; what
    a client announces is its previous span; the round trip of a GPU probe through client and server; the
    VXLAN agent with a validated configuration never fails and judges every reply correctly; a packet for a
    GPU reaches exactly one receiver; client and server of one host keep apart although their sockets
    see the same packets.
  \<^item> Composition: in every reachable state of the bit-flip system, under loss, delay, reordering, duplication
    and body damage, what a client counts as received was answered by that server and sent to it.
  \<^item> Tracers: an ICMP error names its probe as long as a hop has at most 16 probes; a trace ends at the first
    hop that reached the destination, in whatever order the probes complete; names and infos fill every slot.
  \<^item> Configurations: what validation accepts can be run, and validation is idempotent.
  \<^item> Commands: a network expands to its hosts, in order; \<open>mping\<close> always gets through its targets and starts
    with valid addresses within its limit; the tracer reports every distinct target once and never panics;
    the flags given replace the file's values and nothing else, in whatever order they are visited
    (\<open>flag_overlay\<close>, interpreted for \<open>evr\<close> and \<open>lidar\<close>); from its flags on, \<open>bitflip\<close> and \<open>mping\<close> never
    fail once they have started, whatever arrives and in whatever order their goroutines run.
  \<^item> Logs: every write reaches the file of its day and no other, pruning removes exactly the old files.
  \<^item> Where the code does not do what it means to, a theorem states what it does instead: the extension walk
    that never ends, lost ports off by one, the GPU server that reports every probe as lost, filters and
    rotations that wrap, ambiguous TCP and high-query traces, replies that starve a shadowed target, a
    single address that expands to all others, UDP traces that end at a prohibiting router, a log writer
    that does not come back after closing, flags whose documented defaults are not applied, a time to live and
    type of service that never reach the wire, a first span reported before its time.

  \<^bold>\<open>Termination and fuel.\<close> Loops are structural recursion on their inputs, except the extension header walk,
  the loop that drops reported buckets and the network expansion, which are partial functions in the option type: that they return is
  proved (or, for the walk, refuted on a concrete packet), not assumed. The scanner's filter machine
  decreases the rest of its program. No model needs fuel.

  \<^bold>\<open>Not modelled.\<close> Of the commands: the flag parser (its results are records), reading and decoding
  configuration files, signal handling, the rate limiter, the profiling server and the start of goroutines. Of the
  sockets: buffer sizes, the raw connections of \<open>sonar\<close> and \<open>evr\<close>, closing; the kernel's side of them is an argument.
  Log text other than the decisions behind it, the summary line of the tracers (float formatting), and the
  packet library itself, which is not part of the sources. Files that repeat another one line for line (parts
  of \<open>traceroute6\<close>, the timestamp files of \<open>ping6\<close>) use the definitions of the first.
  Mutex-protected sections are atomic steps; data races between goroutines are not modelled.
\<close>

end
